(* ===== verification/Prelude.thy ===== *)
theory Prelude
  imports Main
begin

text \<open>
  What the other theories share: Go's error values with their wrapping chain, the 64-bit
  integers behind \<open>int64\<close>, \<open>int\<close> and \<open>time.Duration\<close>, instants of time, and generic lemmas
  on lists that the table model and the components use. Instants are counted in
  nanoseconds from the Unix epoch as unbounded integers; a duration is an \<open>int64\<close> number
  of nanoseconds and wraps or saturates exactly where Go does.
\<close>

named_theorems go_error \<open>how errors.Is sees each error value\<close>
named_theorems go_split \<open>case splits over results of fallible calls\<close>

section \<open>Errors\<close>

text \<open>
  An \<open>error\<close> of the program: the sentinels of package \<open>repository\<close> and of package
  \<open>web\<close>, \<open>sql.ErrNoRows\<close>, a plain text error, and \<open>fmt.Errorf("op: %w", err)\<close>, which
  keeps the wrapped error reachable for \<open>errors.Is\<close>.
\<close>

datatype go_err =
    ErrNotFound
  | ErrConflict
  | ErrNoRows
  | ErrNoDomainAvailable
  | RateLimitError int
  | ErrText string
  | Wrap string go_err

primrec err_is :: "go_err \<Rightarrow> go_err \<Rightarrow> bool" where
  "err_is ErrNotFound t = (t = ErrNotFound)"
| "err_is ErrConflict t = (t = ErrConflict)"
| "err_is ErrNoRows t = (t = ErrNoRows)"
| "err_is ErrNoDomainAvailable t = (t = ErrNoDomainAvailable)"
| "err_is (RateLimitError d) t = (t = RateLimitError d)"
| "err_is (ErrText s) t = (t = ErrText s)"
| "err_is (Wrap op e) t = (t = Wrap op e \<or> err_is e t)"

text \<open>\<open>err.Error()\<close>.\<close>

primrec error_text :: "go_err \<Rightarrow> string" where
  "error_text ErrNotFound = ''not found''"
| "error_text ErrConflict = ''conflict''"
| "error_text ErrNoRows = ''sql: no rows in result set''"
| "error_text ErrNoDomainAvailable = ''no domain available for inbox creation''"
| "error_text (RateLimitError d) = ''rate limit exceeded''"
| "error_text (ErrText s) = s"
| "error_text (Wrap op e) = op @ '': '' @ error_text e"

text \<open>\<open>errors.As(err, &limitErr)\<close>: the first rate-limit error of the chain.\<close>

primrec as_rate_limit :: "go_err \<Rightarrow> int option" where
  "as_rate_limit ErrNotFound = None"
| "as_rate_limit ErrConflict = None"
| "as_rate_limit ErrNoRows = None"
| "as_rate_limit ErrNoDomainAvailable = None"
| "as_rate_limit (RateLimitError d) = Some d"
| "as_rate_limit (ErrText s) = None"
| "as_rate_limit (Wrap op e) = as_rate_limit e"

type_synonym 'a result = "go_err + 'a"

text \<open>The two halves of a Go result pair \<open>(value, err)\<close>.\<close>

definition err_of :: "'a result \<Rightarrow> go_err option" where
  "err_of r = (case r of Inl e \<Rightarrow> Some e | Inr _ \<Rightarrow> None)"

definition value_or :: "'a \<Rightarrow> 'a result \<Rightarrow> 'a" where
  "value_or z r = (case r of Inl _ \<Rightarrow> z | Inr v \<Rightarrow> v)"

lemma err_of_simps [simp]: "err_of (Inl e) = Some e" "err_of (Inr v) = None"
  by (simp_all add: err_of_def)

lemma err_of_None: "err_of r = None \<longleftrightarrow> (\<exists>v. r = Inr v)"
  by (cases r) auto

lemma value_or_simps [simp]: "value_or z (Inl e) = z" "value_or z (Inr v) = v"
  by (simp_all add: value_or_def)

lemmas [go_split] = sum.splits option.splits prod.splits if_splits

section \<open>64-bit integers and durations\<close>

definition wrap64 :: "int \<Rightarrow> int" where
  "wrap64 x = (x + 2 ^ 63) mod 2 ^ 64 - 2 ^ 63"

abbreviation max_int64 :: int where "max_int64 \<equiv> 2 ^ 63 - 1"
abbreviation min_int64 :: int where "min_int64 \<equiv> - (2 ^ 63)"

lemma wrap64_id: "min_int64 \<le> x \<Longrightarrow> x \<le> max_int64 \<Longrightarrow> wrap64 x = x"
  by (simp add: wrap64_def)

lemma wrap64_range: "min_int64 \<le> wrap64 x \<and> wrap64 x \<le> max_int64"
proof -
  have "0 \<le> (x + 2 ^ 63) mod 2 ^ 64" and "(x + 2 ^ 63) mod 2 ^ 64 < (2 ^ 64 :: int)"
    by (rule pos_mod_sign, simp) (rule pos_mod_bound, simp)
  then show ?thesis by (simp add: wrap64_def)
qed

lemma wrap64_shift: "\<exists>k. wrap64 x = x + k * 2 ^ 64"
proof
  show "wrap64 x = x + (- ((x + 2 ^ 63) div 2 ^ 64)) * 2 ^ 64"
    using minus_div_mult_eq_mod [of "x + 2 ^ 63" "2 ^ 64"] by (simp add: wrap64_def)
qed

lemma wrap64_plus_multiple: "wrap64 (x + k * 2 ^ 64) = wrap64 x"
proof -
  have "x + k * 2 ^ 64 + 2 ^ 63 = (x + 2 ^ 63) + k * 2 ^ 64" by simp
  then show ?thesis unfolding wrap64_def by (metis mod_mult_self1)
qed

text \<open>A chain of wrapping products is the product, wrapped once.\<close>

lemma wrap64_mult_left: "wrap64 (wrap64 a * b) = wrap64 (a * b)"
proof -
  obtain k where "wrap64 a = a + k * 2 ^ 64" using wrap64_shift by blast
  then have "wrap64 a * b = a * b + (k * b) * 2 ^ 64" by (simp add: algebra_simps)
  then show ?thesis by (simp only: wrap64_plus_multiple)
qed

abbreviation time_Second :: int where "time_Second \<equiv> 1000000000"
abbreviation time_Minute :: int where "time_Minute \<equiv> 60 * time_Second"
abbreviation time_Hour :: int where "time_Hour \<equiv> 60 * time_Minute"

text \<open>
  The zero \<open>time.Time\<close> is midnight of 1 January of year 1. \<open>Time.Sub\<close> saturates at
  the ends of the duration range; \<open>Time.Unix\<close> drops the nanoseconds.
\<close>

definition zero_time :: int where
  "zero_time = - 62135596800 * time_Second"

definition IsZero :: "int \<Rightarrow> bool" where
  "IsZero t \<longleftrightarrow> t = zero_time"

definition time_Sub :: "int \<Rightarrow> int \<Rightarrow> int" where
  "time_Sub t u = max min_int64 (min max_int64 (t - u))"

definition toUnix :: "int \<Rightarrow> int" where
  "toUnix t = t div time_Second"

definition fromUnix :: "int \<Rightarrow> int" where
  "fromUnix v = v * time_Second"

lemma toUnix_fromUnix [simp]: "toUnix (fromUnix v) = v"
  by (simp add: toUnix_def fromUnix_def)

lemma fromUnix_toUnix_le: "fromUnix (toUnix t) \<le> t"
  using minus_mod_eq_div_mult [of t time_Second] by (simp add: toUnix_def fromUnix_def)

lemma fromUnix_toUnix_gt: "t < fromUnix (toUnix t) + time_Second"
  using minus_mod_eq_div_mult [of t time_Second] pos_mod_bound [of time_Second t]
  by (simp add: toUnix_def fromUnix_def)

lemma toUnix_mono: "t \<le> u \<Longrightarrow> toUnix t \<le> toUnix u"
  by (simp add: toUnix_def zdiv_mono1)

lemma time_Sub_exact: "min_int64 \<le> t - u \<Longrightarrow> t - u \<le> max_int64 \<Longrightarrow> time_Sub t u = t - u"
  by (simp add: time_Sub_def)

lemma time_Sub_ge_iff: "min_int64 < w \<Longrightarrow> w \<le> max_int64 \<Longrightarrow> w \<le> time_Sub t u \<longleftrightarrow> w \<le> t - u"
  by (auto simp: time_Sub_def)

section \<open>Lists\<close>

lemma distinct_map_filter: "distinct (map f xs) \<Longrightarrow> distinct (map f (filter P xs))"
  by (induction xs) auto

lemma filter_key_eq_singleton:
  "distinct (map f xs) \<Longrightarrow> x \<in> set xs \<Longrightarrow> filter (\<lambda>y. f y = f x) xs = [x]"
proof (induction xs)
  case (Cons y xs)
  show ?case
  proof (cases "y = x")
    case True
    with Cons.prems have "filter (\<lambda>z. f z = f x) xs = []"
      by (metis (mono_tags, lifting) True distinct.simps(2) filter_False imageI list.simps(9) set_map)
    with True show ?thesis by simp
  next
    case False
    with Cons show ?thesis by force
  qed
qed simp

lemma filter_key_empty: "k \<notin> f ` set xs \<Longrightarrow> filter (\<lambda>y. f y = k) xs = []"
  by (auto simp: filter_empty_conv)

lemma map_map_if_same: "(\<And>x. f (g x) = f x) \<Longrightarrow> map f (map (\<lambda>x. if P x then g x else x) xs) = map f xs"
  by (induction xs) auto

end
