(* ===== verification/Go_Strings.thy ===== *)
theory Go_Strings
  imports Prelude "HOL-Library.Sublist"
begin

text \<open>
  The operations of Go's \<open>strings\<close>, \<open>unicode/utf8\<close>, \<open>strconv\<close> and \<open>net\<close> packages that
  the program calls. A Go string is its bytes, here a \<open>char list\<close>. The functions that work
  on code points decode UTF-8 as Go does (an invalid byte is U+FFFD of width 1), so that
  \<open>TrimSpace\<close>, \<open>ToLower\<close> and a \<open>range\<close> loop agree with Go on every byte string. Of the
  Unicode tables only the white-space property is written out; the lower-case mapping of
  the code points from 128 up is the parameter \<open>ul\<close> of every function that lower-cases.
\<close>

section \<open>Bytes and UTF-8\<close>

definition byte :: "char \<Rightarrow> nat" where
  "byte c = of_char c"

definition ascii :: "string \<Rightarrow> bool" where
  "ascii s \<longleftrightarrow> list_all (\<lambda>c. byte c < 128) s"

definition rune_error :: nat where
  "rune_error = 0xFFFD"

definition cont_byte :: "nat \<Rightarrow> bool" where
  "cont_byte b \<longleftrightarrow> 0x80 \<le> b \<and> b \<le> 0xBF"

text \<open>\<open>utf8.DecodeRuneInString\<close>: the first code point and its width in bytes.\<close>

definition decode_bytes :: "nat list \<Rightarrow> nat \<times> nat" where
  "decode_bytes bs =
     (case bs of
        [] \<Rightarrow> (rune_error, 0)
      | b0 # r \<Rightarrow>
          if b0 < 0x80 then (b0, 1)
          else if 0xC2 \<le> b0 \<and> b0 \<le> 0xDF then
            (case r of
               b1 # _ \<Rightarrow> if cont_byte b1 then ((b0 - 0xC0) * 64 + (b1 - 0x80), 2) else (rune_error, 1)
             | [] \<Rightarrow> (rune_error, 1))
          else if 0xE0 \<le> b0 \<and> b0 \<le> 0xEF then
            (case r of
               b1 # b2 # _ \<Rightarrow>
                 if (if b0 = 0xE0 then 0xA0 else 0x80) \<le> b1 \<and> b1 \<le> (if b0 = 0xED then 0x9F else 0xBF)
                    \<and> cont_byte b2
                 then ((b0 - 0xE0) * 4096 + (b1 - 0x80) * 64 + (b2 - 0x80), 3) else (rune_error, 1)
             | _ \<Rightarrow> (rune_error, 1))
          else if 0xF0 \<le> b0 \<and> b0 \<le> 0xF4 then
            (case r of
               b1 # b2 # b3 # _ \<Rightarrow>
                 if (if b0 = 0xF0 then 0x90 else 0x80) \<le> b1 \<and> b1 \<le> (if b0 = 0xF4 then 0x8F else 0xBF)
                    \<and> cont_byte b2 \<and> cont_byte b3
                 then ((b0 - 0xF0) * 262144 + (b1 - 0x80) * 4096 + (b2 - 0x80) * 64 + (b3 - 0x80), 4)
                 else (rune_error, 1)
             | _ \<Rightarrow> (rune_error, 1))
          else (rune_error, 1))"

definition decode_rune :: "string \<Rightarrow> nat \<times> nat" where
  "decode_rune s = decode_bytes (map byte (take 4 s))"

lemma decode_bytes_width: "snd (decode_bytes (b # bs)) \<ge> 1"
  by (simp add: decode_bytes_def split: list.split)

lemma decode_rune_width: "s \<noteq> [] \<Longrightarrow> 1 \<le> snd (decode_rune s)"
  by (cases s) (auto simp: decode_rune_def numeral_eq_Suc decode_bytes_width simp del: One_nat_def)

text \<open>A \<open>range\<close> loop over a string visits these code points.\<close>

function runes :: "string \<Rightarrow> nat list" where
  "runes s =
     (if s = [] then []
      else fst (decode_rune s) # runes (drop (snd (decode_rune s)) s))"
  by pat_completeness auto
termination
  by (relation "measure length") (use decode_rune_width in \<open>auto simp: Suc_le_eq\<close>)

declare runes.simps [simp del]

text \<open>\<open>utf8.AppendRune\<close> on the empty string.\<close>

definition encode_rune :: "nat \<Rightarrow> string" where
  "encode_rune r = map char_of
     (if r < 0x80 then [r]
      else if r < 0x800 then [0xC0 + r div 64, 0x80 + r mod 64]
      else if r > 0x10FFFF \<or> (0xD800 \<le> r \<and> r \<le> 0xDFFF) then [0xEF, 0xBF, 0xBD]
      else if r < 0x10000 then [0xE0 + r div 4096, 0x80 + r div 64 mod 64, 0x80 + r mod 64]
      else [0xF0 + r div 262144, 0x80 + r div 4096 mod 64, 0x80 + r div 64 mod 64, 0x80 + r mod 64])"

lemma byte_less_256: "byte c < 256"
  by (simp add: byte_def)

lemma byte_char_of [simp]: "n < 256 \<Longrightarrow> byte (char_of n) = n"
  by (simp add: byte_def)

lemma char_of_byte [simp]: "char_of (byte c) = c"
  by (simp add: byte_def)

lemma ascii_Nil [simp]: "ascii []"
  by (simp add: ascii_def)

lemma ascii_Cons [simp]: "ascii (c # s) \<longleftrightarrow> byte c < 128 \<and> ascii s"
  by (simp add: ascii_def)

lemma ascii_append [simp]: "ascii (s @ t) \<longleftrightarrow> ascii s \<and> ascii t"
  by (simp add: ascii_def)

lemma ascii_iff: "ascii s \<longleftrightarrow> (\<forall>c \<in> set s. byte c < 128)"
  by (simp add: ascii_def list_all_iff)

lemma decode_rune_ascii: "byte c < 128 \<Longrightarrow> decode_rune (c # s) = (byte c, 1)"
  by (simp add: decode_rune_def decode_bytes_def numeral_eq_Suc)

lemma runes_Nil [simp]: "runes [] = []"
  by (simp add: runes.simps)

lemma runes_ascii_Cons: "byte c < 128 \<Longrightarrow> runes (c # s) = byte c # runes s"
  by (subst runes.simps) (simp add: decode_rune_ascii)

lemma runes_ascii: "ascii s \<Longrightarrow> runes s = map byte s"
  by (induction s) (simp_all add: runes_ascii_Cons)

text \<open>A byte from 128 up never starts an ASCII code point.\<close>

lemma decoded_high:
  "0xC2 \<le> b0 \<Longrightarrow> (128::nat) \<le> (b0 - 0xC0) * 64 + x"
  "0xE0 \<le> b0 \<Longrightarrow> (if b0 = 0xE0 then 0xA0 else 0x80) \<le> b1 \<Longrightarrow> (128::nat) \<le> (b0 - 0xE0) * 4096 + (b1 - 0x80) * 64 + y"
  "0xF0 \<le> b0 \<Longrightarrow> (if b0 = 0xF0 then 0x90 else 0x80) \<le> b1 \<Longrightarrow>
   (128::nat) \<le> (b0 - 0xF0) * 262144 + (b1 - 0x80) * 4096 + z * 64 + u"
  by (linarith, (cases "b0 = 0xE0"; simp; linarith), (cases "b0 = 0xF0"; simp; linarith))

lemma fst_cases:
  "(c \<Longrightarrow> n \<le> fst x) \<Longrightarrow> (\<not> c \<Longrightarrow> n \<le> fst y) \<Longrightarrow> n \<le> fst (if c then x else y)"
  "n \<le> fst x \<Longrightarrow> (\<And>b t. n \<le> fst (f b t)) \<Longrightarrow> n \<le> fst (case bs of [] \<Rightarrow> x | b # t \<Rightarrow> f b t)"
  by (auto split: list.split)

lemma decode_bytes_high: "128 \<le> b \<Longrightarrow> 128 \<le> fst (decode_bytes (b # bs))"
  unfolding decode_bytes_def list.case
  by (intro fst_cases; (elim conjE)?; (simp only: fst_conv)?; (rule decoded_high; assumption | simp add: rune_error_def))

lemma runes_below_128: "list_all (\<lambda>r. r < 128) (runes s) \<Longrightarrow> ascii s"
proof (induction s rule: runes.induct)
  case (1 s)
  show ?case
  proof (cases s)
    case (Cons c t)
    from 1(2) Cons have first: "fst (decode_rune (c # t)) < 128" by (simp add: runes.simps [of "c # t"])
    have c: "byte c < 128"
    proof (rule ccontr)
      assume "\<not> byte c < 128"
      then have "128 \<le> fst (decode_rune (c # t))" by (simp add: decode_rune_def take_Cons' decode_bytes_high)
      with first show False by simp
    qed
    with 1 Cons show ?thesis by (simp add: decode_rune_ascii runes_ascii_Cons)
  qed simp
qed

section \<open>White space\<close>

text \<open>\<open>unicode.IsSpace\<close>.\<close>

definition is_space :: "nat \<Rightarrow> bool" where
  "is_space r \<longleftrightarrow>
     (9 \<le> r \<and> r \<le> 13) \<or> r = 32 \<or> r = 0x85 \<or> r = 0xA0 \<or> r = 0x1680 \<or>
     (0x2000 \<le> r \<and> r \<le> 0x200A) \<or> r = 0x2028 \<or> r = 0x2029 \<or> r = 0x202F \<or> r = 0x205F \<or> r = 0x3000"

text \<open>
  \<open>utf8.DecodeLastRuneInString\<close>: the code point at the end, found by walking back at
  most four bytes to one that can start an encoding.
\<close>

definition rune_start :: "char \<Rightarrow> bool" where
  "rune_start c \<longleftrightarrow> \<not> cont_byte (byte c)"

definition decode_last_rune :: "string \<Rightarrow> nat \<times> nat" where
  "decode_last_rune s =
     (let n = length s in
      if n = 0 then (rune_error, 0)
      else if byte (last s) < 0x80 then (byte (last s), 1)
      else case filter (\<lambda>k. k \<le> n \<and> rune_start (s ! (n - k))) [2, 3, 4] of
             [] \<Rightarrow> (rune_error, 1)
           | k # _ \<Rightarrow> let (r, size) = decode_rune (drop (n - k) s)
                       in if size = k then (r, size) else (rune_error, 1))"

lemma filter_234: "filter P [2, 3, 4] = k # ks \<Longrightarrow> 2 \<le> (k :: nat)"
  by (auto split: if_splits)

lemma decode_last_rune_width:
  assumes "s \<noteq> []"
  shows "1 \<le> snd (decode_last_rune s)"
proof (cases "filter (\<lambda>k. k \<le> length s \<and> rune_start (s ! (length s - k))) [2, 3, 4]")
  case Nil
  with assms show ?thesis unfolding decode_last_rune_def by (simp add: Let_def)
next
  case (Cons k ks)
  then have "2 \<le> k" by (rule filter_234)
  with assms Cons show ?thesis
    unfolding decode_last_rune_def by (simp add: Let_def split: prod.split)
qed

text \<open>\<open>TrimLeftFunc\<close>, \<open>TrimRightFunc\<close> with \<open>unicode.IsSpace\<close>, and \<open>strings.TrimSpace\<close>.\<close>

function trim_left :: "string \<Rightarrow> string" where
  "trim_left s =
     (if s \<noteq> [] \<and> is_space (fst (decode_rune s))
      then trim_left (drop (snd (decode_rune s)) s) else s)"
  by pat_completeness auto
termination
  by (relation "measure length") (use decode_rune_width in \<open>auto simp: Suc_le_eq\<close>)

function trim_right :: "string \<Rightarrow> string" where
  "trim_right s =
     (if s \<noteq> [] \<and> is_space (fst (decode_last_rune s))
      then trim_right (take (length s - snd (decode_last_rune s)) s) else s)"
  by pat_completeness auto
termination
  by (relation "measure length") (use decode_last_rune_width in \<open>auto simp: Suc_le_eq\<close>)

declare trim_left.simps [simp del] trim_right.simps [simp del]

definition TrimSpace :: "string \<Rightarrow> string" where
  "TrimSpace s = trim_right (trim_left s)"

lemma trim_left_Nil [simp]: "trim_left [] = []"
  by (simp add: trim_left.simps)

lemma trim_right_Nil [simp]: "trim_right [] = []"
  by (simp add: trim_right.simps)

lemma trim_left_stop: "\<not> is_space (fst (decode_rune s)) \<Longrightarrow> trim_left s = s"
  by (simp add: trim_left.simps)

lemma trim_right_stop: "\<not> is_space (fst (decode_last_rune s)) \<Longrightarrow> trim_right s = s"
  by (simp add: trim_right.simps)

lemma trim_left_ascii_Cons:
  "byte c < 128 \<Longrightarrow> trim_left (c # s) = (if is_space (byte c) then trim_left s else c # s)"
  by (subst trim_left.simps) (simp add: decode_rune_ascii)

lemma decode_last_rune_ascii: "byte c < 128 \<Longrightarrow> decode_last_rune (s @ [c]) = (byte c, 1)"
  by (simp add: decode_last_rune_def)

lemma trim_right_ascii_snoc:
  "byte c < 128 \<Longrightarrow> trim_right (s @ [c]) = (if is_space (byte c) then trim_right s else s @ [c])"
  by (subst trim_right.simps) (simp add: decode_last_rune_ascii)

lemma trim_left_ends: "trim_left s = [] \<or> \<not> is_space (fst (decode_rune (trim_left s)))"
proof (induction s rule: trim_left.induct)
  case (1 s)
  then show ?case by (cases "s \<noteq> [] \<and> is_space (fst (decode_rune s))") (auto simp: trim_left.simps [of s])
qed

lemma trim_right_ends: "trim_right s = [] \<or> \<not> is_space (fst (decode_last_rune (trim_right s)))"
proof (induction s rule: trim_right.induct)
  case (1 s)
  then show ?case by (cases "s \<noteq> [] \<and> is_space (fst (decode_last_rune s))") (auto simp: trim_right.simps [of s])
qed

lemma trim_left_suffix: "suffix (trim_left s) s"
proof (induction s rule: trim_left.induct)
  case (1 s)
  show ?case
  proof (cases "s \<noteq> [] \<and> is_space (fst (decode_rune s))")
    case True
    with 1 have "suffix (trim_left s) (drop (snd (decode_rune s)) s)" by (simp add: trim_left.simps [of s])
    then show ?thesis using suffix_drop suffix_order.trans by blast
  next
    case False
    then show ?thesis by (auto simp: trim_left.simps [of s])
  qed
qed

lemma trim_right_prefix: "prefix (trim_right s) s"
proof (induction s rule: trim_right.induct)
  case (1 s)
  show ?case
  proof (cases "s \<noteq> [] \<and> is_space (fst (decode_last_rune s))")
    case True
    with 1 have "prefix (trim_right s) (take (length s - snd (decode_last_rune s)) s)"
      by (simp add: trim_right.simps [of s])
    then show ?thesis using take_is_prefix prefix_order.trans by blast
  next
    case False
    then show ?thesis by (auto simp: trim_right.simps [of s])
  qed
qed

lemma not_space_rune_error [simp]: "\<not> is_space rune_error"
  by (simp add: is_space_def rune_error_def)

lemma decode_bytes_mono:
  assumes "fst (decode_bytes bs) \<noteq> rune_error"
  shows "decode_bytes (bs @ cs) = decode_bytes bs"
proof (cases bs)
  case Nil
  with assms show ?thesis by (simp add: decode_bytes_def)
next
  case (Cons b0 r)
  consider "r = []" | b1 where "r = [b1]" | b1 b2 where "r = [b1, b2]"
    | b1 b2 b3 q where "r = b1 # b2 # b3 # q"
    by (metis list.exhaust)
  then show ?thesis
    using assms Cons by cases (simp_all add: decode_bytes_def split: if_splits)
qed

lemma decode_rune_mono:
  "fst (decode_rune p) \<noteq> rune_error \<Longrightarrow> decode_rune (p @ q) = decode_rune p"
  by (simp add: decode_rune_def decode_bytes_mono)

text \<open>Trimming twice is trimming once, on every byte string.\<close>

lemma TrimSpace_ends:
  "TrimSpace s = [] \<or>
   \<not> is_space (fst (decode_rune (TrimSpace s))) \<and> \<not> is_space (fst (decode_last_rune (TrimSpace s)))"
proof -
  let ?t = "TrimSpace s"
  obtain q where q: "trim_left s = ?t @ q"
    using trim_right_prefix [of "trim_left s"] by (auto simp: TrimSpace_def prefix_def)
  have "\<not> is_space (fst (decode_rune ?t))" if "?t \<noteq> []"
  proof
    assume sp: "is_space (fst (decode_rune ?t))"
    then have "fst (decode_rune ?t) \<noteq> rune_error" by auto
    then have "decode_rune (trim_left s) = decode_rune ?t" using q decode_rune_mono by simp
    with sp trim_left_ends [of s] q that show False by auto
  qed
  then show ?thesis using trim_right_ends [of "trim_left s"] by (auto simp: TrimSpace_def)
qed

lemma TrimSpace_id:
  "\<not> is_space (fst (decode_rune s)) \<Longrightarrow> \<not> is_space (fst (decode_last_rune s)) \<Longrightarrow> TrimSpace s = s"
  by (simp add: TrimSpace_def trim_left_stop trim_right_stop)

lemma TrimSpace_Nil [simp]: "TrimSpace [] = []"
  by (simp add: TrimSpace_def)

lemma TrimSpace_idem [simp]: "TrimSpace (TrimSpace s) = TrimSpace s"
  using TrimSpace_ends [of s] TrimSpace_id by fastforce

lemma set_TrimSpace: "set (TrimSpace s) \<subseteq> set s"
  using set_mono_prefix [OF trim_right_prefix] set_mono_suffix [OF trim_left_suffix]
  unfolding TrimSpace_def by blast

lemma ascii_TrimSpace: "ascii s \<Longrightarrow> ascii (TrimSpace s)"
  using set_TrimSpace [of s] by (auto simp: ascii_iff)

lemma length_TrimSpace: "length (TrimSpace s) \<le> length s"
  using prefix_length_le [OF trim_right_prefix] suffix_length_le [OF trim_left_suffix]
  unfolding TrimSpace_def by (rule order_trans)

lemma TrimSpace_no_space_ascii:
  assumes "ascii s" "\<not> list_ex is_space (map byte s)"
  shows "TrimSpace s = s"
proof (cases s rule: rev_cases)
  case (snoc t c)
  from assms snoc have "\<not> is_space (fst (decode_last_rune s))"
    by (simp add: decode_last_rune_ascii)
  moreover have "\<not> is_space (fst (decode_rune s))"
    using assms by (cases s) (simp_all add: decode_rune_ascii decode_rune_def decode_bytes_def)
  ultimately show ?thesis by (rule TrimSpace_id [rotated])
qed simp

section \<open>Case\<close>

text \<open>\<open>unicode.ToLower\<close> on one code point, and \<open>strings.ToLower\<close> on a string.\<close>

definition lower_rune :: "(nat \<Rightarrow> nat) \<Rightarrow> nat \<Rightarrow> nat" where
  "lower_rune ul r = (if r < 128 then (if 65 \<le> r \<and> r \<le> 90 then r + 32 else r) else ul r)"

definition lower_byte :: "char \<Rightarrow> char" where
  "lower_byte c = (if 65 \<le> byte c \<and> byte c \<le> 90 then char_of (byte c + 32) else c)"

definition ToLower :: "(nat \<Rightarrow> nat) \<Rightarrow> string \<Rightarrow> string" where
  "ToLower ul s =
     (if ascii s then map lower_byte s
      else concat (map (\<lambda>r. encode_rune (lower_rune ul r)) (runes s)))"

text \<open>SQLite's \<open>NOCASE\<close> folds the 26 ASCII letters only.\<close>

definition nocase :: "string \<Rightarrow> string" where
  "nocase s = map lower_byte s"

lemma byte_lower_byte: "byte (lower_byte c) = (if 65 \<le> byte c \<and> byte c \<le> 90 then byte c + 32 else byte c)"
  by (simp add: lower_byte_def)

lemma lower_byte_idem [simp]: "lower_byte (lower_byte c) = lower_byte c"
  by (simp add: lower_byte_def)

lemma nocase_idem [simp]: "nocase (nocase s) = nocase s"
  by (simp add: nocase_def)

lemma nocase_append [simp]: "nocase (s @ t) = nocase s @ nocase t"
  by (simp add: nocase_def)

lemma length_nocase [simp]: "length (nocase s) = length s"
  by (simp add: nocase_def)

lemma nocase_no_space: "\<not> list_ex is_space (map byte s) \<Longrightarrow> \<not> list_ex is_space (map byte (nocase s))"
proof -
  have "is_space (byte (lower_byte c)) = is_space (byte c)" for c
    by (auto simp: byte_lower_byte is_space_def)
  then show "\<not> list_ex is_space (map byte s) \<Longrightarrow> \<not> list_ex is_space (map byte (nocase s))"
    by (simp add: nocase_def list_ex_iff)
qed

lemma ToLower_ascii: "ascii s \<Longrightarrow> ToLower ul s = nocase s"
  by (simp add: ToLower_def nocase_def)

lemma ascii_nocase [simp]: "ascii (nocase s) = ascii s"
  by (auto simp: nocase_def ascii_iff byte_lower_byte)

lemma ToLower_idem_ascii: "ascii s \<Longrightarrow> ToLower ul (ToLower ul s) = ToLower ul s"
  by (simp add: ToLower_ascii)

lemma ToLower_Nil [simp]: "ToLower ul [] = []"
  by (simp add: ToLower_def)

lemma encode_rune_neq_Nil [simp]: "encode_rune r \<noteq> []"
  by (simp add: encode_rune_def)

lemma ToLower_eq_Nil [simp]: "ToLower ul s = [] \<longleftrightarrow> s = []"
  by (auto simp: ToLower_def runes.simps [of s])

section \<open>Searching and splitting\<close>

definition HasPrefix :: "string \<Rightarrow> string \<Rightarrow> bool" where
  "HasPrefix s p \<longleftrightarrow> take (length p) s = p"

definition HasSuffix :: "string \<Rightarrow> string \<Rightarrow> bool" where
  "HasSuffix s p \<longleftrightarrow> HasPrefix (rev s) (rev p)"

definition TrimPrefix :: "string \<Rightarrow> string \<Rightarrow> string" where
  "TrimPrefix s p = (if HasPrefix s p then drop (length p) s else s)"

text \<open>\<open>strings.Index\<close> and \<open>bytes.Index\<close>: the first occurrence, \<open>None\<close> for -1.\<close>

fun Index :: "string \<Rightarrow> string \<Rightarrow> nat option" where
  "Index [] sub = (if sub = [] then Some 0 else None)"
| "Index (c # s) sub = (if HasPrefix (c # s) sub then Some 0 else map_option Suc (Index s sub))"

definition Contains :: "string \<Rightarrow> string \<Rightarrow> bool" where
  "Contains s sub \<longleftrightarrow> Index s sub \<noteq> None"

fun IndexByte :: "string \<Rightarrow> char \<Rightarrow> nat option" where
  "IndexByte [] c = None"
| "IndexByte (d # s) c = (if d = c then Some 0 else map_option Suc (IndexByte s c))"

fun LastIndexByte :: "string \<Rightarrow> char \<Rightarrow> nat option" where
  "LastIndexByte [] c = None"
| "LastIndexByte (d # s) c =
     (case LastIndexByte s c of
        Some i \<Rightarrow> Some (Suc i)
      | None \<Rightarrow> if d = c then Some 0 else None)"

text \<open>\<open>strings.Split\<close> with a separator of one byte.\<close>

fun Split :: "string \<Rightarrow> char \<Rightarrow> string list" where
  "Split [] c = [[]]"
| "Split (d # s) c =
     (if d = c then [] # Split s c
      else case Split s c of [] \<Rightarrow> [[d]] | p # ps \<Rightarrow> (d # p) # ps)"

text \<open>\<open>strings.IndexFunc(s, unicode.IsSpace) >= 0\<close>.\<close>

definition contains_space :: "string \<Rightarrow> bool" where
  "contains_space s \<longleftrightarrow> list_ex is_space (runes s)"

lemma HasPrefix_iff: "HasPrefix s p \<longleftrightarrow> (\<exists>t. s = p @ t)"
  unfolding HasPrefix_def by (metis append_eq_conv_conj append_take_drop_id)

lemma HasSuffix_iff: "HasSuffix s p \<longleftrightarrow> (\<exists>t. s = t @ p)"
  unfolding HasSuffix_def HasPrefix_iff by (metis rev_append rev_rev_ident)

lemma Index_SomeD: "Index s sub = Some i \<Longrightarrow> i \<le> length s \<and> HasPrefix (drop i s) sub"
proof (induction s sub arbitrary: i rule: Index.induct)
  case (2 c s sub)
  then show ?case by (cases i) (auto split: if_splits)
qed (auto simp: HasPrefix_def split: if_splits)

lemma Index_first: "Index s sub = Some i \<Longrightarrow> j < i \<Longrightarrow> \<not> HasPrefix (drop j s) sub"
proof (induction s sub arbitrary: i j rule: Index.induct)
  case (2 c s sub)
  then show ?case by (cases j) (auto split: if_splits)
qed (auto split: if_splits)

lemma Contains_iff: "Contains s sub \<longleftrightarrow> (\<exists>p q. s = p @ sub @ q)"
proof (induction s)
  case Nil
  then show ?case by (auto simp: Contains_def)
next
  case (Cons c s)
  have "Contains (c # s) sub \<longleftrightarrow> HasPrefix (c # s) sub \<or> Contains s sub"
    by (auto simp: Contains_def)
  also have "\<dots> \<longleftrightarrow> (\<exists>p q. c # s = p @ sub @ q)"
    unfolding Cons.IH HasPrefix_iff by (metis append_Cons append_Nil neq_Nil_conv list.inject)
  finally show ?case .
qed

lemma Contains_Cons: "Contains (c # s) sub \<longleftrightarrow> HasPrefix (c # s) sub \<or> Contains s sub"
  by (auto simp: Contains_def)

lemma Contains_char: "Contains s [c] \<longleftrightarrow> c \<in> set s"
  by (auto simp: Contains_iff in_set_conv_decomp)

lemma Split_not_Nil [simp]: "Split s c \<noteq> []"
  by (induction s c rule: Split.induct) (auto split: list.splits)

lemma Split_no_sep: "c \<notin> set s \<Longrightarrow> Split s c = [s]"
  by (induction s c rule: Split.induct) auto

lemma Split_append: "c \<notin> set s \<Longrightarrow> Split (s @ c # t) c = s # Split t c"
  by (induction s) auto

lemma length_Split: "length (Split s c) = Suc (count_list s c)"
  by (induction s c rule: Split.induct) (auto split: list.splits)

lemma Split_two: "Split s c = [a, b] \<Longrightarrow> s = a @ c # b \<and> c \<notin> set a \<and> c \<notin> set b"
proof (induction s c arbitrary: a rule: Split.induct)
  case (2 d s c)
  have one: "Split t c = [x] \<Longrightarrow> t = x \<and> c \<notin> set x" for t x
  proof (induction t arbitrary: x)
    case (Cons e t)
    then show ?case by (auto split: if_splits list.splits)
  qed simp
  from 2 show ?case by (auto split: if_splits list.splits dest: one)
qed simp

section \<open>Numbers\<close>

definition digit_val :: "char \<Rightarrow> int option" where
  "digit_val c = (if 48 \<le> byte c \<and> byte c \<le> 57 then Some (int (byte c) - 48) else None)"

fun parse_digits :: "int \<Rightarrow> string \<Rightarrow> int option" where
  "parse_digits acc [] = Some acc"
| "parse_digits acc (c # s) =
     (case digit_val c of None \<Rightarrow> None | Some d \<Rightarrow> parse_digits (10 * acc + d) s)"

text \<open>
  \<open>strconv.Atoi\<close> and \<open>strconv.ParseInt(s, 10, 64)\<close>: an optional sign, then at least one
  digit, and a value in the range of \<open>int64\<close>; \<open>None\<close> stands for the error.
\<close>

definition ParseInt :: "string \<Rightarrow> int option" where
  "ParseInt s =
     (let (neg, ds) = (case s of
          [] \<Rightarrow> (False, [])
        | c # t \<Rightarrow> if c = CHR ''-'' then (True, t) else if c = CHR ''+'' then (False, t) else (False, s))
      in if ds = [] then None
         else case parse_digits 0 ds of
                None \<Rightarrow> None
              | Some v \<Rightarrow> let n = (if neg then - v else v)
                          in if min_int64 \<le> n \<and> n \<le> max_int64 then Some n else None)"

lemma ParseInt_range: "ParseInt s = Some n \<Longrightarrow> min_int64 \<le> n \<and> n \<le> max_int64"
  by (auto simp: ParseInt_def Let_def split: prod.splits option.splits if_splits)

text \<open>\<open>strconv.Itoa\<close>.\<close>

definition digit_char :: "nat \<Rightarrow> char" where
  "digit_char d = char_of (48 + d)"

fun nat_digits :: "nat \<Rightarrow> string" where
  "nat_digits n = (if n < 10 then [digit_char n] else nat_digits (n div 10) @ [digit_char (n mod 10)])"

declare nat_digits.simps [simp del]

definition Itoa :: "int \<Rightarrow> string" where
  "Itoa i = (if i < 0 then CHR ''-'' # nat_digits (nat (- i)) else nat_digits (nat i))"

lemma parse_digits_append:
  "parse_digits acc (s @ t) =
     (case parse_digits acc s of None \<Rightarrow> None | Some v \<Rightarrow> parse_digits v t)"
  by (induction acc s rule: parse_digits.induct) (auto split: option.split)

lemma digit_val_digit_char: "d < 10 \<Longrightarrow> digit_val (digit_char d) = Some (int d)"
  by (simp add: digit_val_def digit_char_def)

lemma parse_nat_digits: "parse_digits 0 (nat_digits n) = Some (int n)"
proof (induction n rule: nat_digits.induct)
  case (1 n)
  show ?case
  proof (cases "n < 10")
    case True
    then show ?thesis by (subst nat_digits.simps) (simp add: digit_val_digit_char)
  next
    case False
    with 1 have "parse_digits 0 (nat_digits (n div 10)) = Some (int (n div 10))" by simp
    with False show ?thesis
      by (subst nat_digits.simps) (simp add: parse_digits_append digit_val_digit_char zdiv_int zmod_int)
  qed
qed

lemma nat_digits_first: "\<exists>c t. nat_digits n = c # t \<and> 48 \<le> byte c \<and> byte c \<le> 57"
proof (induction n rule: nat_digits.induct)
  case (1 n)
  then show ?case by (cases "n < 10") (auto simp: nat_digits.simps [of n] digit_char_def)
qed

lemma nat_digits_bytes: "c \<in> set (nat_digits n) \<Longrightarrow> 48 \<le> byte c \<and> byte c \<le> 57"
proof (induction n rule: nat_digits.induct)
  case (1 n)
  then show ?case by (cases "n < 10") (auto simp: nat_digits.simps [of n] digit_char_def byte_def)
qed

lemma TrimSpace_Itoa:
  assumes "0 \<le> i"
  shows "TrimSpace (Itoa i) = Itoa i"
proof (rule TrimSpace_no_space_ascii)
  show "ascii (Itoa i)" using assms by (auto simp: Itoa_def ascii_iff dest!: nat_digits_bytes)
  show "\<not> list_ex is_space (map byte (Itoa i))"
    using assms by (auto simp: Itoa_def list_ex_iff is_space_def dest!: nat_digits_bytes)
qed

lemma Itoa_not_empty: "Itoa i \<noteq> []"
  using nat_digits_first [of "nat i"] by (auto simp: Itoa_def)

text \<open>Printing and parsing an \<open>int64\<close> is the identity.\<close>

lemma ParseInt_Itoa:
  assumes "min_int64 \<le> i" "i \<le> max_int64"
  shows "ParseInt (Itoa i) = Some i"
proof (cases "i < 0")
  case True
  with assms show ?thesis
    using nat_digits_first [of "nat (- i)"] by (auto simp: Itoa_def ParseInt_def parse_nat_digits)
next
  case False
  obtain c t where ct: "nat_digits (nat i) = c # t" "48 \<le> byte c"
    using nat_digits_first by blast
  then have "c \<noteq> CHR ''-''" "c \<noteq> CHR ''+''" by (auto simp: byte_def)
  with False assms ct show ?thesis
    using parse_nat_digits [of "nat i"] by (simp add: Itoa_def ParseInt_def)
qed

text \<open>\<open>strconv.FormatBool\<close> and \<open>strconv.ParseBool\<close>.\<close>

definition FormatBool :: "bool \<Rightarrow> string" where
  "FormatBool b = (if b then ''true'' else ''false'')"

definition ParseBool :: "string \<Rightarrow> bool option" where
  "ParseBool s =
     (if s \<in> set [''1'', ''t'', ''T'', ''true'', ''TRUE'', ''True''] then Some True
      else if s \<in> set [''0'', ''f'', ''F'', ''false'', ''FALSE'', ''False''] then Some False
      else None)"

section \<open>Host and port\<close>

text \<open>\<open>net.SplitHostPort\<close>: \<open>None\<close> for each of its errors.\<close>

definition SplitHostPort :: "string \<Rightarrow> (string \<times> string) option" where
  "SplitHostPort hp =
     (case LastIndexByte hp CHR '':'' of
        None \<Rightarrow> None
      | Some i \<Rightarrow>
          (let port = drop (Suc i) hp in
           if take 1 hp = ''['' then
             (case IndexByte hp CHR '']'' of
                None \<Rightarrow> None
              | Some e \<Rightarrow>
                  if Suc e = length hp \<or> Suc e \<noteq> i then None
                  else if IndexByte (drop 1 hp) CHR ''['' \<noteq> None \<or> IndexByte (drop (Suc e) hp) CHR '']'' \<noteq> None
                  then None else Some (drop 1 (take e hp), port))
           else
             (let host = take i hp in
              if IndexByte host CHR '':'' \<noteq> None then None
              else if IndexByte hp CHR ''['' \<noteq> None \<or> IndexByte hp CHR '']'' \<noteq> None then None
              else Some (host, port))))"

lemma IndexByte_None: "IndexByte s c = None \<longleftrightarrow> c \<notin> set s"
  by (induction s c rule: IndexByte.induct) auto

lemma LastIndexByte_None: "LastIndexByte s c = None \<longleftrightarrow> c \<notin> set s"
  by (induction s c rule: LastIndexByte.induct) (auto split: option.splits)

lemma LastIndexByte_append: "c \<notin> set t \<Longrightarrow> LastIndexByte (s @ c # t) c = Some (length s)"
proof (induction s)
  case Nil
  then show ?case by (simp add: LastIndexByte_None [symmetric])
qed simp

text \<open>The usual address \<open>host:port\<close> comes apart into its two halves.\<close>

lemma SplitHostPort_plain:
  assumes "set h \<inter> {CHR '':'', CHR ''['', CHR '']''} = {}" "set p \<inter> {CHR '':'', CHR ''['', CHR '']''} = {}"
  shows "SplitHostPort (h @ CHR '':'' # p) = Some (h, p)"
proof -
  have "take 1 (h @ CHR '':'' # p) \<noteq> ''[''"
    using assms by (cases h) auto
  with assms show ?thesis
    unfolding SplitHostPort_def by (auto simp: LastIndexByte_append IndexByte_None Let_def)
qed

section \<open>Case folding\<close>

text \<open>
  \<open>strings.EqualFold\<close> compares code points; two of them match when they are equal, when
  they are the two cases of an ASCII letter, or when one is not ASCII and the Unicode
  table (the parameter \<open>uf\<close>) puts them in one folding orbit.
\<close>

definition fold_rune :: "(nat \<Rightarrow> nat \<Rightarrow> bool) \<Rightarrow> nat \<Rightarrow> nat \<Rightarrow> bool" where
  "fold_rune uf a b \<longleftrightarrow>
     a = b \<or>
     (if a < 128 \<and> b < 128 then 65 \<le> min a b \<and> min a b \<le> 90 \<and> max a b = min a b + 32
      else uf (min a b) (max a b))"

definition EqualFold :: "(nat \<Rightarrow> nat \<Rightarrow> bool) \<Rightarrow> string \<Rightarrow> string \<Rightarrow> bool" where
  "EqualFold uf s t \<longleftrightarrow> list_all2 (fold_rune uf) (runes s) (runes t)"

lemma EqualFold_refl [simp]: "EqualFold uf s s"
  by (simp add: EqualFold_def fold_rune_def list.rel_refl)

lemma fold_rune_ascii:
  "byte c < 128 \<Longrightarrow> byte d < 128 \<Longrightarrow> fold_rune uf (byte c) (byte d) \<longleftrightarrow> lower_byte c = lower_byte d"
proof -
  assume a: "byte c < 128" "byte d < 128"
  have "lower_byte c = lower_byte d \<longleftrightarrow> byte (lower_byte c) = byte (lower_byte d)"
    by (metis char_of_byte)
  with a show ?thesis by (auto simp: fold_rune_def byte_lower_byte min_def max_def)
qed

lemma EqualFold_ascii:
  assumes "ascii s" "ascii t"
  shows "EqualFold uf s t \<longleftrightarrow> nocase s = nocase t"
proof -
  have "list_all2 (fold_rune uf) (map byte s) (map byte t) \<longleftrightarrow> nocase s = nocase t"
    using assms
  proof (induction s arbitrary: t)
    case Nil
    then show ?case by (auto simp: nocase_def)
  next
    case (Cons c s)
    then show ?case by (cases t) (auto simp: nocase_def fold_rune_ascii)
  qed
  with assms show ?thesis by (simp add: EqualFold_def runes_ascii)
qed

end
