(* ===== verification/Domain_Util.thy ===== *)
theory Domain_Util
  imports Go_Strings
begin

text \<open>
  \<open>internal/domainutil\<close>: the validation and normalisation of a mail domain that the
  configuration and the admin pages share. An error is its text.
\<close>

definition Validate :: "(nat \<Rightarrow> nat) \<Rightarrow> string \<Rightarrow> string result" where
  "Validate ul raw =
     (let domain = ToLower ul (TrimSpace raw) in
      if domain = [] then Inl (ErrText ''domain is required'')
      else if Contains domain ''@'' then Inl (ErrText ''domain must not contain @'')
      else if contains_space domain then Inl (ErrText ''domain must not contain whitespace'')
      else if HasPrefix domain ''.'' \<or> HasSuffix domain ''.'' \<or> Contains domain ''..''
      then Inl (ErrText (''domain must not start or end with '' @ [CHR 0x27] @ ''.'' @ [CHR 0x27] @
             '' or contain consecutive dots''))
      else Inr domain)"

text \<open>A normalised domain: what the validation promises of every name it lets through.\<close>

definition normal_domain :: "string \<Rightarrow> bool" where
  "normal_domain d \<longleftrightarrow>
     CHR ''@'' \<notin> set d \<and> \<not> contains_space d \<and> [] \<notin> set (Split d CHR ''.'')"

lemma HasPrefix_Cons1: "HasPrefix (d # s) [c] \<longleftrightarrow> d = c"
  by (auto simp: HasPrefix_def)

lemma HasSuffix_Cons1: "HasSuffix (d # s) [c] \<longleftrightarrow> (if s = [] then d = c else HasSuffix s [c])"
  by (auto simp: HasSuffix_iff Cons_eq_append_conv)

lemma HasPrefix_Cons2: "HasPrefix (d # s) [c, c] \<longleftrightarrow> d = c \<and> HasPrefix s [c]"
  by (auto simp: HasPrefix_def)

text \<open>An empty label shows as a dot at an end or as two dots in a row.\<close>

lemma Split_hd_empty: "hd (Split s c) = [] \<longleftrightarrow> s = [] \<or> HasPrefix s [c]"
  by (cases s) (auto simp: HasPrefix_Cons1 split: list.splits)

lemma Split_tl_empty: "[] \<in> set (tl (Split s c)) \<longleftrightarrow> HasSuffix s [c] \<or> Contains s [c, c]"
proof (induction s)
  case Nil
  then show ?case by (simp add: HasSuffix_iff Contains_def)
next
  case (Cons d s)
  obtain p ps where ps: "Split s c = p # ps" by (cases "Split s c") auto
  then have "p = [] \<longleftrightarrow> s = [] \<or> HasPrefix s [c]" using Split_hd_empty [of s c] by simp
  with Cons.IH ps show ?case
    by (cases s) (auto simp: HasSuffix_Cons1 HasPrefix_Cons2 Contains_Cons Contains_def [of "[]"])
qed

lemma Split_empty_label:
  "[] \<in> set (Split s c) \<longleftrightarrow> s = [] \<or> HasPrefix s [c] \<or> HasSuffix s [c] \<or> Contains s [c, c]"
  using Split_hd_empty [of s c] Split_tl_empty [of s c] by (cases "Split s c") auto

text \<open>The validation succeeds on exactly the strings whose normal form is a normal domain.\<close>

lemma Validate_iff:
  "Validate ul raw = Inr d \<longleftrightarrow> d = ToLower ul (TrimSpace raw) \<and> normal_domain d"
  by (auto simp: Validate_def normal_domain_def Let_def Contains_char Split_empty_label)

lemma Validate_errors:
  "(\<exists>d. Validate ul raw = Inr d) \<or> (\<exists>m. Validate ul raw = Inl (ErrText m))"
  by (simp add: Validate_def Let_def)

lemma normal_domain_neq_Nil: "normal_domain d \<Longrightarrow> d \<noteq> []"
  by (auto simp: normal_domain_def)

lemma Validate_ascii_fixpoint:
  assumes "ascii raw" "Validate ul raw = Inr d"
  shows "Validate ul d = Inr d \<and> TrimSpace d = d \<and> nocase d = d"
proof -
  from assms have d: "d = nocase (TrimSpace raw)" and n: "normal_domain d"
    by (auto simp: Validate_iff ToLower_ascii ascii_TrimSpace)
  from d assms(1) have a: "ascii d" by (simp add: ascii_TrimSpace)
  with n have t: "TrimSpace d = d"
    by (intro TrimSpace_no_space_ascii) (simp_all add: normal_domain_def contains_space_def runes_ascii)
  moreover from d have "nocase d = d" by simp
  ultimately show ?thesis using a n by (simp add: Validate_iff ToLower_ascii)
qed

text \<open>
  The validation accepts exactly the inputs whose trimmed lower-case form has no \<open>@\<close>, no
  white space and only non-empty labels between its dots, and returns that form.
\<close>
lemma valid_domains_have_labels:
  "Validate ul raw = Inr d \<longleftrightarrow> d = ToLower ul (TrimSpace raw)
     \<and> CHR ''@'' \<notin> set d \<and> \<not> contains_space d \<and> [] \<notin> set (Split d CHR ''.'')"
  by (simp add: Validate_iff normal_domain_def)

end
