(* ===== verification/Config.thy ===== *)
theory Config
  imports Domain_Util
begin

text \<open>
  \<open>internal/config\<close>: reading the environment at startup. The environment is a map from
  names to values. A loader returns a value or an error; \<open>Load\<close> collects the errors of
  all of them. Durations and sizes are computed in 64 bits, as \<open>time.Duration\<close> and \<open>int64\<close>
  arithmetic does, so an overlarge setting wraps here as it does in the program.
\<close>

type_synonym env = "string \<rightharpoonup> string"

record Config =
  cfg_Domain :: string
  cfg_SMTPHostname :: string
  cfg_SMTPListenAddr :: string
  cfg_HTTPListenAddr :: string
  cfg_DatabasePath :: string
  cfg_MigrationsDir :: string
  cfg_InboxTTL :: int
  cfg_MaxEmailSize :: int
  cfg_MaxAttachmentSize :: int
  cfg_CleanupInterval :: int
  cfg_CookieSecure :: bool
  cfg_SessionTTL :: int
  cfg_BcryptCost :: int
  cfg_AdminUsername :: string
  cfg_InboxCreateLimitPerHour :: int
  cfg_SMTPConnectionLimitPerMin :: int
  cfg_LogLevel :: string

definition defaultSMTPHostname :: string where "defaultSMTPHostname = ''localhost''"
definition defaultSMTPListenAddr :: string where "defaultSMTPListenAddr = '':25''"
definition defaultHTTPListenAddr :: string where "defaultHTTPListenAddr = '':8080''"
definition defaultDatabasePath :: string where "defaultDatabasePath = ''./data/mail.db''"
definition defaultMigrationsDir :: string where "defaultMigrationsDir = ''./migrations''"
definition defaultInboxTTLDays :: int where "defaultInboxTTLDays = 60"
definition defaultMaxEmailSizeMB :: int where "defaultMaxEmailSizeMB = 10"
definition defaultMaxAttachSizeMB :: int where "defaultMaxAttachSizeMB = 5"
definition defaultCleanupMins :: int where "defaultCleanupMins = 15"
definition defaultCookieSecure :: bool where "defaultCookieSecure = False"
definition defaultSessionTTLDays :: int where "defaultSessionTTLDays = 7"
definition defaultInboxCreateLimitPerHour :: int where "defaultInboxCreateLimitPerHour = 2"
definition defaultSMTPConnectionLimitPerMin :: int where "defaultSMTPConnectionLimitPerMin = 30"
definition defaultLogLevel :: string where "defaultLogLevel = ''info''"

lemmas default_defs = defaultSMTPHostname_def defaultSMTPListenAddr_def defaultHTTPListenAddr_def
  defaultDatabasePath_def defaultMigrationsDir_def defaultInboxTTLDays_def defaultMaxEmailSizeMB_def
  defaultMaxAttachSizeMB_def defaultCleanupMins_def defaultCookieSecure_def defaultSessionTTLDays_def
  defaultInboxCreateLimitPerHour_def defaultSMTPConnectionLimitPerMin_def defaultLogLevel_def

text \<open>The cost range of the bcrypt package: \<open>MinCost\<close>, \<open>MaxCost\<close>, \<open>DefaultCost\<close>.\<close>

definition bcrypt_MinCost :: int where "bcrypt_MinCost = 4"
definition bcrypt_MaxCost :: int where "bcrypt_MaxCost = 31"
definition bcrypt_DefaultCost :: int where "bcrypt_DefaultCost = 10"

definition allowedLogLevels :: "string list" where
  "allowedLogLevels = [''debug'', ''info'', ''warn'', ''error'']"

section \<open>The loaders\<close>

definition Getenv :: "env \<Rightarrow> string \<Rightarrow> string" where
  "Getenv env key = (case env key of None \<Rightarrow> [] | Some v \<Rightarrow> v)"

definition loadTrimmedString :: "env \<Rightarrow> string \<Rightarrow> string \<Rightarrow> bool \<Rightarrow> string \<times> bool" where
  "loadTrimmedString env key fallback allowBlankAsDefault =
     (case env key of
        None \<Rightarrow> (fallback, True)
      | Some v \<Rightarrow>
          (let trimmed = TrimSpace v in
           if trimmed = [] then (if allowBlankAsDefault then (fallback, True) else ([], False))
           else (trimmed, False)))"

definition loadDomain :: "(nat \<Rightarrow> nat) \<Rightarrow> env \<Rightarrow> string result" where
  "loadDomain ul env =
     (let raw = TrimSpace (Getenv env ''DOMAIN'') in
      if raw = [] then Inr []
      else case Validate ul raw of
             Inl e \<Rightarrow> Inl (ErrText (''DOMAIN'' @ TrimPrefix (error_text e) ''domain''))
           | Inr domain \<Rightarrow> Inr domain)"

definition resolveSMTPHostname :: "(nat \<Rightarrow> nat) \<Rightarrow> env \<Rightarrow> string \<Rightarrow> string" where
  "resolveSMTPHostname ul env domain =
     (let v = TrimSpace (Getenv env ''SMTP_HOSTNAME'') in
      if v \<noteq> [] then ToLower ul v
      else if domain \<noteq> [] then domain
      else defaultSMTPHostname)"

definition loadListenAddr :: "env \<Rightarrow> string \<Rightarrow> string \<Rightarrow> string result" where
  "loadListenAddr env key fallback =
     (let v = fst (loadTrimmedString env key fallback True) in
      case SplitHostPort v of
        None \<Rightarrow> Inl (ErrText (key @ '' must be a valid host:port address''))
      | Some (_, port) \<Rightarrow>
          if TrimSpace port = [] then Inl (ErrText (key @ '' must be a valid host:port address'')) else Inr v)"

definition loadDatabasePath :: "env \<Rightarrow> string result" where
  "loadDatabasePath env =
     (let (v, usedDefault) = loadTrimmedString env ''DATABASE_PATH'' defaultDatabasePath False in
      if \<not> usedDefault \<and> v = [] then Inl (ErrText ''DATABASE_PATH must not be blank'') else Inr v)"

definition loadMigrationsDir :: "env \<Rightarrow> string result" where
  "loadMigrationsDir env =
     (let (v, usedDefault) = loadTrimmedString env ''MIGRATIONS_DIR'' defaultMigrationsDir False in
      if \<not> usedDefault \<and> v = [] then Inl (ErrText ''MIGRATIONS_DIR must not be blank'') else Inr v)"

definition loadLogLevel :: "(nat \<Rightarrow> nat) \<Rightarrow> env \<Rightarrow> string result" where
  "loadLogLevel ul env =
     (let v = ToLower ul (fst (loadTrimmedString env ''LOG_LEVEL'' defaultLogLevel True)) in
      if v \<notin> set allowedLogLevels then Inl (ErrText ''LOG_LEVEL must be one of: debug, info, warn, error'')
      else Inr v)"

definition loadBcryptCost :: "env \<Rightarrow> int result" where
  "loadBcryptCost env =
     (let (v, usedDefault) = loadTrimmedString env ''BCRYPT_COST'' (Itoa bcrypt_DefaultCost) True;
          bad = Inl (ErrText (''BCRYPT_COST must be an integer between '' @ Itoa bcrypt_MinCost @ '' and '' @
                Itoa bcrypt_MaxCost))
      in if \<not> usedDefault \<and> v = [] then bad
         else case ParseInt v of
                None \<Rightarrow> bad
              | Some n \<Rightarrow> if n < bcrypt_MinCost \<or> bcrypt_MaxCost < n then bad else Inr n)"

definition loadPositiveInt :: "env \<Rightarrow> string \<Rightarrow> int \<Rightarrow> int result" where
  "loadPositiveInt env key fallback =
     (let (v, usedDefault) = loadTrimmedString env key (Itoa fallback) True;
          bad = Inl (ErrText (key @ '' must be a positive integer''))
      in if \<not> usedDefault \<and> v = [] then bad
         else case ParseInt v of
                None \<Rightarrow> bad
              | Some n \<Rightarrow> if n \<le> 0 then bad else Inr n)"

definition loadNonNegativeInt :: "env \<Rightarrow> string \<Rightarrow> int \<Rightarrow> int result" where
  "loadNonNegativeInt env key fallback =
     (let (v, usedDefault) = loadTrimmedString env key (Itoa fallback) True;
          bad = Inl (ErrText (key @ '' must be a non-negative integer''))
      in if \<not> usedDefault \<and> v = [] then bad
         else case ParseInt v of
                None \<Rightarrow> bad
              | Some n \<Rightarrow> if n < 0 then bad else Inr n)"

definition loadBool :: "(nat \<Rightarrow> nat) \<Rightarrow> env \<Rightarrow> string \<Rightarrow> bool \<Rightarrow> bool result" where
  "loadBool ul env key fallback =
     (let (v, usedDefault) = loadTrimmedString env key (FormatBool fallback) True;
          bad = Inl (ErrText (key @ '' must be a boolean''))
      in if \<not> usedDefault \<and> v = [] then bad
         else case ParseBool (ToLower ul v) of None \<Rightarrow> bad | Some b \<Rightarrow> Inr b)"

fun collectErrors :: "go_err option list \<Rightarrow> go_err list" where
  "collectErrors [] = []"
| "collectErrors (None # es) = collectErrors es"
| "collectErrors (Some e # es) = e # collectErrors es"

definition days :: "int \<Rightarrow> int" where
  "days n = wrap64 (wrap64 (n * 24) * time_Hour)"

definition minutes :: "int \<Rightarrow> int" where
  "minutes n = wrap64 (n * time_Minute)"

definition mebibytes :: "int \<Rightarrow> int" where
  "mebibytes n = wrap64 (wrap64 (n * 1024) * 1024)"

definition Load :: "(nat \<Rightarrow> nat) \<Rightarrow> env \<Rightarrow> go_err list + Config" where
  "Load ul env =
     (let domain = loadDomain ul env;
          smtpListenAddr = loadListenAddr env ''SMTP_LISTEN_ADDR'' defaultSMTPListenAddr;
          httpListenAddr = loadListenAddr env ''HTTP_LISTEN_ADDR'' defaultHTTPListenAddr;
          databasePath = loadDatabasePath env;
          migrationsDir = loadMigrationsDir env;
          inboxTTLDays = loadNonNegativeInt env ''INBOX_TTL_DAYS'' defaultInboxTTLDays;
          maxEmailSizeMB = loadPositiveInt env ''MAX_EMAIL_SIZE_MB'' defaultMaxEmailSizeMB;
          maxAttachmentSizeMB = loadPositiveInt env ''MAX_ATTACHMENT_MB'' defaultMaxAttachSizeMB;
          cleanupIntervalMins = loadPositiveInt env ''CLEANUP_INTERVAL_MIN'' defaultCleanupMins;
          cookieSecure = loadBool ul env ''COOKIE_SECURE'' defaultCookieSecure;
          sessionTTLDays = loadPositiveInt env ''SESSION_TTL_DAYS'' defaultSessionTTLDays;
          bcryptCost = loadBcryptCost env;
          adminUsername = fst (loadTrimmedString env ''ADMIN_USERNAME'' [] False);
          inboxCreateLimitPerHour = loadNonNegativeInt env ''INBOX_CREATE_LIMIT_PER_HOUR'' defaultInboxCreateLimitPerHour;
          smtpConnectionLimitPerMin = loadPositiveInt env ''SMTP_CONNECTION_LIMIT_PER_MIN'' defaultSMTPConnectionLimitPerMin;
          logLevel = loadLogLevel ul env;
          errs = collectErrors
            [err_of domain, err_of smtpListenAddr, err_of httpListenAddr, err_of databasePath,
             err_of migrationsDir, err_of inboxTTLDays, err_of maxEmailSizeMB, err_of maxAttachmentSizeMB,
             err_of cleanupIntervalMins, err_of cookieSecure, err_of sessionTTLDays, err_of bcryptCost,
             err_of inboxCreateLimitPerHour, err_of smtpConnectionLimitPerMin, err_of logLevel];
          errs' = errs @
            (if err_of maxEmailSizeMB = None \<and> err_of maxAttachmentSizeMB = None \<and>
                value_or 0 maxEmailSizeMB < value_or 0 maxAttachmentSizeMB
             then [ErrText ''MAX_ATTACHMENT_MB cannot exceed MAX_EMAIL_SIZE_MB''] else [])
      in if errs' \<noteq> [] then Inl errs'
         else Inr \<lparr>
           cfg_Domain = value_or [] domain,
           cfg_SMTPHostname = resolveSMTPHostname ul env (value_or [] domain),
           cfg_SMTPListenAddr = value_or [] smtpListenAddr,
           cfg_HTTPListenAddr = value_or [] httpListenAddr,
           cfg_DatabasePath = value_or [] databasePath,
           cfg_MigrationsDir = value_or [] migrationsDir,
           cfg_InboxTTL = days (value_or 0 inboxTTLDays),
           cfg_MaxEmailSize = mebibytes (value_or 0 maxEmailSizeMB),
           cfg_MaxAttachmentSize = mebibytes (value_or 0 maxAttachmentSizeMB),
           cfg_CleanupInterval = minutes (value_or 0 cleanupIntervalMins),
           cfg_CookieSecure = value_or False cookieSecure,
           cfg_SessionTTL = days (value_or 0 sessionTTLDays),
           cfg_BcryptCost = value_or 0 bcryptCost,
           cfg_AdminUsername = adminUsername,
           cfg_InboxCreateLimitPerHour = value_or 0 inboxCreateLimitPerHour,
           cfg_SMTPConnectionLimitPerMin = value_or 0 smtpConnectionLimitPerMin,
           cfg_LogLevel = value_or [] logLevel\<rparr>)"

section \<open>Log levels\<close>

datatype slog_Level = LevelDebug | LevelInfo | LevelWarn | LevelError

definition LogLevel :: "(nat \<Rightarrow> nat) \<Rightarrow> string \<Rightarrow> slog_Level" where
  "LogLevel ul level =
     (let l = ToLower ul (TrimSpace level) in
      if l = ''debug'' then LevelDebug
      else if l = ''warn'' then LevelWarn
      else if l = ''error'' then LevelError
      else LevelInfo)"

text \<open>The levels of \<open>log/slog\<close> are the integers -4, 0, 4 and 8.\<close>

primrec level_int :: "slog_Level \<Rightarrow> int" where
  "level_int LevelDebug = -4"
| "level_int LevelInfo = 0"
| "level_int LevelWarn = 4"
| "level_int LevelError = 8"

instantiation slog_Level :: linorder
begin

definition less_eq_slog_Level :: "slog_Level \<Rightarrow> slog_Level \<Rightarrow> bool" where
  "less_eq_slog_Level a b \<longleftrightarrow> level_int a \<le> level_int b"

definition less_slog_Level :: "slog_Level \<Rightarrow> slog_Level \<Rightarrow> bool" where
  "less_slog_Level a b \<longleftrightarrow> level_int a < level_int b"

instance
proof
  fix x y z :: slog_Level
  show "x < y \<longleftrightarrow> x \<le> y \<and> \<not> y \<le> x" by (auto simp: less_eq_slog_Level_def less_slog_Level_def)
  show "x \<le> x" by (simp add: less_eq_slog_Level_def)
  show "x \<le> y \<Longrightarrow> y \<le> z \<Longrightarrow> x \<le> z" by (simp add: less_eq_slog_Level_def)
  show "x \<le> y \<Longrightarrow> y \<le> x \<Longrightarrow> x = y"
    by (cases x; cases y) (simp_all add: less_eq_slog_Level_def)
  show "x \<le> y \<or> y \<le> x" by (auto simp: less_eq_slog_Level_def)
qed

end

section \<open>What the loaders return\<close>

lemma collectErrors_Nil: "collectErrors es = [] \<longleftrightarrow> (\<forall>e \<in> set es. e = None)"
  by (induction es rule: collectErrors.induct) auto

lemma set_collectErrors: "e \<in> set (collectErrors es) \<longleftrightarrow> Some e \<in> set es"
  by (induction es rule: collectErrors.induct) auto

lemma loadTrimmedString_unset: "env key = None \<Longrightarrow> loadTrimmedString env key fb b = (fb, True)"
  by (simp add: loadTrimmedString_def)

text \<open>An unset variable takes its default, and every default is valid.\<close>

lemma loadPositiveInt_unset:
  "env key = None \<Longrightarrow> 0 < fb \<Longrightarrow> fb \<le> max_int64 \<Longrightarrow> loadPositiveInt env key fb = Inr fb"
  by (simp add: loadPositiveInt_def loadTrimmedString_unset ParseInt_Itoa)

lemma loadNonNegativeInt_unset:
  "env key = None \<Longrightarrow> 0 \<le> fb \<Longrightarrow> fb \<le> max_int64 \<Longrightarrow> loadNonNegativeInt env key fb = Inr fb"
  by (simp add: loadNonNegativeInt_def loadTrimmedString_unset ParseInt_Itoa)

lemma loadBcryptCost_unset: "env ''BCRYPT_COST'' = None \<Longrightarrow> loadBcryptCost env = Inr bcrypt_DefaultCost"
  by (simp add: loadBcryptCost_def loadTrimmedString_unset ParseInt_Itoa bcrypt_DefaultCost_def
      bcrypt_MinCost_def bcrypt_MaxCost_def)

lemma loadBool_unset: "env key = None \<Longrightarrow> loadBool ul env key fb = Inr fb"
  by (auto simp: loadBool_def loadTrimmedString_unset FormatBool_def ParseBool_def ToLower_ascii nocase_def
      lower_byte_def byte_def)

lemma loadDomain_unset: "env ''DOMAIN'' = None \<Longrightarrow> loadDomain ul env = Inr []"
  by (simp add: loadDomain_def Getenv_def)

lemma loadLogLevel_unset: "env ''LOG_LEVEL'' = None \<Longrightarrow> loadLogLevel ul env = Inr defaultLogLevel"
  by (simp add: loadLogLevel_def loadTrimmedString_unset defaultLogLevel_def allowedLogLevels_def
      ToLower_ascii nocase_def lower_byte_def byte_def)

lemma TrimSpace_port: "TrimSpace ''25'' = ''25''" "TrimSpace ''8080'' = ''8080''"
  by (rule TrimSpace_no_space_ascii; simp add: byte_def is_space_def)+

lemma loadListenAddr_unset_smtp:
  "env key = None \<Longrightarrow> loadListenAddr env key defaultSMTPListenAddr = Inr defaultSMTPListenAddr"
  by (simp add: loadListenAddr_def loadTrimmedString_unset defaultSMTPListenAddr_def SplitHostPort_def TrimSpace_port)

lemma loadListenAddr_unset_http:
  "env key = None \<Longrightarrow> loadListenAddr env key defaultHTTPListenAddr = Inr defaultHTTPListenAddr"
  by (simp add: loadListenAddr_def loadTrimmedString_unset defaultHTTPListenAddr_def SplitHostPort_def TrimSpace_port)

lemma loadDatabasePath_unset: "env ''DATABASE_PATH'' = None \<Longrightarrow> loadDatabasePath env = Inr defaultDatabasePath"
  by (simp add: loadDatabasePath_def loadTrimmedString_unset)

lemma loadMigrationsDir_unset: "env ''MIGRATIONS_DIR'' = None \<Longrightarrow> loadMigrationsDir env = Inr defaultMigrationsDir"
  by (simp add: loadMigrationsDir_def loadTrimmedString_unset)

lemmas unset_simps = loadPositiveInt_unset loadNonNegativeInt_unset loadBcryptCost_unset loadBool_unset
  loadDomain_unset loadLogLevel_unset loadListenAddr_unset_smtp loadListenAddr_unset_http
  loadDatabasePath_unset loadMigrationsDir_unset

lemma loadDomain_normal: "loadDomain ul env = Inr d \<Longrightarrow> d = [] \<or> normal_domain d"
  by (auto simp: loadDomain_def Let_def Validate_iff split: if_splits sum.splits)

lemma loadLogLevel_allowed: "loadLogLevel ul env = Inr l \<Longrightarrow> l \<in> set allowedLogLevels"
  by (auto simp: loadLogLevel_def Let_def split: if_splits)

lemma loadListenAddr_port:
  "loadListenAddr env key fb = Inr a \<Longrightarrow> \<exists>h p. SplitHostPort a = Some (h, p) \<and> TrimSpace p \<noteq> []"
  by (auto simp: loadListenAddr_def Let_def split: option.splits if_splits)

lemma loadDatabasePath_nonblank: "loadDatabasePath env = Inr p \<Longrightarrow> p \<noteq> []"
  by (auto simp: loadDatabasePath_def loadTrimmedString_def defaultDatabasePath_def Let_def
      split: option.splits if_splits)

lemma loadMigrationsDir_nonblank: "loadMigrationsDir env = Inr p \<Longrightarrow> p \<noteq> []"
  by (auto simp: loadMigrationsDir_def loadTrimmedString_def defaultMigrationsDir_def Let_def
      split: option.splits if_splits)

lemma resolveSMTPHostname_neq_Nil: "resolveSMTPHostname ul env d \<noteq> []"
  by (auto simp: resolveSMTPHostname_def defaultSMTPHostname_def Let_def)

section \<open>Load\<close>

lemma Load_facts:
  assumes "Load ul env = Inr c"
  shows "(loadDomain ul env = Inr (cfg_Domain c)) \<and>
    (cfg_SMTPHostname c = resolveSMTPHostname ul env (cfg_Domain c)) \<and>
    (loadListenAddr env ''SMTP_LISTEN_ADDR'' defaultSMTPListenAddr = Inr (cfg_SMTPListenAddr c)) \<and>
    (loadListenAddr env ''HTTP_LISTEN_ADDR'' defaultHTTPListenAddr = Inr (cfg_HTTPListenAddr c)) \<and>
    (loadDatabasePath env = Inr (cfg_DatabasePath c)) \<and>
    (loadMigrationsDir env = Inr (cfg_MigrationsDir c)) \<and>
    (\<exists>n. loadNonNegativeInt env ''INBOX_TTL_DAYS'' defaultInboxTTLDays = Inr n \<and> cfg_InboxTTL c = days n) \<and>
    (\<exists>m a. loadPositiveInt env ''MAX_EMAIL_SIZE_MB'' defaultMaxEmailSizeMB = Inr m \<and>
           loadPositiveInt env ''MAX_ATTACHMENT_MB'' defaultMaxAttachSizeMB = Inr a \<and> a \<le> m \<and>
           cfg_MaxEmailSize c = mebibytes m \<and> cfg_MaxAttachmentSize c = mebibytes a) \<and>
    (\<exists>n. loadPositiveInt env ''CLEANUP_INTERVAL_MIN'' defaultCleanupMins = Inr n \<and> cfg_CleanupInterval c = minutes n) \<and>
    (\<exists>n. loadPositiveInt env ''SESSION_TTL_DAYS'' defaultSessionTTLDays = Inr n \<and> cfg_SessionTTL c = days n) \<and>
    (loadBcryptCost env = Inr (cfg_BcryptCost c)) \<and>
    (loadNonNegativeInt env ''INBOX_CREATE_LIMIT_PER_HOUR'' defaultInboxCreateLimitPerHour = Inr (cfg_InboxCreateLimitPerHour c)) \<and>
    (loadPositiveInt env ''SMTP_CONNECTION_LIMIT_PER_MIN'' defaultSMTPConnectionLimitPerMin = Inr (cfg_SMTPConnectionLimitPerMin c)) \<and>
    (loadLogLevel ul env = Inr (cfg_LogLevel c)) \<and>
    (loadBool ul env ''COOKIE_SECURE'' defaultCookieSecure = Inr (cfg_CookieSecure c))"
  using assms
  by (simp add: Load_def Let_def collectErrors_Nil err_of_None split: if_split_asm) auto

lemma LoadD:
  assumes "Load ul env = Inr c"
  shows "loadDomain ul env = Inr (cfg_Domain c)"
    and "cfg_SMTPHostname c = resolveSMTPHostname ul env (cfg_Domain c)"
    and "loadListenAddr env ''SMTP_LISTEN_ADDR'' defaultSMTPListenAddr = Inr (cfg_SMTPListenAddr c)"
    and "loadListenAddr env ''HTTP_LISTEN_ADDR'' defaultHTTPListenAddr = Inr (cfg_HTTPListenAddr c)"
    and "loadDatabasePath env = Inr (cfg_DatabasePath c)"
    and "loadMigrationsDir env = Inr (cfg_MigrationsDir c)"
    and "\<exists>n. loadNonNegativeInt env ''INBOX_TTL_DAYS'' defaultInboxTTLDays = Inr n \<and> cfg_InboxTTL c = days n"
    and "\<exists>m a. loadPositiveInt env ''MAX_EMAIL_SIZE_MB'' defaultMaxEmailSizeMB = Inr m \<and>
           loadPositiveInt env ''MAX_ATTACHMENT_MB'' defaultMaxAttachSizeMB = Inr a \<and> a \<le> m \<and>
           cfg_MaxEmailSize c = mebibytes m \<and> cfg_MaxAttachmentSize c = mebibytes a"
    and "\<exists>n. loadPositiveInt env ''CLEANUP_INTERVAL_MIN'' defaultCleanupMins = Inr n \<and> cfg_CleanupInterval c = minutes n"
    and "\<exists>n. loadPositiveInt env ''SESSION_TTL_DAYS'' defaultSessionTTLDays = Inr n \<and> cfg_SessionTTL c = days n"
    and "loadBcryptCost env = Inr (cfg_BcryptCost c)"
    and "loadNonNegativeInt env ''INBOX_CREATE_LIMIT_PER_HOUR'' defaultInboxCreateLimitPerHour = Inr (cfg_InboxCreateLimitPerHour c)"
    and "loadPositiveInt env ''SMTP_CONNECTION_LIMIT_PER_MIN'' defaultSMTPConnectionLimitPerMin = Inr (cfg_SMTPConnectionLimitPerMin c)"
    and "loadLogLevel ul env = Inr (cfg_LogLevel c)"
    and "loadBool ul env ''COOKIE_SECURE'' defaultCookieSecure = Inr (cfg_CookieSecure c)"
  using Load_facts [OF assms] by simp_all

text \<open>The number that a variable sets: its trimmed value, or the default when it is unset or blank.\<close>

definition int_setting :: "env \<Rightarrow> string \<Rightarrow> int \<Rightarrow> int \<Rightarrow> bool" where
  "int_setting env key fallback n \<longleftrightarrow>
     (case env key of
        None \<Rightarrow> n = fallback
      | Some v \<Rightarrow> if TrimSpace v = [] then n = fallback else ParseInt (TrimSpace v) = Some n)"

lemma loaded_setting:
  "loadPositiveInt env key fb = Inr n \<Longrightarrow> min_int64 \<le> fb \<Longrightarrow> fb \<le> max_int64 \<Longrightarrow> int_setting env key fb n \<and> 0 < n"
  "loadNonNegativeInt env key fb = Inr n \<Longrightarrow> min_int64 \<le> fb \<Longrightarrow> fb \<le> max_int64 \<Longrightarrow> int_setting env key fb n \<and> 0 \<le> n"
  "loadBcryptCost env = Inr n \<Longrightarrow> int_setting env ''BCRYPT_COST'' 10 n \<and> 4 \<le> n \<and> n \<le> 31"
  by (auto simp: loadPositiveInt_def loadNonNegativeInt_def loadBcryptCost_def loadTrimmedString_def int_setting_def ParseInt_Itoa Let_def
      bcrypt_DefaultCost_def bcrypt_MinCost_def bcrypt_MaxCost_def split: option.splits if_splits)

text \<open>The sizes and times of a configuration are those the environment sets, in their units, as
  far as they fit 64 bits.\<close>

definition sizes_ok :: "env \<Rightarrow> Config \<Rightarrow> bool" where
  "sizes_ok env c \<longleftrightarrow> (\<exists>email_mb attachment_mb.
     int_setting env ''MAX_EMAIL_SIZE_MB'' 10 email_mb \<and> int_setting env ''MAX_ATTACHMENT_MB'' 5 attachment_mb
     \<and> 0 < attachment_mb \<and> attachment_mb \<le> email_mb
     \<and> cfg_MaxEmailSize c = wrap64 (email_mb * 2 ^ 20) \<and> cfg_MaxAttachmentSize c = wrap64 (attachment_mb * 2 ^ 20)
     \<and> (email_mb < 2 ^ 43 \<longrightarrow> cfg_MaxEmailSize c = email_mb * 2 ^ 20 \<and> 0 < cfg_MaxAttachmentSize c
          \<and> cfg_MaxAttachmentSize c \<le> cfg_MaxEmailSize c))"

definition times_ok :: "env \<Rightarrow> Config \<Rightarrow> bool" where
  "times_ok env c \<longleftrightarrow> (\<exists>inbox_days session_days cleanup_min.
     int_setting env ''INBOX_TTL_DAYS'' 60 inbox_days \<and> 0 \<le> inbox_days
     \<and> int_setting env ''SESSION_TTL_DAYS'' 7 session_days \<and> 0 < session_days
     \<and> int_setting env ''CLEANUP_INTERVAL_MIN'' 15 cleanup_min \<and> 0 < cleanup_min
     \<and> cfg_InboxTTL c = wrap64 (inbox_days * 24 * time_Hour)
     \<and> cfg_SessionTTL c = wrap64 (session_days * 24 * time_Hour)
     \<and> cfg_CleanupInterval c = wrap64 (cleanup_min * time_Minute)
     \<and> (inbox_days \<le> 106751 \<longrightarrow> cfg_InboxTTL c = inbox_days * 24 * time_Hour)
     \<and> (session_days \<le> 106751 \<longrightarrow> cfg_SessionTTL c = session_days * 24 * time_Hour \<and> 0 < cfg_SessionTTL c)
     \<and> (cleanup_min \<le> 153722867 \<longrightarrow> cfg_CleanupInterval c = cleanup_min * time_Minute \<and> 0 < cfg_CleanupInterval c))"

lemma Load_sizes: "Load ul env = Inr c \<Longrightarrow> sizes_ok env c"
proof -
  assume load: "Load ul env = Inr c"
  from LoadD(8) [OF load] obtain m a where ma: "loadPositiveInt env ''MAX_EMAIL_SIZE_MB'' defaultMaxEmailSizeMB = Inr m"
    "loadPositiveInt env ''MAX_ATTACHMENT_MB'' defaultMaxAttachSizeMB = Inr a" "a \<le> m"
    and c: "cfg_MaxEmailSize c = mebibytes m" "cfg_MaxAttachmentSize c = mebibytes a" by blast
  have set: "int_setting env ''MAX_EMAIL_SIZE_MB'' 10 m" "int_setting env ''MAX_ATTACHMENT_MB'' 5 a" "0 < a"
    using loaded_setting(1) [OF ma(1)] loaded_setting(1) [OF ma(2)]
    by (simp_all add: defaultMaxEmailSizeMB_def defaultMaxAttachSizeMB_def)
  have "mebibytes n = wrap64 (n * 2 ^ 20)" for n by (simp add: mebibytes_def wrap64_mult_left mult.assoc)
  moreover have "wrap64 (n * 2 ^ 20) = n * 2 ^ 20" if "0 < n" "n < 2 ^ 43" for n using that by (intro wrap64_id) simp_all
  ultimately show ?thesis
    using ma(3) set c unfolding sizes_ok_def by (intro exI [of _ m] exI [of _ a]) simp
qed

lemma days_wrap64: "days n = wrap64 (n * 24 * time_Hour)"
  unfolding days_def by (rule wrap64_mult_left)

lemma Load_times: "Load ul env = Inr c \<Longrightarrow> times_ok env c"
proof -
  assume load: "Load ul env = Inr c"
  from LoadD(7,9,10) [OF load] obtain i s n where l: "loadNonNegativeInt env ''INBOX_TTL_DAYS'' defaultInboxTTLDays = Inr i"
    "loadPositiveInt env ''SESSION_TTL_DAYS'' defaultSessionTTLDays = Inr s"
    "loadPositiveInt env ''CLEANUP_INTERVAL_MIN'' defaultCleanupMins = Inr n"
    and c: "cfg_InboxTTL c = days i" "cfg_SessionTTL c = days s" "cfg_CleanupInterval c = minutes n" by blast
  have set: "int_setting env ''INBOX_TTL_DAYS'' 60 i" "0 \<le> i" "int_setting env ''SESSION_TTL_DAYS'' 7 s" "0 < s"
    "int_setting env ''CLEANUP_INTERVAL_MIN'' 15 n" "0 < n"
    using loaded_setting(2) [OF l(1)] loaded_setting(1) [OF l(2)] loaded_setting(1) [OF l(3)]
    by (simp_all add: defaultInboxTTLDays_def defaultSessionTTLDays_def defaultCleanupMins_def)
  have "wrap64 (k * 24 * time_Hour) = k * 24 * time_Hour" if "0 \<le> k" "k \<le> 106751" for k
    using that by (intro wrap64_id) simp_all
  moreover have "wrap64 (k * time_Minute) = k * time_Minute" if "0 < k" "k \<le> 153722867" for k
    using that by (intro wrap64_id) simp_all
  ultimately show ?thesis
    using set c unfolding times_ok_def minutes_def days_wrap64 by (intro exI [of _ i] exI [of _ s] exI [of _ n]) simp
qed

text \<open>
  C33. Every check that \<open>Load\<close> makes holds of the configuration it returns, and its numbers are
  those of the environment or the defaults: the bcrypt cost is in the range of bcrypt, the limits
  have their sign, the attachment limit is positive and at most the message limit, lifetimes and
  the cleanup interval are positive where they have to be, both listen addresses have a port, the
  paths and the host name are not blank, the log level is one of the four, and the bootstrap
  domain is absent or a normal domain. Sizes and times are checked before they are multiplied to
  their units; the products are exact up to \<open>2 ^ 43\<close> MiB, 106751 days and 153722867 minutes and
  wrap around beyond, where nothing is promised.
\<close>
theorem Load_valid:
  assumes "Load ul env = Inr c"
  shows "(cfg_Domain c = [] \<or> normal_domain (cfg_Domain c)) \<and> cfg_SMTPHostname c \<noteq> []
    \<and> (\<exists>h p. SplitHostPort (cfg_SMTPListenAddr c) = Some (h, p) \<and> TrimSpace p \<noteq> [])
    \<and> (\<exists>h p. SplitHostPort (cfg_HTTPListenAddr c) = Some (h, p) \<and> TrimSpace p \<noteq> [])
    \<and> cfg_DatabasePath c \<noteq> [] \<and> cfg_MigrationsDir c \<noteq> []
    \<and> int_setting env ''BCRYPT_COST'' 10 (cfg_BcryptCost c) \<and> 4 \<le> cfg_BcryptCost c \<and> cfg_BcryptCost c \<le> 31
    \<and> int_setting env ''INBOX_CREATE_LIMIT_PER_HOUR'' 2 (cfg_InboxCreateLimitPerHour c) \<and> 0 \<le> cfg_InboxCreateLimitPerHour c
    \<and> int_setting env ''SMTP_CONNECTION_LIMIT_PER_MIN'' 30 (cfg_SMTPConnectionLimitPerMin c) \<and> 0 < cfg_SMTPConnectionLimitPerMin c
    \<and> cfg_LogLevel c \<in> {''debug'', ''info'', ''warn'', ''error''}
    \<and> sizes_ok env c \<and> times_ok env c"
proof -
  note l = LoadD [OF assms]
  have "cfg_SMTPHostname c \<noteq> []" using l(2) resolveSMTPHostname_neq_Nil by simp
  moreover have "cfg_LogLevel c \<in> {''debug'', ''info'', ''warn'', ''error''}"
    using loadLogLevel_allowed [OF l(14)] by (simp add: allowedLogLevels_def)
  moreover have "int_setting env ''INBOX_CREATE_LIMIT_PER_HOUR'' 2 (cfg_InboxCreateLimitPerHour c) \<and> 0 \<le> cfg_InboxCreateLimitPerHour c"
    "int_setting env ''SMTP_CONNECTION_LIMIT_PER_MIN'' 30 (cfg_SMTPConnectionLimitPerMin c) \<and> 0 < cfg_SMTPConnectionLimitPerMin c"
    using loaded_setting(2) [OF l(12)] loaded_setting(1) [OF l(13)]
    by (simp_all add: defaultInboxCreateLimitPerHour_def defaultSMTPConnectionLimitPerMin_def)
  ultimately show ?thesis
    using loadDomain_normal [OF l(1)] loadListenAddr_port [OF l(3)] loadListenAddr_port [OF l(4)]
      loadDatabasePath_nonblank [OF l(5)] loadMigrationsDir_nonblank [OF l(6)]
      loaded_setting(3) [OF l(11)] Load_sizes [OF assms] Load_times [OF assms] by blast
qed

definition default_config :: Config where
  "default_config = \<lparr>
     cfg_Domain = [], cfg_SMTPHostname = ''localhost'', cfg_SMTPListenAddr = '':25'', cfg_HTTPListenAddr = '':8080'',
     cfg_DatabasePath = ''./data/mail.db'', cfg_MigrationsDir = ''./migrations'',
     cfg_InboxTTL = 60 * 24 * time_Hour, cfg_MaxEmailSize = 10485760, cfg_MaxAttachmentSize = 5242880,
     cfg_CleanupInterval = 15 * time_Minute, cfg_CookieSecure = False, cfg_SessionTTL = 7 * 24 * time_Hour,
     cfg_BcryptCost = 10, cfg_AdminUsername = [], cfg_InboxCreateLimitPerHour = 2,
     cfg_SMTPConnectionLimitPerMin = 30, cfg_LogLevel = ''info''\<rparr>"

text \<open>The program with every variable unset except the session lifetime.\<close>

lemma Load_only_session:
  assumes "dom env \<subseteq> {''SESSION_TTL_DAYS''}"
    and ttl: "loadPositiveInt env ''SESSION_TTL_DAYS'' defaultSessionTTLDays = Inr n"
  shows "Load ul env = Inr (default_config\<lparr>cfg_SessionTTL := days n\<rparr>)"
proof -
  have none: "env k = None" if "k \<noteq> ''SESSION_TTL_DAYS''" for k using assms(1) that by auto
  have ints: "loadNonNegativeInt env ''INBOX_TTL_DAYS'' defaultInboxTTLDays = Inr 60"
    "loadPositiveInt env ''MAX_EMAIL_SIZE_MB'' defaultMaxEmailSizeMB = Inr 10"
    "loadPositiveInt env ''MAX_ATTACHMENT_MB'' defaultMaxAttachSizeMB = Inr 5"
    "loadPositiveInt env ''CLEANUP_INTERVAL_MIN'' defaultCleanupMins = Inr 15"
    "loadNonNegativeInt env ''INBOX_CREATE_LIMIT_PER_HOUR'' defaultInboxCreateLimitPerHour = Inr 2"
    "loadPositiveInt env ''SMTP_CONNECTION_LIMIT_PER_MIN'' defaultSMTPConnectionLimitPerMin = Inr 30"
    using none by (simp_all add: unset_simps defaultInboxTTLDays_def defaultMaxEmailSizeMB_def
        defaultMaxAttachSizeMB_def defaultCleanupMins_def defaultInboxCreateLimitPerHour_def
        defaultSMTPConnectionLimitPerMin_def)
  have rest: "loadDomain ul env = Inr []" "loadListenAddr env ''SMTP_LISTEN_ADDR'' defaultSMTPListenAddr = Inr '':25''"
    "loadListenAddr env ''HTTP_LISTEN_ADDR'' defaultHTTPListenAddr = Inr '':8080''"
    "loadDatabasePath env = Inr ''./data/mail.db''" "loadMigrationsDir env = Inr ''./migrations''"
    "loadBool ul env ''COOKIE_SECURE'' defaultCookieSecure = Inr False" "loadBcryptCost env = Inr 10"
    "loadLogLevel ul env = Inr ''info''"
    "loadTrimmedString env ''ADMIN_USERNAME'' [] False = ([], True)"
    using none
    by (simp_all add: unset_simps loadTrimmedString_unset)
       (simp_all add: default_defs bcrypt_DefaultCost_def)
  have host: "resolveSMTPHostname ul env [] = ''localhost''"
    using none [of "''SMTP_HOSTNAME''"] by (simp add: resolveSMTPHostname_def Getenv_def defaultSMTPHostname_def)
  show ?thesis
    unfolding Load_def Let_def ints rest ttl
    by (simp add: host default_config_def days_def minutes_def mebibytes_def wrap64_def)
qed

text \<open>
  With nothing set in the environment the program starts, on the documented defaults.
\<close>
lemma Load_defaults: "Load ul Map.empty = Inr default_config"
proof -
  have "loadPositiveInt Map.empty ''SESSION_TTL_DAYS'' defaultSessionTTLDays = Inr 7"
    by (simp add: unset_simps defaultSessionTTLDays_def)
  then have "Load ul Map.empty = Inr (default_config\<lparr>cfg_SessionTTL := days 7\<rparr>)"
    by (intro Load_only_session) auto
  then show ?thesis by (simp add: default_config_def days_def wrap64_def)
qed

lemma loadPositiveInt_set:
  "env key = Some v \<Longrightarrow> TrimSpace v \<noteq> [] \<Longrightarrow> ParseInt (TrimSpace v) = Some n \<Longrightarrow> 0 < n \<Longrightarrow>
   loadPositiveInt env key fb = Inr n"
  by (simp add: loadPositiveInt_def loadTrimmedString_def)

text \<open>
  The session lifetime has no upper bound: 106752 days and more are accepted at startup although
  they do not fit a \<open>time.Duration\<close>, and the product wraps around.
\<close>

lemma Load_days:
  assumes "0 < n" "n \<le> max_int64"
  shows "Load ul [''SESSION_TTL_DAYS'' \<mapsto> Itoa n] = Inr (default_config\<lparr>cfg_SessionTTL := days n\<rparr>)"
proof -
  have "loadPositiveInt [''SESSION_TTL_DAYS'' \<mapsto> Itoa n] ''SESSION_TTL_DAYS'' defaultSessionTTLDays = Inr n"
    using assms TrimSpace_Itoa [of n] by (intro loadPositiveInt_set [where v = "Itoa n"]) (simp_all add: Itoa_not_empty ParseInt_Itoa)
  then show ?thesis by (intro Load_only_session) auto
qed

lemma days_exact: "0 < n \<Longrightarrow> n \<le> 106751 \<Longrightarrow> days n = n * 24 * time_Hour"
  unfolding days_wrap64 by (intro wrap64_id) simp_all

lemma days_wrapped: "106752 \<le> n \<Longrightarrow> n < 213504 \<Longrightarrow> days n < 0"
proof -
  assume n: "106752 \<le> n" "n < 213504"
  have "wrap64 (n * 24 * time_Hour) = wrap64 (n * 24 * time_Hour - 2 ^ 64)"
    using wrap64_plus_multiple [of "n * 24 * time_Hour - 2 ^ 64" 1] by simp
  also have "\<dots> = n * 24 * time_Hour - 2 ^ 64" using n by (intro wrap64_id) simp_all
  finally show "days n < 0" using n by (simp add: days_wrap64)
qed

lemma Load_valid_witness:
  "\<exists>env c. env ''SESSION_TTL_DAYS'' = Some (Itoa 30) \<and> Load id env = Inr c \<and> times_ok env c \<and> sizes_ok env c \<and> 4 \<le> cfg_BcryptCost c"
proof -
  have "Load id [''SESSION_TTL_DAYS'' \<mapsto> Itoa 30] = Inr (default_config\<lparr>cfg_SessionTTL := days 30\<rparr>)" by (rule Load_days) simp_all
  moreover from Load_valid [OF this] have "times_ok [''SESSION_TTL_DAYS'' \<mapsto> Itoa 30] (default_config\<lparr>cfg_SessionTTL := days 30\<rparr>)"
    "sizes_ok [''SESSION_TTL_DAYS'' \<mapsto> Itoa 30] (default_config\<lparr>cfg_SessionTTL := days 30\<rparr>)"
    "4 \<le> cfg_BcryptCost (default_config\<lparr>cfg_SessionTTL := days 30\<rparr>)" by blast+
  ultimately show ?thesis by (metis fun_upd_same)
qed

end
