(* ===== verification/Client_Ip.thy ===== *)
theory Client_Ip
  imports Go_Strings
begin

text \<open>
  \<open>internal/clientip\<close>: the key under which the rate limiters count a client. A nil
  pointer of the Go code is \<open>None\<close>: the request of \<open>FromHTTPRequest\<close>, and the three
  dereferences \<open>conn\<close>, \<open>conn.Conn()\<close>, \<open>RemoteAddr()\<close> of \<open>FromSMTPConn\<close>.
\<close>

definition unknownClient :: string where
  "unknownClient = ''unknown''"

definition FromRemoteAddr :: "string \<Rightarrow> string" where
  "FromRemoteAddr remoteAddr =
     (if remoteAddr = [] then unknownClient
      else case SplitHostPort remoteAddr of
             Some (host, _) \<Rightarrow> if host \<noteq> [] then host else remoteAddr
           | None \<Rightarrow> remoteAddr)"

definition FromHTTPRequest :: "string option \<Rightarrow> string" where
  "FromHTTPRequest r = (case r of None \<Rightarrow> unknownClient | Some addr \<Rightarrow> FromRemoteAddr addr)"

definition FromSMTPConn :: "string option option option \<Rightarrow> string" where
  "FromSMTPConn c =
     (case c of
        None \<Rightarrow> unknownClient
      | Some None \<Rightarrow> unknownClient
      | Some (Some None) \<Rightarrow> unknownClient
      | Some (Some (Some addr)) \<Rightarrow> FromRemoteAddr addr)"

lemma FromRemoteAddr_neq_Nil: "FromRemoteAddr a \<noteq> []"
  by (auto simp: FromRemoteAddr_def unknownClient_def split: option.splits)

lemma FromRemoteAddr_plain:
  assumes "h \<noteq> []" "set h \<inter> {CHR '':'', CHR ''['', CHR '']''} = {}"
    and "set p \<inter> {CHR '':'', CHR ''['', CHR '']''} = {}"
  shows "FromRemoteAddr (h @ CHR '':'' # p) = h"
  using assms by (simp add: FromRemoteAddr_def SplitHostPort_plain)

text \<open>
  Every port of one host counts against the same key, for the HTTP and the SMTP limiter:
  opening more connections does not give a client more keys.
\<close>
lemma client_key_ignores_port:
  assumes "h \<noteq> []" "set h \<inter> {CHR '':'', CHR ''['', CHR '']''} = {}"
    and "set p \<inter> {CHR '':'', CHR ''['', CHR '']''} = {}"
    and "set q \<inter> {CHR '':'', CHR ''['', CHR '']''} = {}"
  shows "FromHTTPRequest (Some (h @ CHR '':'' # p)) = h
       \<and> FromSMTPConn (Some (Some (Some (h @ CHR '':'' # q)))) = h"
  using assms by (simp add: FromHTTPRequest_def FromSMTPConn_def FromRemoteAddr_plain)

lemma client_key_ignores_port_witness:
  "FromHTTPRequest (Some ''10.0.0.9:4711'') = ''10.0.0.9'' \<and> FromSMTPConn (Some (Some (Some ''10.0.0.9:25''))) = ''10.0.0.9''"
  using client_key_ignores_port [of "''10.0.0.9''" "''4711''" "''25''"] by simp

end
