(* ===== verification/Repository_Open.thy ===== *)
theory Repository_Open
  imports Go_Strings
begin

text \<open>
  \<open>internal/repository/sqlite.go\<close>, opening the database: the directory, the connection, the
  pragmas and the four migrations. The file system, \<open>path/filepath\<close>, \<open>runtime.Caller\<close> and
  the SQLite driver are a record of parameters; what a script does to a connection is the
  driver's, which scripts run in which order is the code's. The migration files are data of the
  repository, so their text is part of the model. An error text quotes a name as \<open>%q\<close> does
  for names without special characters.
\<close>

record 'c host =
  mkdir_all :: "string \<Rightarrow> go_err option"
  sql_open :: "string \<Rightarrow> 'c result"
  exec_sql :: "string \<Rightarrow> 'c \<Rightarrow> go_err option \<times> 'c"
  close_db :: "'c \<Rightarrow> go_err option \<times> 'c"
  read_file :: "string \<Rightarrow> string result"
  caller_file :: "string option"
  path_join :: "string list \<Rightarrow> string"
  path_dir :: "string \<Rightarrow> string"

record 'c SQLite =
  sq_path :: string
  sq_migrationsDir :: string
  sq_db :: "'c option"

definition quoted :: "string \<Rightarrow> string" where
  "quoted s = CHR 0x22 # s @ [CHR 0x22]"

definition pragmas :: string where
  "pragmas = ''PRAGMA foreign_keys = ON; PRAGMA journal_mode = WAL;''"

definition migration_names :: "string list" where
  "migration_names = [''001_initial.sql'', ''002_domains.sql'', ''003_sessions.sql'', ''004_settings.sql'']"

definition execScript :: "'c host \<Rightarrow> string \<Rightarrow> 'c \<Rightarrow> go_err option \<times> 'c" where
  "execScript h script c = exec_sql h script c"

definition loadMigration :: "'c host \<Rightarrow> string \<Rightarrow> string \<Rightarrow> string result" where
  "loadMigration h migrationsDir name =
     (case (if migrationsDir = [] then
              (case caller_file h of
                 None \<Rightarrow> Inl (ErrText ''resolve migration path: runtime.Caller failed'')
               | Some file \<Rightarrow> Inr (path_join h [path_dir h file, ''..'', ''..'', ''migrations'']))
            else Inr migrationsDir) of
        Inl e \<Rightarrow> Inl e
      | Inr dir \<Rightarrow>
          (let path = path_join h [dir, name] in
           case read_file h path of
             Inl e \<Rightarrow> Inl (Wrap (''read migration '' @ quoted path) e)
           | Inr content \<Rightarrow> Inr content))"

fun apply_migrations :: "'c host \<Rightarrow> string \<Rightarrow> string list \<Rightarrow> 'c \<Rightarrow> go_err option \<times> 'c" where
  "apply_migrations h dir [] c = (None, c)"
| "apply_migrations h dir (name # names) c =
     (case loadMigration h dir name of
        Inl e \<Rightarrow> (Some e, c)
      | Inr migration \<Rightarrow>
          (case execScript h migration c of
             (Some e, c1) \<Rightarrow> (Some (Wrap (''apply migration '' @ quoted name) e), c1)
           | (None, c1) \<Rightarrow> apply_migrations h dir names c1))"

text \<open>\<open>init\<close>.\<close>

definition init_db :: "'c host \<Rightarrow> string \<Rightarrow> 'c \<Rightarrow> go_err option \<times> 'c" where
  "init_db h dir c =
     (case execScript h pragmas c of
        (Some e, c1) \<Rightarrow> (Some (Wrap ''configure sqlite pragmas'' e), c1)
      | (None, c1) \<Rightarrow> apply_migrations h dir migration_names c1)"

text \<open>The result, and the connection that was closed again if there was one.\<close>

definition NewSQLite :: "'c host \<Rightarrow> string \<Rightarrow> string \<Rightarrow> 'c SQLite result \<times> 'c option" where
  "NewSQLite h path migrationsDir =
     (case mkdir_all h (path_dir h path) of
        Some e \<Rightarrow> (Inl (Wrap ''create database directory'' e), None)
      | None \<Rightarrow>
          (case sql_open h path of
             Inl e \<Rightarrow> (Inl (Wrap ''open sqlite database'' e), None)
           | Inr c \<Rightarrow>
               (case init_db h migrationsDir c of
                  (Some e, c1) \<Rightarrow> (Inl e, Some (snd (close_db h c1)))
                | (None, c1) \<Rightarrow> (Inr \<lparr>sq_path = path, sq_migrationsDir = migrationsDir, sq_db = Some c1\<rparr>, None))))"

definition Close :: "'c host \<Rightarrow> 'c SQLite \<Rightarrow> go_err option" where
  "Close h s = (case sq_db s of None \<Rightarrow> None | Some c \<Rightarrow> fst (close_db h c))"

section \<open>The migration files\<close>

definition sql_lines :: "string list \<Rightarrow> string" where
  "sql_lines ls = concat (map (\<lambda>l. l @ [CHR 0x0A]) ls)"

definition initial_sql :: string where
  "initial_sql = sql_lines [
     ''-- Enable foreign keys and WAL mode for performance'',
     ''PRAGMA foreign_keys = ON;'',
     ''PRAGMA journal_mode = WAL;'',
     '''',
     ''CREATE TABLE IF NOT EXISTS inboxes ('',
     ''    id INTEGER PRIMARY KEY AUTOINCREMENT,'',
     ''    address TEXT UNIQUE NOT NULL COLLATE NOCASE,'',
     ''    local_part TEXT NOT NULL COLLATE NOCASE,'',
     ''    token TEXT UNIQUE NOT NULL,'',
     ''    password_hash TEXT NOT NULL,'',
     ''    created_at INTEGER NOT NULL DEFAULT (unixepoch()),'',
     ''    last_accessed_at INTEGER NOT NULL DEFAULT (unixepoch()),'',
     ''    expires_at INTEGER NOT NULL'',
     '');'',
     '''',
     ''CREATE INDEX IF NOT EXISTS idx_inboxes_token ON inboxes(token);'',
     ''CREATE INDEX IF NOT EXISTS idx_inboxes_address ON inboxes(address);'',
     ''CREATE INDEX IF NOT EXISTS idx_inboxes_expires_at ON inboxes(expires_at);'',
     '''',
     ''CREATE TABLE IF NOT EXISTS emails ('',
     ''    id INTEGER PRIMARY KEY AUTOINCREMENT,'',
     ''    inbox_id INTEGER NOT NULL,'',
     ''    message_id TEXT,'',
     ''    sender TEXT NOT NULL,'',
     ''    sender_name TEXT,'',
     ''    recipient TEXT NOT NULL,'',
     ''    subject TEXT NOT NULL DEFAULT '(no subject)','',
     ''    body_html TEXT,'',
     ''    body_text TEXT,'',
     ''    raw_headers TEXT,'',
     ''    size_bytes INTEGER NOT NULL DEFAULT 0,'',
     ''    has_attachments INTEGER NOT NULL DEFAULT 0,'',
     ''    received_at INTEGER NOT NULL DEFAULT (unixepoch()),'',
     ''    is_read INTEGER NOT NULL DEFAULT 0,'',
     ''    FOREIGN KEY(inbox_id) REFERENCES inboxes(id) ON DELETE CASCADE'',
     '');'',
     '''',
     ''CREATE INDEX IF NOT EXISTS idx_emails_inbox_id ON emails(inbox_id);'',
     ''CREATE INDEX IF NOT EXISTS idx_emails_received_at ON emails(received_at);'',
     '''',
     ''CREATE TABLE IF NOT EXISTS attachments ('',
     ''    id INTEGER PRIMARY KEY AUTOINCREMENT,'',
     ''    email_id INTEGER NOT NULL,'',
     ''    filename TEXT NOT NULL,'',
     ''    content_type TEXT NOT NULL,'',
     ''    size_bytes INTEGER NOT NULL,'',
     ''    content BLOB NOT NULL,'',
     ''    FOREIGN KEY(email_id) REFERENCES emails(id) ON DELETE CASCADE'',
     '');'',
     '''',
     ''CREATE INDEX IF NOT EXISTS idx_attachments_email_id ON attachments(email_id);'']"

definition domains_sql :: string where
  "domains_sql = sql_lines [
     ''CREATE TABLE IF NOT EXISTS domains ('',
     ''    id INTEGER PRIMARY KEY AUTOINCREMENT,'',
     ''    name TEXT UNIQUE NOT NULL COLLATE NOCASE,'',
     ''    enabled INTEGER NOT NULL DEFAULT 1,'',
     ''    created_at INTEGER NOT NULL DEFAULT (unixepoch())'',
     '');'',
     '''',
     ''CREATE INDEX IF NOT EXISTS idx_domains_enabled ON domains(enabled);'']"

definition sessions_sql :: string where
  "sessions_sql = sql_lines [
     ''-- Mailbox login sessions. A session ties an opaque token (stored in the'',
     ''-- session cookie) to an inbox/account, with a sliding expiry refreshed on every'',
     ''-- authenticated request.'',
     ''CREATE TABLE IF NOT EXISTS sessions ('',
     ''    token       TEXT PRIMARY KEY,'',
     ''    inbox_id    INTEGER NOT NULL,'',
     ''    created_at  INTEGER NOT NULL DEFAULT (unixepoch()),'',
     ''    expires_at  INTEGER NOT NULL,'',
     ''    FOREIGN KEY(inbox_id) REFERENCES inboxes(id) ON DELETE CASCADE'',
     '');'',
     '''',
     ''CREATE INDEX IF NOT EXISTS idx_sessions_expires_at ON sessions(expires_at);'',
     ''CREATE INDEX IF NOT EXISTS idx_sessions_inbox_id ON sessions(inbox_id);'']"

definition settings_sql :: string where
  "settings_sql = sql_lines [
     ''-- Singleton key/value settings persisted across restarts. Currently holds only'',
     ''-- the admin password hash, which is set once via the first-run /admin/setup flow'',
     ''-- (there is no ADMIN_PASSWORD env). Kept as a generic table so future operator'',
     ''-- settings can reuse it without another migration.'',
     ''CREATE TABLE IF NOT EXISTS settings ('',
     ''    key        TEXT PRIMARY KEY,'',
     ''    value      TEXT NOT NULL,'',
     ''    updated_at INTEGER NOT NULL DEFAULT (unixepoch())'',
     '');'']"

text \<open>
  The statements of a script of this kind: without the lines that are comments, cut at the
  semicolons.
\<close>

definition strip :: "string \<Rightarrow> string" where
  "strip = dropWhile (\<lambda>c. c = CHR '' '' \<or> c = CHR 0x0A)"

definition statements :: "string \<Rightarrow> string list" where
  "statements script = filter (\<lambda>st. st \<noteq> [])
     (map strip (Split (sql_lines (filter (\<lambda>l. \<not> HasPrefix l ''--'') (Split script CHR 0x0A))) CHR '';''))"

datatype ddl = CreateTable string | CreateIndex | ForeignKeysOn | WriteAheadLog

definition ddl_of :: "string \<Rightarrow> ddl option" where
  "ddl_of st =
     (if HasPrefix st ''CREATE TABLE IF NOT EXISTS '' then
        Some (CreateTable (takeWhile (\<lambda>c. c \<noteq> CHR '' '') (drop (length ''CREATE TABLE IF NOT EXISTS '') st)))
      else if HasPrefix st ''CREATE INDEX IF NOT EXISTS '' then Some CreateIndex
      else if st = ''PRAGMA foreign_keys = ON'' then Some ForeignKeysOn
      else if st = ''PRAGMA journal_mode = WAL'' then Some WriteAheadLog
      else None)"

definition ddl_script :: "string \<Rightarrow> ddl option list" where
  "ddl_script script = map ddl_of (statements script)"

text \<open>
  What the driver does, as SQLite documents it: a script of such statements that runs without an
  error has created the tables it names, has dropped none, and has switched foreign keys on for the
  connection if it says so.
\<close>

definition ddl_driver :: "'c host \<Rightarrow> ('c \<Rightarrow> string set) \<Rightarrow> ('c \<Rightarrow> bool) \<Rightarrow> bool" where
  "ddl_driver h tables fk \<longleftrightarrow> (\<forall>script c c'. None \<notin> set (ddl_script script) \<longrightarrow> exec_sql h script c = (None, c') \<longrightarrow>
     tables c' = tables c \<union> {t. Some (CreateTable t) \<in> set (ddl_script script)}
     \<and> fk c' = (fk c \<or> Some ForeignKeysOn \<in> set (ddl_script script)))"

lemma sql_lines_simps [simp]: "sql_lines [] = []" "sql_lines (l # ls) = l @ CHR 0x0A # sql_lines ls"
  by (simp_all add: sql_lines_def)

text \<open>Scripts whose semicolons end their lines are cut line by line.\<close>

lemma Split_sql_lines: "list_all (\<lambda>l. CHR 0x0A \<notin> set l) ls \<Longrightarrow> Split (sql_lines ls) CHR 0x0A = ls @ [[]]"
  by (induction ls) (simp_all add: Split_append)

fun cut_lines :: "string \<Rightarrow> string list \<Rightarrow> string list" where
  "cut_lines acc [] = [acc]"
| "cut_lines acc (l # ls) =
     (if l \<noteq> [] \<and> last l = CHR '';'' then (acc @ butlast l) # cut_lines [CHR 0x0A] ls else cut_lines (acc @ l @ [CHR 0x0A]) ls)"

lemma Split_cut:
  "CHR '';'' \<notin> set acc \<Longrightarrow> list_all (\<lambda>l. CHR '';'' \<notin> set (butlast l)) ls \<Longrightarrow> Split (acc @ sql_lines ls) CHR '';'' = cut_lines acc ls"
proof (induction acc ls rule: cut_lines.induct)
  case (2 acc l ls)
  show ?case
  proof (cases "l \<noteq> [] \<and> last l = CHR '';''")
    case True
    then obtain m where l: "l = m @ [CHR '';'']" by (cases l rule: rev_cases) simp_all
    with 2 True show ?thesis using Split_append [of "CHR '';''" "acc @ m" "[CHR 0x0A] @ sql_lines ls"] by simp
  next
    case False
    then have "CHR '';'' \<notin> set l" using 2(4) by (cases l rule: rev_cases) auto
    with 2 False show ?thesis by auto
  qed
qed (simp add: Split_no_sep)

lemma statements_cut:
  assumes "list_all (\<lambda>l. CHR 0x0A \<notin> set l \<and> CHR '';'' \<notin> set (butlast l)) ls"
  shows "statements (sql_lines ls) = filter (\<lambda>st. st \<noteq> []) (map strip (cut_lines [] (filter (\<lambda>l. \<not> HasPrefix l ''--'') ls @ [[]])))"
proof -
  have "Split (sql_lines ls) CHR 0x0A = ls @ [[]]" using assms by (intro Split_sql_lines) (simp add: list_all_iff)
  moreover have "Split ([] @ sql_lines (filter (\<lambda>l. \<not> HasPrefix l ''--'') ls @ [[]])) CHR '';'' = cut_lines [] (filter (\<lambda>l. \<not> HasPrefix l ''--'') ls @ [[]])"
    using assms by (intro Split_cut) (simp_all add: list_all_iff)
  ultimately show ?thesis by (simp add: statements_def HasPrefix_def)
qed

lemma ddl_initial: "ddl_script initial_sql = [Some ForeignKeysOn, Some WriteAheadLog, Some (CreateTable ''inboxes''), Some CreateIndex,
     Some CreateIndex, Some CreateIndex, Some (CreateTable ''emails''), Some CreateIndex, Some CreateIndex,
     Some (CreateTable ''attachments''), Some CreateIndex]"
  unfolding ddl_script_def initial_sql_def
  by (subst statements_cut) (simp_all add: HasPrefix_def strip_def ddl_of_def)

lemma ddl_domains: "ddl_script domains_sql = [Some (CreateTable ''domains''), Some CreateIndex]"
  unfolding ddl_script_def domains_sql_def
  by (subst statements_cut) (simp_all add: HasPrefix_def strip_def ddl_of_def)

lemma ddl_sessions: "ddl_script sessions_sql = [Some (CreateTable ''sessions''), Some CreateIndex, Some CreateIndex]"
  unfolding ddl_script_def sessions_sql_def
  by (subst statements_cut) (simp_all add: HasPrefix_def strip_def ddl_of_def)

lemma ddl_settings: "ddl_script settings_sql = [Some (CreateTable ''settings'')]"
  unfolding ddl_script_def settings_sql_def
  by (subst statements_cut) (simp_all add: HasPrefix_def strip_def ddl_of_def)

lemma ddl_pragmas: "ddl_script ''PRAGMA foreign_keys = ON; PRAGMA journal_mode = WAL;'' = [Some ForeignKeysOn, Some WriteAheadLog]"
  by code_simp

lemmas ddl_of_migrations = ddl_initial ddl_domains ddl_sessions ddl_settings ddl_pragmas

section \<open>What opening does\<close>

text \<open>Scripts run one after the other, all without an error.\<close>

fun scripts_run :: "'c host \<Rightarrow> string list \<Rightarrow> 'c \<Rightarrow> 'c \<Rightarrow> bool" where
  "scripts_run h [] c c' \<longleftrightarrow> c' = c"
| "scripts_run h (s # ss) c c' \<longleftrightarrow> (case exec_sql h s c of (err, c1) \<Rightarrow> err = None \<and> scripts_run h ss c1 c')"

text \<open>The script is the content of a file in the migrations directory, or the one next to the source.\<close>

definition file_script :: "'c host \<Rightarrow> string \<Rightarrow> string \<Rightarrow> string \<Rightarrow> bool" where
  "file_script h dir name script \<longleftrightarrow> (\<exists>d.
     (dir \<noteq> [] \<and> d = dir \<or> dir = [] \<and> (\<exists>file. caller_file h = Some file \<and> d = path_join h [path_dir h file, ''..'', ''..'', ''migrations'']))
     \<and> read_file h (path_join h [d, name]) = Inr script)"

definition ready_after :: "'c host \<Rightarrow> string \<Rightarrow> string \<Rightarrow> 'c \<Rightarrow> bool" where
  "ready_after h path dir c' \<longleftrightarrow> mkdir_all h (path_dir h path) = None \<and> (\<exists>c m1 m2 m3 m4. sql_open h path = Inr c
     \<and> file_script h dir ''001_initial.sql'' m1 \<and> file_script h dir ''002_domains.sql'' m2
     \<and> file_script h dir ''003_sessions.sql'' m3 \<and> file_script h dir ''004_settings.sql'' m4
     \<and> scripts_run h [''PRAGMA foreign_keys = ON; PRAGMA journal_mode = WAL;'', m1, m2, m3, m4] c c')"

text \<open>The files are those of the repository.\<close>

definition repository_files :: "'c host \<Rightarrow> string \<Rightarrow> bool" where
  "repository_files h dir \<longleftrightarrow> file_script h dir ''001_initial.sql'' initial_sql \<and> file_script h dir ''002_domains.sql'' domains_sql
     \<and> file_script h dir ''003_sessions.sql'' sessions_sql \<and> file_script h dir ''004_settings.sql'' settings_sql"

lemma file_script_iff: "file_script h dir name script \<longleftrightarrow> loadMigration h dir name = Inr script"
  by (auto simp: file_script_def loadMigration_def Let_def split: option.splits sum.splits)

lemma apply_migrations_None:
  "apply_migrations h dir names c = (None, c') \<longleftrightarrow>
   (\<exists>scripts. map (loadMigration h dir) names = map Inr scripts \<and> scripts_run h scripts c c')"
proof (induction h dir names c rule: apply_migrations.induct)
  case (2 h dir name names c)
  have cons: "(\<exists>ss. a # xs = map Inr ss \<and> P ss) \<longleftrightarrow> (\<exists>s ss. a = Inr s \<and> xs = map Inr ss \<and> P (s # ss))"
    for a :: "string result" and xs P by (auto simp: Cons_eq_map_conv)
  show ?case
  proof (cases "loadMigration h dir name")
    case (Inr m)
    obtain err c1 where e: "exec_sql h m c = (err, c1)" by fastforce
    then show ?thesis using 2 Inr by (cases err) (auto simp: cons execScript_def)
  qed (simp add: cons)
qed auto

lemma init_db_None:
  "init_db h dir c = (None, c') \<longleftrightarrow>
   (\<exists>scripts. map (loadMigration h dir) migration_names = map Inr scripts \<and> scripts_run h (pragmas # scripts) c c')"
proof -
  obtain err c1 where "exec_sql h pragmas c = (err, c1)" by fastforce
  then show ?thesis by (cases err) (auto simp: init_db_def execScript_def apply_migrations_None)
qed

lemma ready_after_init:
  "mkdir_all h (path_dir h path) = None \<Longrightarrow> sql_open h path = Inr c \<Longrightarrow>
   ready_after h path dir c' \<longleftrightarrow> init_db h dir c = (None, c')"
  by (auto simp: ready_after_def file_script_iff init_db_None migration_names_def pragmas_def map_eq_Cons_conv Cons_eq_map_conv
      simp del: scripts_run.simps)

lemma ddl_driverD:
  assumes "ddl_driver h tables fk" "exec_sql h script c = (None, c')" "None \<notin> set (ddl_script script)"
  shows "tables c \<subseteq> tables c'" "fk c \<Longrightarrow> fk c'" "Some (CreateTable t) \<in> set (ddl_script script) \<Longrightarrow> t \<in> tables c'"
    "Some ForeignKeysOn \<in> set (ddl_script script) \<Longrightarrow> fk c'"
  using assms unfolding ddl_driver_def by blast+

lemma file_script_unique: "file_script h dir name m \<Longrightarrow> file_script h dir name m' \<Longrightarrow> m' = m"
  by (simp add: file_script_iff)

lemma ready_schema:
  assumes "ready_after h path dir c" "ddl_driver h tables fk" "repository_files h dir"
  shows "fk c \<and> {''inboxes'', ''emails'', ''attachments'', ''domains'', ''sessions'', ''settings''} \<subseteq> tables c"
proof -
  let ?files = "[''PRAGMA foreign_keys = ON; PRAGMA journal_mode = WAL;'', initial_sql, domains_sql, sessions_sql, settings_sql]"
  obtain c0 where "scripts_run h ?files c0 c"
    using assms(1,3) unfolding ready_after_def repository_files_def by (metis file_script_unique)
  then obtain c1 c2 c3 c4 where run: "exec_sql h ''PRAGMA foreign_keys = ON; PRAGMA journal_mode = WAL;'' c0 = (None, c1)"
    "exec_sql h initial_sql c1 = (None, c2)" "exec_sql h domains_sql c2 = (None, c3)"
    "exec_sql h sessions_sql c3 = (None, c4)" "exec_sql h settings_sql c4 = (None, c)"
    by (auto split: prod.splits)
  note r = ddl_driverD [OF assms(2) run(1)] ddl_driverD [OF assms(2) run(2)] ddl_driverD [OF assms(2) run(3)]
    ddl_driverD [OF assms(2) run(4)] ddl_driverD [OF assms(2) run(5)]
  have "fk c1" "tables c2 \<subseteq> tables c3" "tables c3 \<subseteq> tables c4" "tables c4 \<subseteq> tables c"
    and "fk c1 \<Longrightarrow> fk c2" "fk c2 \<Longrightarrow> fk c3" "fk c3 \<Longrightarrow> fk c4" "fk c4 \<Longrightarrow> fk c"
    and "''inboxes'' \<in> tables c2" "''emails'' \<in> tables c2" "''attachments'' \<in> tables c2" "''domains'' \<in> tables c3"
    "''sessions'' \<in> tables c4" "''settings'' \<in> tables c"
    by (rule r; simp add: ddl_of_migrations)+
  then show ?thesis by blast
qed

text \<open>
  C37. The database is ready or the process does not start. Opening succeeds exactly when the
  directory and the connection could be made, \<open>PRAGMA foreign_keys\<close> and WAL mode were set, and
  then the four migration files, read from the migrations directory, ran in their order, all
  without an error; the store then holds the connection after them. On the repository's own
  files that connection enforces foreign keys and has the six tables that the statements of
  \<open>sqlite.go\<close> name, whatever the database file held before. If anything after the opening fails,
  the connection is closed again and the error is returned.
\<close>
theorem opening_runs_every_migration:
  "case NewSQLite h path dir of
     (Inr s, closed) \<Rightarrow> closed = None
       \<and> (\<exists>c. ready_after h path dir c \<and> s = \<lparr>sq_path = path, sq_migrationsDir = dir, sq_db = Some c\<rparr>
            \<and> (\<forall>tables fk. ddl_driver h tables fk \<and> repository_files h dir \<longrightarrow>
                 fk c \<and> {''inboxes'', ''emails'', ''attachments'', ''domains'', ''sessions'', ''settings''} \<subseteq> tables c))
   | (Inl e, closed) \<Rightarrow> (\<nexists>c. ready_after h path dir c)
       \<and> ((\<exists>c. closed = Some c) \<longleftrightarrow> mkdir_all h (path_dir h path) = None \<and> \<not> isl (sql_open h path))"
proof (cases "mkdir_all h (path_dir h path) = None \<and> \<not> isl (sql_open h path)")
  case True
  then obtain c where c: "mkdir_all h (path_dir h path) = None" "sql_open h path = Inr c" by (auto simp: isl_def) (metis sum.exhaust)
  obtain err c1 where i: "init_db h dir c = (err, c1)" by fastforce
  note ready = ready_after_init [OF c, of dir]
  show ?thesis
  proof (cases err)
    case None
    with i have "ready_after h path dir c1" by (simp add: ready)
    with c i None ready_schema [OF this] show ?thesis by (simp add: NewSQLite_def) blast
  next
    case (Some e)
    with c i show ?thesis by (simp add: NewSQLite_def ready)
  qed
qed (auto simp: NewSQLite_def ready_after_def isl_def split: option.split sum.split)

text \<open>A driver that keeps the list of the scripts it ran.\<close>

definition log_host :: "string list host" where
  "log_host = \<lparr>mkdir_all = (\<lambda>_. None), sql_open = (\<lambda>_. Inr []), exec_sql = (\<lambda>script c. (None, c @ [script])),
     close_db = (\<lambda>c. (None, c)),
     read_file = (\<lambda>path. if path = ''m/001_initial.sql'' then Inr initial_sql else if path = ''m/002_domains.sql'' then Inr domains_sql
       else if path = ''m/003_sessions.sql'' then Inr sessions_sql else Inr settings_sql),
     caller_file = None, path_join = (\<lambda>ps. concat ps), path_dir = (\<lambda>p. p)\<rparr>"

definition log_tables :: "string list \<Rightarrow> string set" where
  "log_tables c = {t. \<exists>script \<in> set c. Some (CreateTable t) \<in> set (ddl_script script)}"

definition log_fk :: "string list \<Rightarrow> bool" where
  "log_fk c \<longleftrightarrow> (\<exists>script \<in> set c. Some ForeignKeysOn \<in> set (ddl_script script))"

lemma opening_runs_every_migration_witness:
  "\<exists>s c. NewSQLite log_host ''db'' ''m/'' = (Inr s, None) \<and> sq_db s = Some c \<and> log_fk c \<and> ''settings'' \<in> log_tables c"
proof -
  have driver: "ddl_driver log_host log_tables log_fk"
    by (auto simp: ddl_driver_def log_host_def log_tables_def log_fk_def)
  have files: "repository_files log_host ''m/''"
    by (simp add: repository_files_def file_script_def log_host_def)
  have "\<exists>s. NewSQLite log_host ''db'' ''m/'' = (Inr s, None)"
    by (simp add: NewSQLite_def init_db_def migration_names_def loadMigration_def execScript_def log_host_def)
  then obtain s where s: "NewSQLite log_host ''db'' ''m/'' = (Inr s, None)" by blast
  with opening_runs_every_migration [of log_host "''db''" "''m/''"] obtain c where c: "sq_db s = Some c"
    and all: "\<forall>tables fk. ddl_driver log_host tables fk \<and> repository_files log_host ''m/'' \<longrightarrow>
      fk c \<and> {''inboxes'', ''emails'', ''attachments'', ''domains'', ''sessions'', ''settings''} \<subseteq> tables c" by auto
  from all [rule_format, of log_tables log_fk] driver files have "log_fk c" "''settings'' \<in> log_tables c" by blast+
  with s c show ?thesis by blast
qed

end
