(* ===== verification/Rate_Limit.thy ===== *)
theory Rate_Limit
  imports Prelude
begin

text \<open>
  \<open>internal/ratelimit\<close>: the fixed-window limiter. The map of entries is a partial
  function; reading a missing key gives Go's zero \<open>entry\<close>. The clock \<open>l.now\<close> is the
  instant handed to each call. A nil \<open>*FixedWindowLimiter\<close> is \<open>None\<close>.
\<close>

record Decision =
  Allowed :: bool
  RetryAfter :: int
  Remaining :: int

record entry =
  windowStart :: int
  count :: int

record FixedWindowLimiter =
  limit :: int
  window :: int
  entries :: "string \<rightharpoonup> entry"

definition NewFixedWindowLimiter :: "int \<Rightarrow> int \<Rightarrow> FixedWindowLimiter" where
  "NewFixedWindowLimiter lim w = \<lparr>limit = lim, window = w, entries = Map.empty\<rparr>"

definition zero_entry :: entry where
  "zero_entry = \<lparr>windowStart = zero_time, count = 0\<rparr>"

definition lookup_entry :: "FixedWindowLimiter \<Rightarrow> string \<Rightarrow> entry" where
  "lookup_entry l key = (case entries l key of None \<Rightarrow> zero_entry | Some e \<Rightarrow> e)"

text \<open>The entry a call counts in: the stored one, or a new window that starts now.\<close>

definition current_entry :: "int \<Rightarrow> string \<Rightarrow> FixedWindowLimiter \<Rightarrow> entry" where
  "current_entry now key l =
     (let current = lookup_entry l key in
      if IsZero (windowStart current) \<or> window l \<le> time_Sub now (windowStart current)
      then \<lparr>windowStart = now, count = 0\<rparr> else current)"

definition allow :: "int \<Rightarrow> string \<Rightarrow> FixedWindowLimiter \<Rightarrow> Decision \<times> FixedWindowLimiter" where
  "allow now key l =
     (if limit l \<le> 0 \<or> window l \<le> 0 then (\<lparr>Allowed = True, RetryAfter = 0, Remaining = 0\<rparr>, l)
      else
        let current = current_entry now key l in
        if limit l \<le> count current then
          (let retryAfter = wrap64 (window l - time_Sub now (windowStart current))
           in (\<lparr>Allowed = False, RetryAfter = (if retryAfter < 0 then 0 else retryAfter), Remaining = 0\<rparr>, l))
        else
          (let current' = current\<lparr>count := count current + 1\<rparr>
           in (\<lparr>Allowed = True, RetryAfter = 0, Remaining = limit l - count current'\<rparr>,
               l\<lparr>entries := (entries l)(key \<mapsto> current')\<rparr>)))"

definition Allow :: "int \<Rightarrow> string \<Rightarrow> FixedWindowLimiter option \<Rightarrow> Decision \<times> FixedWindowLimiter option" where
  "Allow now key lo =
     (case lo of
        None \<Rightarrow> (\<lparr>Allowed = True, RetryAfter = 0, Remaining = 0\<rparr>, None)
      | Some l \<Rightarrow> (let (d, l') = allow now key l in (d, Some l')))"

section \<open>One call\<close>

lemma allow_config [simp]: "limit (snd (allow now key l)) = limit l" "window (snd (allow now key l)) = window l"
  by (simp_all add: allow_def Let_def)

lemma allow_other_key: "k \<noteq> key \<Longrightarrow> entries (snd (allow now key l)) k = entries l k"
  by (simp add: allow_def Let_def)

lemma allow_entry:
  "0 < limit l \<Longrightarrow> 0 < window l \<Longrightarrow>
   entries (snd (allow now key l)) key =
     (if Allowed (fst (allow now key l))
      then Some ((current_entry now key l)\<lparr>count := count (current_entry now key l) + 1\<rparr>)
      else entries l key)"
  by (simp add: allow_def Let_def)

lemma allow_Allowed:
  "0 < limit l \<Longrightarrow> 0 < window l \<Longrightarrow>
   Allowed (fst (allow now key l)) \<longleftrightarrow> count (current_entry now key l) < limit l"
  by (simp add: allow_def Let_def not_le)

lemma allow_denied_same: "\<not> Allowed (fst (allow now key l)) \<Longrightarrow> snd (allow now key l) = l"
  by (simp add: allow_def Let_def split: if_splits)

text \<open>Counts stay between zero and the limit.\<close>

definition limiter_ok :: "FixedWindowLimiter \<Rightarrow> bool" where
  "limiter_ok l \<longleftrightarrow> (\<forall>k e. entries l k = Some e \<longrightarrow> 0 \<le> count e \<and> (0 < limit l \<longrightarrow> count e \<le> limit l))"

lemma limiter_ok_new: "limiter_ok (NewFixedWindowLimiter lim w)"
  by (simp add: limiter_ok_def NewFixedWindowLimiter_def)

lemma current_entry_count:
  "limiter_ok l \<Longrightarrow> 0 < limit l \<Longrightarrow>
   0 \<le> count (current_entry now key l) \<and> count (current_entry now key l) \<le> limit l"
  by (auto simp: current_entry_def lookup_entry_def zero_entry_def limiter_ok_def Let_def split: option.splits)

lemma limiter_ok_allow: "limiter_ok l \<Longrightarrow> limiter_ok (snd (allow now key l))"
  using current_entry_count [of l now key]
  by (auto simp: allow_def Let_def limiter_ok_def split: if_splits)

section \<open>Runs of calls\<close>

text \<open>
  The decisions of a run of calls \<open>(instant, key)\<close>, and how many calls of one key it
  admitted from instant \<open>a\<close> on and before instant \<open>b\<close>.
\<close>

fun decisions :: "FixedWindowLimiter \<Rightarrow> (int \<times> string) list \<Rightarrow> (int \<times> string \<times> bool) list" where
  "decisions l [] = []"
| "decisions l ((t, k) # cs) = (t, k, Allowed (fst (allow t k l))) # decisions (snd (allow t k l)) cs"

fun admitted :: "string \<Rightarrow> int \<Rightarrow> int \<Rightarrow> (int \<times> string \<times> bool) list \<Rightarrow> int" where
  "admitted k a b [] = 0"
| "admitted k a b ((t, k', ok) # ds) = (if k' = k \<and> ok \<and> a \<le> t \<and> t < b then 1 else 0) + admitted k a b ds"

definition verdicts :: "(int \<times> string \<times> bool) list \<Rightarrow> bool list" where
  "verdicts ds = map (\<lambda>d. snd (snd d)) ds"

lemma verdicts_simps [simp]: "verdicts [] = []" "verdicts ((t, k, ok) # ds) = ok # verdicts ds"
  by (simp_all add: verdicts_def)

lemma decisions_times: "map fst (decisions l cs) = map fst cs"
  by (induction l cs rule: decisions.induct) auto

lemma admitted_late: "\<forall>t \<in> fst ` set ds. b \<le> t \<Longrightarrow> admitted k a b ds = 0"
  by (induction k a b ds rule: admitted.induct) auto

lemma decisions_late: "\<forall>t \<in> fst ` set cs. b \<le> t \<Longrightarrow> admitted k a b (decisions l cs) = 0"
  using decisions_times [of l cs] by (intro admitted_late) (metis image_set)

lemma lookup_entry_allow_other: "k \<noteq> key \<Longrightarrow> lookup_entry (snd (allow t key l)) k = lookup_entry l k"
  by (simp add: lookup_entry_def allow_other_key)

lemma lookup_entry_allow_key:
  "0 < limit l \<Longrightarrow> 0 < window l \<Longrightarrow>
   lookup_entry (snd (allow t k l)) k =
     (if count (current_entry t k l) < limit l
      then (current_entry t k l)\<lparr>count := count (current_entry t k l) + 1\<rparr> else lookup_entry l k)"
  by (simp add: lookup_entry_def allow_entry allow_Allowed)

lemma current_entry_same_window:
  "windowStart (lookup_entry l k) \<noteq> zero_time \<Longrightarrow> window l \<le> max_int64 \<Longrightarrow> 0 < window l \<Longrightarrow>
   t < windowStart (lookup_entry l k) + window l \<Longrightarrow> current_entry t k l = lookup_entry l k"
  by (simp add: current_entry_def Let_def IsZero_def time_Sub_ge_iff)

text \<open>Within the window a key is in, it gets what is left of its limit.\<close>

lemma admitted_same_window:
  assumes "sorted (map fst cs)" "0 < limit l" "0 < window l" "window l \<le> max_int64"
    and "windowStart (lookup_entry l k) \<noteq> zero_time" "b \<le> windowStart (lookup_entry l k) + window l"
    and "count (lookup_entry l k) \<le> limit l"
  shows "admitted k a b (decisions l cs) \<le> limit l - count (lookup_entry l k)"
  using assms
proof (induction l cs rule: decisions.induct)
  case (1 l)
  then show ?case by simp
next
  case (2 l t k' cs)
  let ?l' = "snd (allow t k' l)"
  show ?case
  proof (cases "b \<le> t")
    case True
    with "2.prems"(1) have "\<forall>u \<in> fst ` set ((t, k') # cs). b \<le> u" by auto
    with "2.prems" show ?thesis using decisions_late [of "(t, k') # cs" b k a l] by simp
  next
    case False
    show ?thesis
    proof (cases "k' = k")
      case other: False
      with "2.IH" "2.prems" show ?thesis by (simp add: lookup_entry_allow_other)
    next
      case True
      with False "2.prems" have cur: "current_entry t k l = lookup_entry l k"
        by (intro current_entry_same_window) auto
      with True "2.prems" have "lookup_entry ?l' k =
          (if count (lookup_entry l k) < limit l
           then (lookup_entry l k)\<lparr>count := count (lookup_entry l k) + 1\<rparr> else lookup_entry l k)"
        by (simp add: lookup_entry_allow_key)
      with True "2.IH" "2.prems" cur show ?thesis by (auto simp: allow_Allowed split: if_splits)
    qed
  qed
qed

text \<open>From instant \<open>a\<close> on, at most one new window starts before \<open>a + window\<close>.\<close>

lemma admitted_from:
  assumes "sorted (map fst cs)" "0 < limit l" "0 < window l" "window l \<le> max_int64" "limiter_ok l"
    and "\<forall>t \<in> fst ` set cs. a \<le> t \<and> t \<noteq> zero_time"
  shows "admitted k a (a + window l) (decisions l cs) \<le> 2 * limit l - count (lookup_entry l k)"
  using assms
proof (induction l cs rule: decisions.induct)
  case (1 l)
  then show ?case
    by (auto simp: lookup_entry_def zero_entry_def limiter_ok_def split: option.splits) (smt (verit))
next
  case (2 l t k' cs)
  let ?l' = "snd (allow t k' l)"
  have ok': "limiter_ok ?l'" using "2.prems" by (simp add: limiter_ok_allow)
  have IH: "admitted k a (a + window l) (decisions ?l' cs) \<le> 2 * limit l - count (lookup_entry ?l' k)"
    using "2.IH" "2.prems" ok' by simp
  show ?case
  proof (cases "k' = k \<and> current_entry t k l \<noteq> lookup_entry l k")
    case False
    with IH "2.prems" show ?thesis
      by (cases "k' = k") (auto simp: lookup_entry_allow_other lookup_entry_allow_key allow_Allowed split: if_splits)
  next
    case True
    then have cur: "current_entry t k l = \<lparr>windowStart = t, count = 0\<rparr>" and k': "k' = k"
      by (auto simp: current_entry_def Let_def split: if_splits)
    with "2.prems" have look: "lookup_entry ?l' k = \<lparr>windowStart = t, count = 1\<rparr>"
      by (simp add: lookup_entry_allow_key)
    have "admitted k a (a + window l) (decisions ?l' cs) \<le> limit l - 1"
      using admitted_same_window [of cs ?l' k "a + window l" a] "2.prems" look by simp
    moreover have "count (lookup_entry l k) \<le> limit l"
      using "2.prems" by (auto simp: lookup_entry_def zero_entry_def limiter_ok_def split: option.splits)
    ultimately show ?thesis using k' by simp
  qed
qed

lemma admitted_any:
  assumes "sorted (map fst cs)" "0 < limit l" "0 < window l" "window l \<le> max_int64" "limiter_ok l"
    and "zero_time \<notin> fst ` set cs"
  shows "admitted k a (a + window l) (decisions l cs) \<le> 2 * limit l"
  using assms
proof (induction l cs rule: decisions.induct)
  case (2 l t k' cs)
  show ?case
  proof (cases "a \<le> t")
    case True
    with "2.prems"(1) have "\<forall>u \<in> fst ` set ((t, k') # cs). a \<le> u" by auto
    with "2.prems"(6) have "\<forall>u \<in> fst ` set ((t, k') # cs). a \<le> u \<and> u \<noteq> zero_time" by blast
    with "2.prems" have "admitted k a (a + window l) (decisions l ((t, k') # cs))
        \<le> 2 * limit l - count (lookup_entry l k)"
      by (intro admitted_from) auto
    moreover have "0 \<le> count (lookup_entry l k)"
      using "2.prems" by (auto simp: lookup_entry_def zero_entry_def limiter_ok_def split: option.splits)
    ultimately show ?thesis by simp
  next
    case False
    with "2.IH" "2.prems" show ?thesis by (simp add: limiter_ok_allow)
  qed
qed simp

text \<open>
  C31. In any stretch of time as long as the window, however the calls of other keys are
  interleaved, a key is admitted at most twice its limit: the tail of one window and the
  head of the next.
\<close>
theorem limiter_two_window_bound:
  assumes "0 < lim" "0 < w" "w \<le> max_int64" "sorted (map fst calls)" "zero_time \<notin> fst ` set calls"
  shows "admitted k a (a + w) (decisions (NewFixedWindowLimiter lim w) calls) \<le> 2 * lim"
  using admitted_any [of calls "NewFixedWindowLimiter lim w" k a] assms limiter_ok_new
  by (simp add: NewFixedWindowLimiter_def)

lemma limiter_two_window_bound_witness:
  "admitted ''a'' 59 119 (decisions (NewFixedWindowLimiter 1 60) [(1, ''a''), (60, ''a''), (61, ''a''), (90, ''b''), (91, ''a'')])
     \<le> 2 * 1"
  using limiter_two_window_bound [of 1 60 "[(1, ''a''), (60, ''a''), (61, ''a''), (90, ''b''), (91, ''a'')]" "''a''" 59]
  by (simp add: zero_time_def)

text \<open>Inside one window a run of one key is admitted up to what is left, then refused.\<close>

lemma decisions_in_window:
  assumes "0 < limit l" "0 < window l" "window l \<le> max_int64"
    and "windowStart (lookup_entry l k) \<noteq> zero_time"
    and "\<forall>t \<in> set ts. t < windowStart (lookup_entry l k) + window l"
    and "count (lookup_entry l k) \<le> limit l"
  shows "verdicts (decisions l (map (\<lambda>t. (t, k)) ts)) =
    map (\<lambda>i. int i < limit l - count (lookup_entry l k)) [0..<length ts]"
  using assms
proof (induction ts arbitrary: l)
  case Nil
  then show ?case by simp
next
  case (Cons t ts)
  let ?l' = "snd (allow t k l)"
  have cur: "current_entry t k l = lookup_entry l k"
    using Cons.prems by (intro current_entry_same_window) auto
  then have look: "lookup_entry ?l' k =
      (if count (lookup_entry l k) < limit l
       then (lookup_entry l k)\<lparr>count := count (lookup_entry l k) + 1\<rparr> else lookup_entry l k)"
    using Cons.prems by (simp add: lookup_entry_allow_key)
  have IH: "verdicts (decisions ?l' (map (\<lambda>t. (t, k)) ts)) =
      map (\<lambda>i. int i < limit l - count (lookup_entry ?l' k)) [0..<length ts]"
    using Cons.IH [of ?l'] Cons.prems look by (auto split: if_splits)
  have "[0..<length (t # ts)] = 0 # map Suc [0..<length ts]"
    by (simp add: map_Suc_upt upt_conv_Cons del: upt_Suc)
  with IH look cur Cons.prems show ?case
    by (auto simp: allow_Allowed comp_def algebra_simps split: if_splits)
qed

text \<open>
  A key the limiter has not counted yet gets exactly its limit: of a run of calls
  inside one window the first \<open>limit\<close> are admitted and every later one is refused.
\<close>
lemma limiter_admits_first_calls:
  assumes "0 < limit l" "0 < window l" "window l \<le> max_int64" "entries l k = None" "t0 \<noteq> zero_time"
    and "\<forall>t \<in> set ts. t < t0 + window l"
  shows "verdicts (decisions l (map (\<lambda>t. (t, k)) (t0 # ts))) =
    map (\<lambda>i. int i < limit l) [0..<Suc (length ts)]"
proof -
  have cur: "current_entry t0 k l = \<lparr>windowStart = t0, count = 0\<rparr>"
    using assms(4) by (simp add: current_entry_def lookup_entry_def zero_entry_def IsZero_def)
  then have look: "lookup_entry (snd (allow t0 k l)) k = \<lparr>windowStart = t0, count = 1\<rparr>"
    using assms(1,2) by (simp add: lookup_entry_allow_key)
  have "verdicts (decisions (snd (allow t0 k l)) (map (\<lambda>t. (t, k)) ts)) =
      map (\<lambda>i. int i < limit l - 1) [0..<length ts]"
    using decisions_in_window [of "snd (allow t0 k l)" k ts] look assms by simp
  moreover have "[0..<Suc (length ts)] = 0 # map Suc [0..<length ts]"
    by (simp add: map_Suc_upt upt_conv_Cons del: upt_Suc)
  ultimately show ?thesis using cur assms(1,2) by (auto simp: allow_Allowed comp_def)
qed

lemma limiter_admits_first_calls_witness:
  "verdicts (decisions (NewFixedWindowLimiter 2 60) (map (\<lambda>t. (t, ''a'')) [5, 6, 7, 8])) =
    [True, True, False, False]"
  using limiter_admits_first_calls [of "NewFixedWindowLimiter 2 60" "''a''" 5 "[6, 7, 8]"]
  by (simp add: NewFixedWindowLimiter_def zero_time_def upt_rec)

text \<open>
  C32. The advice of a refusal is exact: a refused caller that leaves its key alone is
  refused until \<open>RetryAfter\<close> has passed and admitted from then on.
\<close>
theorem limiter_retry_after_exact:
  assumes "0 < limit l" "0 < window l" "window l \<le> max_int64"
    and "windowStart (lookup_entry l k) \<le> now" "now \<le> t"
    and "\<not> Allowed (fst (allow now k l))"
  shows "Allowed (fst (allow t k (snd (allow now k l)))) \<longleftrightarrow> now + RetryAfter (fst (allow now k l)) \<le> t"
proof -
  have full0: "limit l \<le> count (current_entry now k l)"
    using assms(1,2,6) by (simp add: allow_Allowed)
  then have nr: "\<not> (IsZero (windowStart (lookup_entry l k)) \<or> window l \<le> time_Sub now (windowStart (lookup_entry l k)))"
    using assms(1) by (auto simp: current_entry_def Let_def)
  then have cur: "current_entry now k l = lookup_entry l k"
    by (simp add: current_entry_def Let_def)
  with full0 have full: "limit l \<le> count (lookup_entry l k)" by simp
  from nr have nz: "windowStart (lookup_entry l k) \<noteq> zero_time"
    and lt: "now < windowStart (lookup_entry l k) + window l"
    using assms(2,3) by (auto simp: IsZero_def time_Sub_ge_iff)
  have sub: "time_Sub now (windowStart (lookup_entry l k)) = now - windowStart (lookup_entry l k)"
    using assms(3,4) lt by (intro time_Sub_exact) auto
  have "RetryAfter (fst (allow now k l)) = windowStart (lookup_entry l k) + window l - now"
    using assms(1-4) cur full sub lt by (simp add: allow_def Let_def wrap64_id)
  moreover have "Allowed (fst (allow t k l)) \<longleftrightarrow> windowStart (lookup_entry l k) + window l \<le> t"
  proof (cases "windowStart (lookup_entry l k) + window l \<le> t")
    case True
    then have "current_entry t k l = \<lparr>windowStart = t, count = 0\<rparr>"
      using assms(2,3) by (simp add: current_entry_def Let_def time_Sub_ge_iff)
    with True assms(1,2) show ?thesis by (simp add: allow_Allowed)
  next
    case False
    with nz assms(2,3) have "current_entry t k l = lookup_entry l k"
      by (intro current_entry_same_window) auto
    with False full assms(1,2) show ?thesis by (simp add: allow_Allowed)
  qed
  ultimately show ?thesis using assms(6) by (auto simp: allow_denied_same)
qed

lemma limiter_retry_after_exact_witness:
  "let l = snd (allow 5 ''a'' (NewFixedWindowLimiter 1 60)) in
   Allowed (fst (allow 65 ''a'' (snd (allow 10 ''a'' l)))) \<longleftrightarrow> 10 + RetryAfter (fst (allow 10 ''a'' l)) \<le> 65"
proof -
  let ?l = "snd (allow 5 ''a'' (NewFixedWindowLimiter 1 60))"
  have l: "?l = \<lparr>limit = 1, window = 60, entries = [''a'' \<mapsto> \<lparr>windowStart = 5, count = 1\<rparr>]\<rparr>"
    by (simp add: allow_def NewFixedWindowLimiter_def current_entry_def lookup_entry_def zero_entry_def IsZero_def Let_def)
  have cur: "current_entry 10 ''a'' ?l = \<lparr>windowStart = 5, count = 1\<rparr>"
    unfolding l by (simp add: current_entry_def lookup_entry_def IsZero_def zero_time_def time_Sub_def)
  have "\<not> Allowed (fst (allow 10 ''a'' ?l))"
    by (subst allow_Allowed) (simp_all only: cur, simp_all add: l)
  moreover have "limit ?l = 1" "window ?l = 60" "windowStart (lookup_entry ?l ''a'') = 5"
    by (simp_all add: l lookup_entry_def)
  ultimately show ?thesis
    using limiter_retry_after_exact [of ?l "''a''" 10 65] by (simp only: Let_def) simp
qed

end
