(* ===== verification/Auth.thy ===== *)
theory Auth
  imports Go_Strings
begin

text \<open>
  \<open>internal/auth\<close>: generated passwords, their hashing, and session tokens. The random bytes
  that \<open>rand.Read\<close> fills a buffer with, and the bcrypt and uuid packages, are parameters:
  \<open>rand_read n\<close> is what reading \<open>n\<close> bytes gives, \<open>gen\<close> is \<open>bcrypt.GenerateFromPassword\<close>
  with the salt it drew as an argument, \<open>cmp\<close> says whether
  \<open>bcrypt.CompareHashAndPassword\<close> returned nil, and a drawn uuid is the token.
\<close>

type_synonym bcrypt_gen = "string \<Rightarrow> int \<Rightarrow> string \<Rightarrow> string result"
type_synonym bcrypt_cmp = "string \<Rightarrow> string \<Rightarrow> bool"

definition GeneratedPasswordLength :: nat where
  "GeneratedPasswordLength = 32"

definition passwordAlphabet :: string where
  "passwordAlphabet = ''abcdefghijkmnpqrstuvwxyzABCDEFGHJKLMNPQRSTUVWXYZ23456789''"

text \<open>The letter of one random byte; \<open>byte(len(passwordAlphabet))\<close> is taken modulo 256.\<close>

definition password_letter :: "char \<Rightarrow> char" where
  "password_letter b = (let n = length passwordAlphabet mod 256 in passwordAlphabet ! (byte b mod n))"

definition GeneratePassword :: "(nat \<Rightarrow> string result) \<Rightarrow> string result" where
  "GeneratePassword rand_read =
     (case rand_read GeneratedPasswordLength of
        Inl e \<Rightarrow> Inl (Wrap ''generate password'' e)
      | Inr bytes \<Rightarrow> Inr (map password_letter bytes))"

definition HashPassword :: "bcrypt_gen \<Rightarrow> string \<Rightarrow> string \<Rightarrow> int \<Rightarrow> string result" where
  "HashPassword gen salt plain cost =
     (case gen plain cost salt of Inl e \<Rightarrow> Inl (Wrap ''hash password'' e) | Inr hash \<Rightarrow> Inr hash)"

definition VerifyPassword :: "bcrypt_cmp \<Rightarrow> string \<Rightarrow> string \<Rightarrow> bool" where
  "VerifyPassword cmp hash plain = cmp hash plain"

definition NewSessionToken :: "string \<Rightarrow> string" where
  "NewSessionToken uuid = uuid"

text \<open>
  What bcrypt documents: a password of at most 72 bytes hashes at every valid cost, a longer
  one is an error, the hash is not empty and matches the password it was made of.
\<close>

definition bcrypt_contract :: "bcrypt_gen \<Rightarrow> bcrypt_cmp \<Rightarrow> bool" where
  "bcrypt_contract gen cmp \<longleftrightarrow>
     (\<forall>plain cost salt. length plain \<le> 72 \<longrightarrow> 4 \<le> cost \<longrightarrow> cost \<le> 31 \<longrightarrow> (\<exists>h. gen plain cost salt = Inr h)) \<and>
     (\<forall>plain cost salt. 72 < length plain \<longrightarrow> (\<exists>e. gen plain cost salt = Inl e)) \<and>
     (\<forall>plain cost salt h. gen plain cost salt = Inr h \<longrightarrow> h \<noteq> [] \<and> cmp h plain)"

text \<open>A stand-in for bcrypt that keeps the contract, for concrete instances.\<close>

definition toy_gen :: bcrypt_gen where
  "toy_gen plain cost salt = (if length plain \<le> 72 then Inr (CHR ''$'' # plain) else Inl (ErrText ''too long''))"

definition toy_cmp :: bcrypt_cmp where
  "toy_cmp hash plain \<longleftrightarrow> hash = CHR ''$'' # plain"

lemma toy_contract: "bcrypt_contract toy_gen toy_cmp"
  by (auto simp: bcrypt_contract_def toy_gen_def toy_cmp_def)

lemma HashPassword_verifies:
  "bcrypt_contract gen cmp \<Longrightarrow> HashPassword gen salt plain cost = Inr h \<Longrightarrow> h \<noteq> [] \<and> VerifyPassword cmp h plain"
  by (auto simp: bcrypt_contract_def HashPassword_def VerifyPassword_def split: sum.splits)

lemma HashPassword_short:
  "bcrypt_contract gen cmp \<Longrightarrow> length plain \<le> 72 \<Longrightarrow> 4 \<le> cost \<Longrightarrow> cost \<le> 31 \<Longrightarrow>
   \<exists>h. HashPassword gen salt plain cost = Inr h"
  unfolding bcrypt_contract_def HashPassword_def by (elim conjE allE [of _ plain] allE [of _ cost] allE [of _ salt]) auto

lemma HashPassword_long:
  "bcrypt_contract gen cmp \<Longrightarrow> 72 < length plain \<Longrightarrow> \<exists>e. HashPassword gen salt plain cost = Inl e"
  unfolding bcrypt_contract_def HashPassword_def by (elim conjE allE [of _ plain] allE [of _ cost] allE [of _ salt]) auto

section \<open>Generated passwords\<close>

lemma length_passwordAlphabet: "length passwordAlphabet = 56"
  by (simp add: passwordAlphabet_def)

lemma distinct_passwordAlphabet: "distinct passwordAlphabet"
  unfolding passwordAlphabet_def by code_simp

lemma password_letter_index: "password_letter b = passwordAlphabet ! (byte b mod 56)"
  by (simp add: password_letter_def length_passwordAlphabet)

lemma password_letter_in: "password_letter b \<in> set passwordAlphabet"
  by (simp add: password_letter_index length_passwordAlphabet)

lemma passwordAlphabet_ascii: "ascii passwordAlphabet"
  unfolding passwordAlphabet_def by (simp add: byte_def)

lemma passwordAlphabet_clear: "set passwordAlphabet \<inter> set ''0O1lI'' = {}"
  unfolding passwordAlphabet_def by code_simp

text \<open>
  A generated password is 32 ASCII letters and digits without the ambiguous ones, within
  the 72 bytes bcrypt takes, so at every cost the configuration allows it hashes, and the hash
  verifies it.
\<close>
lemma generated_password_hashes:
  assumes "GeneratePassword rand_read = Inr pw" "\<forall>n bytes. rand_read n = Inr bytes \<longrightarrow> length bytes = n"
    and "bcrypt_contract gen cmp" "4 \<le> cost" "cost \<le> 31"
  shows "length pw = 32 \<and> set pw \<subseteq> set passwordAlphabet \<and> set pw \<inter> set ''0O1lI'' = {}
    \<and> (\<exists>h. HashPassword gen salt pw cost = Inr h \<and> h \<noteq> [] \<and> VerifyPassword cmp h pw)"
proof -
  obtain bytes where r: "rand_read GeneratedPasswordLength = Inr bytes" and pw: "pw = map password_letter bytes"
    using assms(1) by (auto simp: GeneratePassword_def split: sum.splits)
  then have len: "length pw = 32" using assms(2) by (auto simp: GeneratedPasswordLength_def)
  have "set pw \<subseteq> set passwordAlphabet" using pw password_letter_in by auto
  moreover obtain h where "HashPassword gen salt pw cost = Inr h"
    using HashPassword_short [OF assms(3) _ assms(4,5), of pw salt] len by auto
  ultimately show ?thesis
    using len passwordAlphabet_clear HashPassword_verifies [OF assms(3)] by auto
qed

lemma generated_password_hashes_witness:
  "length (replicate 32 (CHR ''a'')) = 32 \<and>
   (\<exists>h. HashPassword toy_gen [] (replicate 32 (CHR ''a'')) 10 = Inr h \<and> h \<noteq> [] \<and> VerifyPassword toy_cmp h (replicate 32 (CHR ''a'')))"
proof -
  have "GeneratePassword (\<lambda>n. Inr (replicate n (CHR 0x00))) = Inr (replicate 32 (CHR ''a''))"
    by (simp add: GeneratePassword_def GeneratedPasswordLength_def password_letter_index byte_def passwordAlphabet_def)
  from generated_password_hashes [OF this _ toy_contract, of 10 "[]"] show ?thesis by simp
qed

text \<open>
  The letters are not equally likely: of the 256 byte values five give each of the first
  32 letters of the alphabet and four each of the other 24.
\<close>
lemma password_letter_bias:
  "i < 56 \<Longrightarrow> card {b. password_letter b = passwordAlphabet ! i} = (if i < 32 then 5 else 4)"
proof -
  assume i: "i < 56"
  have eq: "password_letter b = passwordAlphabet ! i \<longleftrightarrow> byte b mod 56 = i" for b
    using i by (simp add: password_letter_index nth_eq_iff_index_eq [OF distinct_passwordAlphabet] length_passwordAlphabet)
  define k where "k = (if i < 32 then 5 else 4 :: nat)"
  let ?f = "\<lambda>q. char_of (56 * q + i) :: char"
  have small: "56 * q + i < 256 \<longleftrightarrow> q < k" for q
    using i by (auto simp: k_def)
  have f: "byte (?f q) = 56 * q + i" if "q < k" for q
    using that small [of q] by (simp add: byte_def)
  have "{b. password_letter b = passwordAlphabet ! i} = ?f ` {..<k}"
  proof (intro equalityI subsetI)
    fix b
    assume "b \<in> {b. password_letter b = passwordAlphabet ! i}"
    then have "byte b = 56 * (byte b div 56) + i" using eq by (metis mem_Collect_eq mult_div_mod_eq)
    moreover from this have "byte b div 56 < k" using small [of "byte b div 56"] by (simp add: byte_def)
    moreover have "b = char_of (byte b)" by (simp add: byte_def)
    ultimately show "b \<in> ?f ` {..<k}" by (metis (no_types, lifting) imageI lessThan_iff)
  qed (use eq f i in auto)
  moreover have "inj_on ?f {..<k}"
    by (rule inj_onI) (metis f lessThan_iff add_right_cancel mult_left_cancel zero_neq_numeral)
  ultimately show ?thesis by (simp add: card_image k_def)
qed

lemma password_letter_bias_witness: "card {b. password_letter b = CHR ''a''} = 5"
  using password_letter_bias [of 0] by (simp add: passwordAlphabet_def)

end
