(* ===== verification/Models.thy ===== *)
theory Models
  imports Prelude
begin

text \<open>
  \<open>internal/models\<close>: the values the repository hands to the HTTP and SMTP layers. Instants
  are in nanoseconds from the epoch, ids and sizes are \<open>int64\<close> values, content is bytes.
\<close>

record Inbox =
  Inbox_ID :: int
  Inbox_Address :: string
  Inbox_LocalPart :: string
  Inbox_Token :: string
  Inbox_PasswordHash :: string
  Inbox_CreatedAt :: int
  Inbox_LastAccessedAt :: int
  Inbox_ExpiresAt :: int

record Session =
  Session_Token :: string
  Session_InboxID :: int
  Session_CreatedAt :: int
  Session_ExpiresAt :: int

record Email =
  Email_ID :: int
  Email_InboxID :: int
  Email_MessageID :: string
  Email_Sender :: string
  Email_SenderName :: string
  Email_Recipient :: string
  Email_Subject :: string
  Email_BodyHTML :: string
  Email_BodyText :: string
  Email_RawHeaders :: string
  Email_SizeBytes :: int
  Email_HasAttachments :: bool
  Email_ReceivedAt :: int
  Email_IsRead :: bool

record Domain =
  Domain_ID :: int
  Domain_Name :: string
  Domain_Enabled :: bool
  Domain_CreatedAt :: int

record Attachment =
  Attachment_ID :: int
  Attachment_EmailID :: int
  Attachment_Filename :: string
  Attachment_ContentType :: string
  Attachment_SizeBytes :: int
  Attachment_Content :: string

end
