(* ===== verification/Sqlite_Db.thy ===== *)
theory Sqlite_Db
  imports Models Go_Strings "HOL-Library.Product_Lexorder"
begin

text \<open>
  The database behind \<open>internal/repository\<close>: the tables of the four migrations, how a
  statement of \<open>sqlite.go\<close> runs on them, and the conversions between rows and models.

  A table is the list of its rows in rowid order; an \<open>AUTOINCREMENT\<close> table has the counter
  that SQLite keeps for it. A nullable column is an option. \<open>UNIQUE\<close> columns declared
  \<open>COLLATE NOCASE\<close> compare with the ASCII letters folded. Foreign keys are enforced and
  cascade (\<open>PRAGMA foreign_keys = ON\<close>). Beside the constraints, a statement can fail for
  reasons outside the model (a cancelled request, a full disk): the \<open>db_faults\<close> schedule
  says, statement by statement, whether it fails that way and with which text, and a
  property that holds for every schedule holds for every such failure.
\<close>

section \<open>Tables\<close>

record inbox_row =
  ir_id :: int
  ir_address :: string
  ir_local_part :: string
  ir_token :: string
  ir_password_hash :: string
  ir_created_at :: int
  ir_last_accessed_at :: int
  ir_expires_at :: int

record email_row =
  er_id :: int
  er_inbox_id :: int
  er_message_id :: "string option"
  er_sender :: string
  er_sender_name :: "string option"
  er_recipient :: string
  er_subject :: string
  er_body_html :: "string option"
  er_body_text :: "string option"
  er_raw_headers :: "string option"
  er_size_bytes :: int
  er_has_attachments :: int
  er_received_at :: int
  er_is_read :: int

record attachment_row =
  ar_id :: int
  ar_email_id :: int
  ar_filename :: string
  ar_content_type :: string
  ar_size_bytes :: int
  ar_content :: string

record domain_row =
  dr_id :: int
  dr_name :: string
  dr_enabled :: int
  dr_created_at :: int

record session_row =
  sr_token :: string
  sr_inbox_id :: int
  sr_created_at :: int
  sr_expires_at :: int

record setting_row =
  tr_key :: string
  tr_value :: string
  tr_updated_at :: int

record db =
  db_inboxes :: "inbox_row list"
  db_emails :: "email_row list"
  db_attachments :: "attachment_row list"
  db_domains :: "domain_row list"
  db_sessions :: "session_row list"
  db_settings :: "setting_row list"
  db_inboxes_seq :: int
  db_emails_seq :: int
  db_attachments_seq :: int
  db_domains_seq :: int
  db_faults :: "string option list"

text \<open>The database after the migrations on an empty file.\<close>

definition empty_db :: db where
  "empty_db = \<lparr>db_inboxes = [], db_emails = [], db_attachments = [], db_domains = [], db_sessions = [],
     db_settings = [], db_inboxes_seq = 0, db_emails_seq = 0, db_attachments_seq = 0, db_domains_seq = 0,
     db_faults = []\<rparr>"

section \<open>Statements\<close>

definition run_stmt :: "(db \<Rightarrow> 'a result \<times> db) \<Rightarrow> db \<Rightarrow> 'a result \<times> db" where
  "run_stmt f d =
     (case db_faults d of
        [] \<Rightarrow> f d
      | None # fs \<Rightarrow> f (d\<lparr>db_faults := fs\<rparr>)
      | Some msg # fs \<Rightarrow> (Inl (ErrText msg), d\<lparr>db_faults := fs\<rparr>))"

text \<open>
  \<open>QueryRowContext(...).Scan(...)\<close> reads the first row of the answer, \<open>QueryContext\<close> all
  rows, and \<open>ExecContext\<close> of an UPDATE or DELETE answers the number of rows affected.
\<close>

definition query_row :: "(db \<Rightarrow> 'r list) \<Rightarrow> db \<Rightarrow> 'r result \<times> db" where
  "query_row q = run_stmt (\<lambda>d. (case q d of [] \<Rightarrow> Inl ErrNoRows | r # _ \<Rightarrow> Inr r, d))"

definition query :: "(db \<Rightarrow> 'r list) \<Rightarrow> db \<Rightarrow> 'r list result \<times> db" where
  "query q = run_stmt (\<lambda>d. (Inr (q d), d))"

definition exec_count :: "(db \<Rightarrow> nat) \<Rightarrow> (db \<Rightarrow> db) \<Rightarrow> db \<Rightarrow> nat result \<times> db" where
  "exec_count n f = run_stmt (\<lambda>d. (Inr (n d), f d))"

definition unique_failed :: "string \<Rightarrow> go_err" where
  "unique_failed col = ErrText (''constraint failed: UNIQUE constraint failed: '' @ col @ '' (2067)'')"

definition primary_key_failed :: "string \<Rightarrow> go_err" where
  "primary_key_failed col = ErrText (''constraint failed: UNIQUE constraint failed: '' @ col @ '' (1555)'')"

definition foreign_key_failed :: go_err where
  "foreign_key_failed = ErrText ''constraint failed: FOREIGN KEY constraint failed (787)''"

section \<open>Helpers of the repository\<close>

definition mapScanError :: "string \<Rightarrow> go_err \<Rightarrow> go_err" where
  "mapScanError op e = (if err_is e ErrNoRows then Wrap op ErrNotFound else Wrap op e)"

definition mapSQLError :: "(nat \<Rightarrow> nat) \<Rightarrow> string \<Rightarrow> go_err \<Rightarrow> go_err" where
  "mapSQLError ul op e =
     (let lower = ToLower ul (error_text e) in
      if Contains lower ''unique constraint failed'' then Wrap op ErrConflict else Wrap op e)"

definition requireRowsAffected :: "string \<Rightarrow> nat \<Rightarrow> unit result" where
  "requireRowsAffected op n = (if n = 0 then Inl (Wrap op ErrNotFound) else Inr ())"

definition nullableString :: "string \<Rightarrow> string option" where
  "nullableString v = (if v = [] then None else Some v)"

definition defaultString :: "string \<Rightarrow> string \<Rightarrow> string" where
  "defaultString v fallback = (if v = [] then fallback else v)"

definition boolToInt :: "bool \<Rightarrow> int" where
  "boolToInt v = (if v then 1 else 0)"

text \<open>\<open>sql.NullString.String\<close>: the empty string for NULL.\<close>

definition null_string :: "string option \<Rightarrow> string" where
  "null_string c = (case c of None \<Rightarrow> [] | Some s \<Rightarrow> s)"

definition scanInbox :: "inbox_row \<Rightarrow> Inbox" where
  "scanInbox r = \<lparr>Inbox_ID = ir_id r, Inbox_Address = ir_address r, Inbox_LocalPart = ir_local_part r,
     Inbox_Token = ir_token r, Inbox_PasswordHash = ir_password_hash r, Inbox_CreatedAt = fromUnix (ir_created_at r),
     Inbox_LastAccessedAt = fromUnix (ir_last_accessed_at r), Inbox_ExpiresAt = fromUnix (ir_expires_at r)\<rparr>"

definition scanDomain :: "domain_row \<Rightarrow> Domain" where
  "scanDomain r = \<lparr>Domain_ID = dr_id r, Domain_Name = dr_name r, Domain_Enabled = (dr_enabled r \<noteq> 0),
     Domain_CreatedAt = fromUnix (dr_created_at r)\<rparr>"

definition scanEmailRow :: "email_row \<Rightarrow> Email" where
  "scanEmailRow r = \<lparr>Email_ID = er_id r, Email_InboxID = er_inbox_id r, Email_MessageID = null_string (er_message_id r),
     Email_Sender = er_sender r, Email_SenderName = null_string (er_sender_name r), Email_Recipient = er_recipient r,
     Email_Subject = er_subject r, Email_BodyHTML = null_string (er_body_html r),
     Email_BodyText = null_string (er_body_text r), Email_RawHeaders = null_string (er_raw_headers r),
     Email_SizeBytes = er_size_bytes r, Email_HasAttachments = (er_has_attachments r \<noteq> 0),
     Email_ReceivedAt = fromUnix (er_received_at r), Email_IsRead = (er_is_read r \<noteq> 0)\<rparr>"

definition scanAttachmentRow :: "attachment_row \<Rightarrow> Attachment" where
  "scanAttachmentRow r = \<lparr>Attachment_ID = ar_id r, Attachment_EmailID = ar_email_id r, Attachment_Filename = ar_filename r,
     Attachment_ContentType = ar_content_type r, Attachment_SizeBytes = ar_size_bytes r, Attachment_Content = ar_content r\<rparr>"

definition scanSession :: "session_row \<Rightarrow> Session" where
  "scanSession r = \<lparr>Session_Token = sr_token r, Session_InboxID = sr_inbox_id r,
     Session_CreatedAt = fromUnix (sr_created_at r), Session_ExpiresAt = fromUnix (sr_expires_at r)\<rparr>"

lemma null_nullable [simp]: "null_string (nullableString s) = s"
  by (simp add: null_string_def nullableString_def)

lemma boolToInt_eq_0 [simp]: "boolToInt b = 0 \<longleftrightarrow> \<not> b"
  by (simp add: boolToInt_def)

lemma boolToInt_eq_1 [simp]: "boolToInt b = 1 \<longleftrightarrow> b"
  by (simp add: boolToInt_def)

lemma boolToInt_01: "boolToInt b \<in> {0, 1}"
  by (simp add: boolToInt_def)

lemma err_is_mapScanError [go_error]:
  "err_is (mapScanError op e) ErrNotFound \<longleftrightarrow> err_is e ErrNoRows \<or> err_is e ErrNotFound"
  by (simp add: mapScanError_def)

text \<open>SQLite's uniqueness errors are recognised; its foreign-key error is not one of them.\<close>

lemma lower_literal: "nocase ''constraint failed: UNIQUE constraint failed: '' = ''constraint failed: unique constraint failed: ''"
  by code_simp

lemma mapSQLError_unique:
  assumes "ascii col"
  shows "mapSQLError ul op (unique_failed col) = Wrap op ErrConflict"
    and "mapSQLError ul op (primary_key_failed col) = Wrap op ErrConflict"
proof -
  have "Contains (''constraint failed: unique constraint failed: '' @ t) ''unique constraint failed''" for t
    unfolding Contains_iff
    by (rule exI [of _ "''constraint failed: ''"], rule exI [of _ "'': '' @ t"]) simp
  moreover have "ascii (''constraint failed: UNIQUE constraint failed: '' @ col @ '' (2067)'')"
    "ascii (''constraint failed: UNIQUE constraint failed: '' @ col @ '' (1555)'')"
    using assms by (simp_all add: byte_def)
  ultimately show "mapSQLError ul op (unique_failed col) = Wrap op ErrConflict"
    and "mapSQLError ul op (primary_key_failed col) = Wrap op ErrConflict"
    unfolding mapSQLError_def unique_failed_def primary_key_failed_def error_text.simps Let_def
    by (simp_all only: ToLower_ascii nocase_append lower_literal if_True)
qed

lemma mapSQLError_foreign_key: "mapSQLError ul op foreign_key_failed = Wrap op foreign_key_failed"
proof -
  have a: "ascii ''constraint failed: FOREIGN KEY constraint failed (787)''" by (simp add: byte_def)
  have "\<not> Contains (nocase ''constraint failed: FOREIGN KEY constraint failed (787)'') ''unique constraint failed''"
    by (simp add: nocase_def lower_byte_def byte_def Contains_def HasPrefix_def)
  with a show ?thesis by (simp add: mapSQLError_def foreign_key_failed_def ToLower_ascii)
qed

end
