(* ===== verification/Repository.thy ===== *)
theory Repository
  imports Sqlite_Db
begin

text \<open>
  \<open>internal/repository/sqlite.go\<close>: the operations of the \<open>Repository\<close> interface, each the
  SQL statements it runs in their order. An operation takes the database and returns its
  result with the database it leaves; \<open>now\<close> is the instant of the call, whose seconds are
  both \<open>nowUnix()\<close> and SQLite's \<open>unixepoch()\<close>. \<open>LastInsertId\<close> and \<open>RowsAffected\<close> do
  not fail with this driver.
\<close>

section \<open>Inboxes\<close>

text \<open>\<open>INSERT INTO inboxes\<close> answers the new id.\<close>

definition insert_inbox :: "int \<Rightarrow> Inbox \<Rightarrow> db \<Rightarrow> int result \<times> db" where
  "insert_inbox now inbox d =
     (if \<exists>r \<in> set (db_inboxes d). nocase (ir_address r) = nocase (Inbox_Address inbox)
      then (Inl (unique_failed ''inboxes.address''), d)
      else if \<exists>r \<in> set (db_inboxes d). ir_token r = Inbox_Token inbox
      then (Inl (unique_failed ''inboxes.token''), d)
      else let rid = db_inboxes_seq d + 1 in
        (Inr rid, d\<lparr>db_inboxes := db_inboxes d @ [\<lparr>
             ir_id = rid, ir_address = Inbox_Address inbox, ir_local_part = Inbox_LocalPart inbox,
             ir_token = Inbox_Token inbox, ir_password_hash = Inbox_PasswordHash inbox,
             ir_created_at = toUnix now, ir_last_accessed_at = toUnix now,
             ir_expires_at = toUnix (Inbox_ExpiresAt inbox)\<rparr>],
           db_inboxes_seq := rid\<rparr>))"

definition CreateInbox :: "(nat \<Rightarrow> nat) \<Rightarrow> int \<Rightarrow> Inbox \<Rightarrow> db \<Rightarrow> Inbox result \<times> db" where
  "CreateInbox ul now inbox d =
     (case run_stmt (insert_inbox now inbox) d of
        (Inl e, d1) \<Rightarrow> (Inl (mapSQLError ul ''create inbox'' e), d1)
      | (Inr rid, d1) \<Rightarrow>
          (case query_row (\<lambda>d. filter (\<lambda>r. ir_id r = rid) (db_inboxes d)) d1 of
             (Inl e, d2) \<Rightarrow> (Inl (mapScanError ''create inbox'' e), d2)
           | (Inr r, d2) \<Rightarrow>
               (Inr (inbox\<lparr>Inbox_ID := ir_id r, Inbox_CreatedAt := fromUnix (ir_created_at r),
                     Inbox_LastAccessedAt := fromUnix (ir_last_accessed_at r)\<rparr>), d2)))"

definition scan_one :: "string \<Rightarrow> ('r \<Rightarrow> 'm) \<Rightarrow> 'r result \<times> db \<Rightarrow> 'm result \<times> db" where
  "scan_one op scan res =
     (case res of (Inl e, d) \<Rightarrow> (Inl (mapScanError op e), d) | (Inr r, d) \<Rightarrow> (Inr (scan r), d))"

definition GetInboxByToken :: "int \<Rightarrow> string \<Rightarrow> db \<Rightarrow> Inbox result \<times> db" where
  "GetInboxByToken now token d = scan_one ''get inbox by token'' scanInbox
     (query_row (\<lambda>d. filter (\<lambda>r. ir_token r = token \<and> toUnix now < ir_expires_at r) (db_inboxes d)) d)"

definition GetInboxByAddress :: "string \<Rightarrow> db \<Rightarrow> Inbox result \<times> db" where
  "GetInboxByAddress address d = scan_one ''get inbox by address'' scanInbox
     (query_row (\<lambda>d. filter (\<lambda>r. nocase (ir_address r) = nocase address) (db_inboxes d)) d)"

text \<open>An UPDATE or DELETE that must hit at least one row, and one that answers the count.\<close>

definition update_required :: "string \<Rightarrow> nat result \<times> db \<Rightarrow> unit result \<times> db" where
  "update_required op res =
     (case res of (Inl e, d) \<Rightarrow> (Inl (Wrap op e), d) | (Inr n, d) \<Rightarrow> (requireRowsAffected op n, d))"

definition delete_count :: "string \<Rightarrow> nat result \<times> db \<Rightarrow> nat result \<times> db" where
  "delete_count op res = (case res of (Inl e, d) \<Rightarrow> (Inl (Wrap op e), d) | (Inr n, d) \<Rightarrow> (Inr n, d))"

definition count_rows :: "('r \<Rightarrow> bool) \<Rightarrow> 'r list \<Rightarrow> nat" where
  "count_rows P rows = length (filter P rows)"

definition update_rows :: "('r \<Rightarrow> bool) \<Rightarrow> ('r \<Rightarrow> 'r) \<Rightarrow> 'r list \<Rightarrow> 'r list" where
  "update_rows P f rows = map (\<lambda>r. if P r then f r else r) rows"

definition UpdateLastAccessed :: "int \<Rightarrow> int \<Rightarrow> db \<Rightarrow> unit result \<times> db" where
  "UpdateLastAccessed now inboxID d = update_required ''update last accessed''
     (exec_count (\<lambda>d. count_rows (\<lambda>r. ir_id r = inboxID) (db_inboxes d))
        (\<lambda>d. d\<lparr>db_inboxes := update_rows (\<lambda>r. ir_id r = inboxID)
                 (\<lambda>r. r\<lparr>ir_last_accessed_at := toUnix now\<rparr>) (db_inboxes d)\<rparr>) d)"

text \<open>The rows a DELETE takes with it through \<open>ON DELETE CASCADE\<close>.\<close>

definition delete_emails :: "(email_row \<Rightarrow> bool) \<Rightarrow> db \<Rightarrow> db" where
  "delete_emails P d =
     (let gone = er_id ` set (filter P (db_emails d)) in
      d\<lparr>db_emails := filter (\<lambda>r. \<not> P r) (db_emails d),
        db_attachments := filter (\<lambda>r. ar_email_id r \<notin> gone) (db_attachments d)\<rparr>)"

definition delete_inboxes :: "(inbox_row \<Rightarrow> bool) \<Rightarrow> db \<Rightarrow> db" where
  "delete_inboxes P d =
     (let gone = ir_id ` set (filter P (db_inboxes d)) in
      (delete_emails (\<lambda>r. er_inbox_id r \<in> gone) d)
        \<lparr>db_inboxes := filter (\<lambda>r. \<not> P r) (db_inboxes d),
         db_sessions := filter (\<lambda>r. sr_inbox_id r \<notin> gone) (db_sessions d)\<rparr>)"

definition DeleteExpiredInboxes :: "int \<Rightarrow> db \<Rightarrow> nat result \<times> db" where
  "DeleteExpiredInboxes now d = delete_count ''delete expired inboxes''
     (exec_count (\<lambda>d. count_rows (\<lambda>r. ir_expires_at r \<le> toUnix now) (db_inboxes d))
        (delete_inboxes (\<lambda>r. ir_expires_at r \<le> toUnix now)) d)"

section \<open>Emails\<close>

definition insert_email_row :: "int \<Rightarrow> Email \<Rightarrow> db \<Rightarrow> int result \<times> db" where
  "insert_email_row receivedAt email d =
     (if Email_InboxID email \<notin> ir_id ` set (db_inboxes d) then (Inl foreign_key_failed, d)
      else let rid = db_emails_seq d + 1 in
        (Inr rid, d\<lparr>db_emails := db_emails d @ [\<lparr>
             er_id = rid, er_inbox_id = Email_InboxID email, er_message_id = nullableString (Email_MessageID email),
             er_sender = Email_Sender email, er_sender_name = nullableString (Email_SenderName email),
             er_recipient = Email_Recipient email, er_subject = defaultString (Email_Subject email) ''(no subject)'',
             er_body_html = nullableString (Email_BodyHTML email), er_body_text = nullableString (Email_BodyText email),
             er_raw_headers = nullableString (Email_RawHeaders email), er_size_bytes = Email_SizeBytes email,
             er_has_attachments = boolToInt (Email_HasAttachments email), er_received_at = toUnix receivedAt,
             er_is_read = boolToInt (Email_IsRead email)\<rparr>],
           db_emails_seq := rid\<rparr>))"

definition insertEmail :: "(nat \<Rightarrow> nat) \<Rightarrow> int \<Rightarrow> Email \<Rightarrow> db \<Rightarrow> Email result \<times> db" where
  "insertEmail ul now email d =
     (let receivedAt = (if IsZero (Email_ReceivedAt email) then now else Email_ReceivedAt email) in
      case run_stmt (insert_email_row receivedAt email) d of
        (Inl e, d1) \<Rightarrow> (Inl (mapSQLError ul ''save email'' e), d1)
      | (Inr rid, d1) \<Rightarrow> (Inr (email\<lparr>Email_ID := rid, Email_ReceivedAt := receivedAt\<rparr>), d1))"

definition insert_attachment_row :: "Attachment \<Rightarrow> db \<Rightarrow> int result \<times> db" where
  "insert_attachment_row att d =
     (if Attachment_EmailID att \<notin> er_id ` set (db_emails d) then (Inl foreign_key_failed, d)
      else let rid = db_attachments_seq d + 1 in
        (Inr rid, d\<lparr>db_attachments := db_attachments d @ [\<lparr>
             ar_id = rid, ar_email_id = Attachment_EmailID att, ar_filename = Attachment_Filename att,
             ar_content_type = Attachment_ContentType att, ar_size_bytes = Attachment_SizeBytes att,
             ar_content = Attachment_Content att\<rparr>],
           db_attachments_seq := rid\<rparr>))"

definition insertAttachment :: "(nat \<Rightarrow> nat) \<Rightarrow> Attachment \<Rightarrow> db \<Rightarrow> Attachment result \<times> db" where
  "insertAttachment ul att d =
     (case run_stmt (insert_attachment_row att) d of
        (Inl e, d1) \<Rightarrow> (Inl (mapSQLError ul ''save attachment'' e), d1)
      | (Inr rid, d1) \<Rightarrow> (Inr (att\<lparr>Attachment_ID := rid\<rparr>), d1))"

definition SaveEmail :: "(nat \<Rightarrow> nat) \<Rightarrow> int \<Rightarrow> Email \<Rightarrow> db \<Rightarrow> Email result \<times> db" where
  "SaveEmail ul now email d = insertEmail ul now email d"

definition SaveAttachment :: "(nat \<Rightarrow> nat) \<Rightarrow> Attachment \<Rightarrow> db \<Rightarrow> Attachment result \<times> db" where
  "SaveAttachment ul att d = insertAttachment ul att d"

text \<open>The loop over the attachments of one message, each set to the id of the new email.\<close>

fun insert_attachments :: "(nat \<Rightarrow> nat) \<Rightarrow> int \<Rightarrow> Attachment list \<Rightarrow> db \<Rightarrow> Attachment list result \<times> db" where
  "insert_attachments ul emailID [] d = (Inr [], d)"
| "insert_attachments ul emailID (att # atts) d =
     (case insertAttachment ul (att\<lparr>Attachment_EmailID := emailID\<rparr>) d of
        (Inl e, d1) \<Rightarrow> (Inl e, d1)
      | (Inr att', d1) \<Rightarrow>
          (case insert_attachments ul emailID atts d1 of
             (Inl e, d2) \<Rightarrow> (Inl e, d2)
           | (Inr atts', d2) \<Rightarrow> (Inr (att' # atts'), d2)))"

text \<open>
  \<open>BEGIN\<close>, \<open>COMMIT\<close> and \<open>ROLLBACK\<close>; a rollback undoes everything but the passage of the
  fault schedule. A \<open>COMMIT\<close> that fails has been rolled back: the deferred \<open>Rollback\<close> comes too late
  for it in \<open>database/sql\<close>, but a cancelled context rolls back by itself, and so does SQLite after a
  full disk or an I/O error. The failure that leaves the transaction open, a lock held by another
  process on the same file, is outside the model.
\<close>

definition rollback_to :: "db \<Rightarrow> db \<Rightarrow> db" where
  "rollback_to d0 d = d0\<lparr>db_faults := db_faults d\<rparr>"

definition tx_stmt :: "db \<Rightarrow> unit result \<times> db" where
  "tx_stmt = run_stmt (\<lambda>d. (Inr (), d))"

definition SaveInboundMessage ::
  "(nat \<Rightarrow> nat) \<Rightarrow> int \<Rightarrow> Email \<Rightarrow> Attachment list \<Rightarrow> db \<Rightarrow> (Email \<times> Attachment list) result \<times> db" where
  "SaveInboundMessage ul now email atts d =
     (case tx_stmt d of
        (Inl e, d0) \<Rightarrow> (Inl (Wrap ''save inbound message: begin transaction'' e), d0)
      | (Inr _, d0) \<Rightarrow>
          (case insertEmail ul now email d0 of
             (Inl e, d1) \<Rightarrow> (Inl e, rollback_to d0 d1)
           | (Inr email', d1) \<Rightarrow>
               (case insert_attachments ul (Email_ID email') atts d1 of
                  (Inl e, d2) \<Rightarrow> (Inl e, rollback_to d0 d2)
                | (Inr atts', d2) \<Rightarrow>
                    (case tx_stmt d2 of
                       (Inl e, d3) \<Rightarrow>
                         (Inl (Wrap ''save inbound message: commit transaction'' e), rollback_to d0 d3)
                     | (Inr _, d3) \<Rightarrow> (Inr (email', atts'), d3)))))"

definition GetEmailsByInboxID :: "int \<Rightarrow> int \<Rightarrow> int \<Rightarrow> db \<Rightarrow> Email list result \<times> db" where
  "GetEmailsByInboxID inboxID lim offset d =
     (let lim' = (if lim \<le> 0 then 50 else lim); offset' = (if offset < 0 then 0 else offset) in
      case query (\<lambda>d. take (nat lim') (drop (nat offset')
             (sort_key (\<lambda>r. (- er_received_at r, - er_id r))
                (filter (\<lambda>r. er_inbox_id r = inboxID) (db_emails d))))) d of
        (Inl e, d1) \<Rightarrow> (Inl (Wrap ''get emails by inbox id'' e), d1)
      | (Inr rows, d1) \<Rightarrow> (Inr (map scanEmailRow rows), d1))"

definition GetEmailByID :: "int \<Rightarrow> int \<Rightarrow> db \<Rightarrow> Email result \<times> db" where
  "GetEmailByID inboxID emailID d = scan_one ''scan email'' scanEmailRow
     (query_row (\<lambda>d. filter (\<lambda>r. er_inbox_id r = inboxID \<and> er_id r = emailID) (db_emails d)) d)"

definition MarkEmailAsRead :: "int \<Rightarrow> db \<Rightarrow> unit result \<times> db" where
  "MarkEmailAsRead emailID d = update_required ''mark email as read''
     (exec_count (\<lambda>d. count_rows (\<lambda>r. er_id r = emailID) (db_emails d))
        (\<lambda>d. d\<lparr>db_emails := update_rows (\<lambda>r. er_id r = emailID) (\<lambda>r. r\<lparr>er_is_read := 1\<rparr>) (db_emails d)\<rparr>) d)"

definition GetUnreadCount :: "int \<Rightarrow> db \<Rightarrow> nat result \<times> db" where
  "GetUnreadCount inboxID d =
     (case query_row (\<lambda>d. [count_rows (\<lambda>r. er_inbox_id r = inboxID \<and> er_is_read r = 0) (db_emails d)]) d of
        (Inl e, d1) \<Rightarrow> (Inl (Wrap ''get unread count'' e), d1)
      | (Inr n, d1) \<Rightarrow> (Inr n, d1))"

definition DeleteEmail :: "int \<Rightarrow> int \<Rightarrow> db \<Rightarrow> unit result \<times> db" where
  "DeleteEmail inboxID emailID d = update_required ''delete email''
     (exec_count (\<lambda>d. count_rows (\<lambda>r. er_inbox_id r = inboxID \<and> er_id r = emailID) (db_emails d))
        (delete_emails (\<lambda>r. er_inbox_id r = inboxID \<and> er_id r = emailID)) d)"

definition GetAttachmentsByEmailID :: "int \<Rightarrow> db \<Rightarrow> Attachment list result \<times> db" where
  "GetAttachmentsByEmailID emailID d =
     (case query (\<lambda>d. sort_key ar_id (filter (\<lambda>r. ar_email_id r = emailID) (db_attachments d))) d of
        (Inl e, d1) \<Rightarrow> (Inl (Wrap ''get attachments by email id'' e), d1)
      | (Inr rows, d1) \<Rightarrow> (Inr (map scanAttachmentRow rows), d1))"

definition GetAttachment :: "int \<Rightarrow> db \<Rightarrow> Attachment result \<times> db" where
  "GetAttachment attachmentID d = scan_one ''scan attachment'' scanAttachmentRow
     (query_row (\<lambda>d. filter (\<lambda>r. ar_id r = attachmentID) (db_attachments d)) d)"

section \<open>Domains\<close>

definition insert_domain :: "int \<Rightarrow> string \<Rightarrow> db \<Rightarrow> int result \<times> db" where
  "insert_domain now name d =
     (if \<exists>r \<in> set (db_domains d). nocase (dr_name r) = nocase name then (Inl (unique_failed ''domains.name''), d)
      else let rid = db_domains_seq d + 1 in
        (Inr rid, d\<lparr>db_domains := db_domains d @ [\<lparr>
             dr_id = rid, dr_name = name, dr_enabled = 1, dr_created_at = toUnix now\<rparr>],
           db_domains_seq := rid\<rparr>))"

definition CreateDomain :: "(nat \<Rightarrow> nat) \<Rightarrow> int \<Rightarrow> string \<Rightarrow> db \<Rightarrow> Domain result \<times> db" where
  "CreateDomain ul now name0 d =
     (let name = ToLower ul (TrimSpace name0) in
      case run_stmt (insert_domain now name) d of
        (Inl e, d1) \<Rightarrow> (Inl (mapSQLError ul ''create domain'' e), d1)
      | (Inr rid, d1) \<Rightarrow>
          scan_one ''create domain'' scanDomain
            (query_row (\<lambda>d. filter (\<lambda>r. dr_id r = rid) (db_domains d)) d1))"

definition ListDomains :: "bool \<Rightarrow> db \<Rightarrow> Domain list result \<times> db" where
  "ListDomains enabledOnly d =
     (case query (\<lambda>d. sort_key (\<lambda>r. (dr_created_at r, dr_id r))
             (filter (\<lambda>r. enabledOnly \<longrightarrow> dr_enabled r = 1) (db_domains d))) d of
        (Inl e, d1) \<Rightarrow> (Inl (Wrap ''list domains'' e), d1)
      | (Inr rows, d1) \<Rightarrow> (Inr (map scanDomain rows), d1))"

definition GetDomain :: "string \<Rightarrow> db \<Rightarrow> Domain result \<times> db" where
  "GetDomain name d = scan_one ''get domain'' scanDomain
     (query_row (\<lambda>d. filter (\<lambda>r. nocase (dr_name r) = nocase (TrimSpace name)) (db_domains d)) d)"

definition SetDomainEnabled :: "string \<Rightarrow> bool \<Rightarrow> db \<Rightarrow> unit result \<times> db" where
  "SetDomainEnabled name enabled d = update_required ''set domain enabled''
     (exec_count (\<lambda>d. count_rows (\<lambda>r. nocase (dr_name r) = nocase (TrimSpace name)) (db_domains d))
        (\<lambda>d. d\<lparr>db_domains := update_rows (\<lambda>r. nocase (dr_name r) = nocase (TrimSpace name))
                 (\<lambda>r. r\<lparr>dr_enabled := boolToInt enabled\<rparr>) (db_domains d)\<rparr>) d)"

definition IsDomainEnabled :: "string \<Rightarrow> db \<Rightarrow> bool result \<times> db" where
  "IsDomainEnabled name d =
     (case query_row (\<lambda>d. filter (\<lambda>r. nocase (dr_name r) = nocase (TrimSpace name) \<and> dr_enabled r = 1)
             (db_domains d)) d of
        (Inl e, d1) \<Rightarrow> (if err_is e ErrNoRows then (Inr False, d1) else (Inl (Wrap ''is domain enabled'' e), d1))
      | (Inr _, d1) \<Rightarrow> (Inr True, d1))"

section \<open>Sessions and settings\<close>

definition insert_session :: "int \<Rightarrow> Session \<Rightarrow> db \<Rightarrow> unit result \<times> db" where
  "insert_session now session d =
     (if \<exists>r \<in> set (db_sessions d). sr_token r = Session_Token session
      then (Inl (primary_key_failed ''sessions.token''), d)
      else if Session_InboxID session \<notin> ir_id ` set (db_inboxes d) then (Inl foreign_key_failed, d)
      else (Inr (), d\<lparr>db_sessions := db_sessions d @ [\<lparr>
             sr_token = Session_Token session, sr_inbox_id = Session_InboxID session,
             sr_created_at = toUnix now, sr_expires_at = toUnix (Session_ExpiresAt session)\<rparr>]\<rparr>))"

definition CreateSession :: "(nat \<Rightarrow> nat) \<Rightarrow> int \<Rightarrow> Session \<Rightarrow> db \<Rightarrow> Session result \<times> db" where
  "CreateSession ul now session d =
     (case run_stmt (insert_session now session) d of
        (Inl e, d1) \<Rightarrow> (Inl (mapSQLError ul ''create session'' e), d1)
      | (Inr _, d1) \<Rightarrow>
          scan_one ''create session'' (\<lambda>r. session\<lparr>Session_CreatedAt := fromUnix (sr_created_at r)\<rparr>)
            (query_row (\<lambda>d. filter (\<lambda>r. sr_token r = Session_Token session) (db_sessions d)) d1))"

text \<open>The join of \<open>GetSession\<close>: the session row with the inbox row it belongs to.\<close>

definition session_join :: "int \<Rightarrow> string \<Rightarrow> db \<Rightarrow> (session_row \<times> inbox_row) list" where
  "session_join now token d =
     [(s, i). s \<leftarrow> db_sessions d, i \<leftarrow> db_inboxes d,
        ir_id i = sr_inbox_id s \<and> sr_token s = token \<and> toUnix now < sr_expires_at s]"

definition GetSession :: "int \<Rightarrow> string \<Rightarrow> db \<Rightarrow> (Session \<times> Inbox) result \<times> db" where
  "GetSession now token d = scan_one ''get session'' (\<lambda>(s, i). (scanSession s, scanInbox i))
     (query_row (session_join now token) d)"

definition DeleteSession :: "string \<Rightarrow> db \<Rightarrow> unit result \<times> db" where
  "DeleteSession token d = update_required ''delete session''
     (exec_count (\<lambda>d. count_rows (\<lambda>r. sr_token r = token) (db_sessions d))
        (\<lambda>d. d\<lparr>db_sessions := filter (\<lambda>r. sr_token r \<noteq> token) (db_sessions d)\<rparr>) d)"

definition TouchSession :: "string \<Rightarrow> int \<Rightarrow> db \<Rightarrow> unit result \<times> db" where
  "TouchSession token expiresAt d = update_required ''touch session''
     (exec_count (\<lambda>d. count_rows (\<lambda>r. sr_token r = token) (db_sessions d))
        (\<lambda>d. d\<lparr>db_sessions := update_rows (\<lambda>r. sr_token r = token)
                 (\<lambda>r. r\<lparr>sr_expires_at := toUnix expiresAt\<rparr>) (db_sessions d)\<rparr>) d)"

definition DeleteExpiredSessions :: "int \<Rightarrow> db \<Rightarrow> nat result \<times> db" where
  "DeleteExpiredSessions now d = delete_count ''delete expired sessions''
     (exec_count (\<lambda>d. count_rows (\<lambda>r. sr_expires_at r \<le> toUnix now) (db_sessions d))
        (\<lambda>d. d\<lparr>db_sessions := filter (\<lambda>r. \<not> sr_expires_at r \<le> toUnix now) (db_sessions d)\<rparr>) d)"

definition GetSetting :: "string \<Rightarrow> db \<Rightarrow> string result \<times> db" where
  "GetSetting key d = scan_one ''get setting'' tr_value
     (query_row (\<lambda>d. filter (\<lambda>r. tr_key r = key) (db_settings d)) d)"

text \<open>The upsert of \<open>SetSetting\<close>.\<close>

definition upsert_setting :: "int \<Rightarrow> string \<Rightarrow> string \<Rightarrow> setting_row list \<Rightarrow> setting_row list" where
  "upsert_setting now key v rows =
     (if \<exists>r \<in> set rows. tr_key r = key
      then update_rows (\<lambda>r. tr_key r = key) (\<lambda>r. r\<lparr>tr_value := v, tr_updated_at := toUnix now\<rparr>) rows
      else rows @ [\<lparr>tr_key = key, tr_value = v, tr_updated_at = toUnix now\<rparr>])"

definition SetSetting :: "int \<Rightarrow> string \<Rightarrow> string \<Rightarrow> db \<Rightarrow> unit result \<times> db" where
  "SetSetting now key v d =
     (case exec_count (\<lambda>d. 1) (\<lambda>d. d\<lparr>db_settings := upsert_setting now key v (db_settings d)\<rparr>) d of
        (Inl e, d1) \<Rightarrow> (Inl (Wrap ''set setting'' e), d1)
      | (Inr _, d1) \<Rightarrow> (Inr (), d1))"

definition Ping :: "db \<Rightarrow> unit result \<times> db" where
  "Ping d = (case run_stmt (\<lambda>d. (Inr (), d)) d of
               (Inl e, d1) \<Rightarrow> (Inl (Wrap ''ping sqlite'' e), d1) | (Inr u, d1) \<Rightarrow> (Inr u, d1))"

end
