(* ===== verification/Repository_Inv.thy ===== *)
theory Repository_Inv
  imports Repository
begin

text \<open>
  What every operation of the repository keeps of the database. The locales below are the
  contract between the repository and its clients: an invariant \<open>I\<close> of the database that
  the statements of one group of tables keep is kept by every operation built from them,
  and by every handler built from those operations. The well-formedness of the database
  interprets all of them; a frame condition such as ``the settings are unchanged''
  interprets those of the other tables.
\<close>

section \<open>Running statements\<close>

lemma faults_same: "db_faults d = fs \<Longrightarrow> d\<lparr>db_faults := fs\<rparr> = d"
  by (cases d) simp

lemma run_stmt_cases:
  obtains msg fs where "run_stmt f d = (Inl (ErrText msg), d\<lparr>db_faults := fs\<rparr>)"
  | fs where "run_stmt f d = f (d\<lparr>db_faults := fs\<rparr>)"
proof (cases "db_faults d")
  case Nil
  then have "run_stmt f d = f (d\<lparr>db_faults := []\<rparr>)" by (simp add: run_stmt_def faults_same)
  then show ?thesis by (rule that(2))
next
  case (Cons f fs)
  then show ?thesis by (cases f) (auto simp: run_stmt_def intro: that)
qed

lemma run_stmt_no_faults: "db_faults d = [] \<Longrightarrow> run_stmt f d = f d"
  by (simp add: run_stmt_def)

lemma run_stmt_InrD: "run_stmt f d = (Inr x, d') \<Longrightarrow> \<exists>fs. f (d\<lparr>db_faults := fs\<rparr>) = (Inr x, d')"
  by (rule run_stmt_cases [of f d]) auto

text \<open>What a successful query returns is in the tables.\<close>

lemma query_row_Inr: "query_row q d = (Inr r, d') \<Longrightarrow> \<exists>fs. r \<in> set (q (d\<lparr>db_faults := fs\<rparr>))"
  by (auto simp: query_row_def dest!: run_stmt_InrD split: list.splits) (metis list.set_intros(1))

lemma query_Inr: "query q d = (Inr rows, d') \<Longrightarrow> \<exists>fs. rows = q (d\<lparr>db_faults := fs\<rparr>)"
  by (auto simp: query_def dest!: run_stmt_InrD)

text \<open>A query leaves the tables alone; only the fault schedule moves on.\<close>

definition same_tables :: "db \<Rightarrow> db \<Rightarrow> bool" where
  "same_tables d d' \<longleftrightarrow> (\<exists>fs. d' = d\<lparr>db_faults := fs\<rparr>)"

lemma same_tables_refl [simp]: "same_tables d d"
  unfolding same_tables_def by (metis faults_same)

lemma same_tables_faults [simp]: "same_tables d (d\<lparr>db_faults := fs\<rparr>)"
  by (auto simp: same_tables_def)

lemma same_tables_trans: "same_tables d d' \<Longrightarrow> same_tables d' d'' \<Longrightarrow> same_tables d d''"
  by (auto simp: same_tables_def)

lemma same_tablesD:
  assumes "same_tables d d'"
  shows "db_inboxes d' = db_inboxes d" "db_emails d' = db_emails d" "db_attachments d' = db_attachments d"
    "db_domains d' = db_domains d" "db_sessions d' = db_sessions d" "db_settings d' = db_settings d"
    "db_inboxes_seq d' = db_inboxes_seq d" "db_emails_seq d' = db_emails_seq d"
    "db_attachments_seq d' = db_attachments_seq d" "db_domains_seq d' = db_domains_seq d"
  using assms by (auto simp: same_tables_def)

lemma run_stmt_same: "(\<And>d. same_tables d (snd (f d))) \<Longrightarrow> same_tables d (snd (run_stmt f d))"
  by (rule run_stmt_cases [of f d]) (auto intro: same_tables_trans [OF same_tables_faults])

lemma query_row_same: "same_tables d (snd (query_row q d))"
  unfolding query_row_def by (rule run_stmt_same) simp

lemma query_same: "same_tables d (snd (query q d))"
  unfolding query_def by (rule run_stmt_same) simp

lemma tx_stmt_same: "same_tables d (snd (tx_stmt d))"
  unfolding tx_stmt_def by (rule run_stmt_same) simp

lemma snd_scan_one [simp]: "snd (scan_one op scan res) = snd res"
  by (auto simp: scan_one_def split: prod.split sum.split)

lemma snd_update_required [simp]: "snd (update_required op res) = snd res"
  by (auto simp: update_required_def split: prod.split sum.split)

lemma snd_delete_count [simp]: "snd (delete_count op res) = snd res"
  by (auto simp: delete_count_def split: prod.split sum.split)

section \<open>The read operations\<close>

lemma same_tables_eqD:
  "query_row q d = (r, d') \<Longrightarrow> same_tables d d'"
  "query q' d = (rs, d') \<Longrightarrow> same_tables d d'"
  "tx_stmt d = (u, d') \<Longrightarrow> same_tables d d'"
  using query_row_same [of d q] query_same [of d q'] tx_stmt_same [of d] by auto

lemma reads_same [simp]:
  "same_tables d (snd (GetInboxByToken now token d))"
  "same_tables d (snd (GetInboxByAddress address d))"
  "same_tables d (snd (GetEmailByID inboxID emailID d))"
  "same_tables d (snd (GetAttachment attachmentID d))"
  "same_tables d (snd (GetDomain name d))"
  "same_tables d (snd (GetSession now token d))"
  "same_tables d (snd (GetSetting key d))"
  by (simp_all only: GetInboxByToken_def GetInboxByAddress_def GetEmailByID_def GetAttachment_def GetDomain_def
      GetSession_def GetSetting_def snd_scan_one query_row_same)

lemma GetEmailsByInboxID_same [simp]: "same_tables d (snd (GetEmailsByInboxID inboxID lim offset d))"
  by (auto simp: GetEmailsByInboxID_def Let_def dest: same_tables_eqD split: prod.split sum.split)

lemma GetUnreadCount_same [simp]: "same_tables d (snd (GetUnreadCount inboxID d))"
  by (auto simp: GetUnreadCount_def dest: same_tables_eqD split: prod.split sum.split)

lemma GetAttachmentsByEmailID_same [simp]: "same_tables d (snd (GetAttachmentsByEmailID emailID d))"
  by (auto simp: GetAttachmentsByEmailID_def dest: same_tables_eqD split: prod.split sum.split)

lemma ListDomains_same [simp]: "same_tables d (snd (ListDomains enabledOnly d))"
  by (auto simp: ListDomains_def dest: same_tables_eqD split: prod.split sum.split)

lemma IsDomainEnabled_same [simp]: "same_tables d (snd (IsDomainEnabled name d))"
  by (auto simp: IsDomainEnabled_def dest: same_tables_eqD split: prod.split sum.split)

lemma Ping_same [simp]: "same_tables d (snd (Ping d))"
  by (auto simp: Ping_def tx_stmt_def [symmetric] dest: same_tables_eqD split: prod.split sum.split)

section \<open>The contract of the repository with its clients\<close>

locale store_frame =
  fixes I :: "db \<Rightarrow> bool"
  assumes faults: "I (d\<lparr>db_faults := fs\<rparr>) = I d"
begin

lemma same: "same_tables d d' \<Longrightarrow> I d' = I d"
  by (auto simp: same_tables_def faults)

lemma stmt: "(\<And>d. I d \<Longrightarrow> I (snd (f d))) \<Longrightarrow> I d \<Longrightarrow> I (snd (run_stmt f d))"
  by (rule run_stmt_cases [of f d]) (auto simp: faults)

lemma count: "(\<And>d. I d \<Longrightarrow> I (g d)) \<Longrightarrow> I d \<Longrightarrow> I (snd (exec_count n g d))"
  unfolding exec_count_def by (rule stmt) simp_all

lemma reads:
  "I (snd (GetInboxByToken now token d)) = I d"
  "I (snd (GetInboxByAddress address d)) = I d"
  "I (snd (GetEmailsByInboxID inboxID lim offset d)) = I d"
  "I (snd (GetEmailByID inboxID emailID d)) = I d"
  "I (snd (GetUnreadCount inboxID d)) = I d"
  "I (snd (GetAttachmentsByEmailID emailID d)) = I d"
  "I (snd (GetAttachment attachmentID d)) = I d"
  "I (snd (ListDomains enabledOnly d)) = I d"
  "I (snd (GetDomain name d)) = I d"
  "I (snd (IsDomainEnabled name d)) = I d"
  "I (snd (GetSession now token d)) = I d"
  "I (snd (GetSetting key d)) = I d"
  "I (snd (Ping d)) = I d"
  by (rule same, simp)+

end

locale account_store = store_frame +
  assumes insert_inbox: "I d \<Longrightarrow> I (snd (insert_inbox now inbox d))"
begin

lemma CreateInbox: "I d \<Longrightarrow> I (snd (CreateInbox ul now inbox d))"
  using stmt [of "insert_inbox now inbox" d, OF insert_inbox]
  by (auto simp: CreateInbox_def dest!: same_tables_eqD same split: prod.split sum.split)

end

locale session_store = store_frame +
  assumes insert_session: "I d \<Longrightarrow> I (snd (insert_session now session d))"
    and touch_session: "I d \<Longrightarrow> I (d\<lparr>db_sessions := update_rows (\<lambda>r. sr_token r = token)
      (\<lambda>r. r\<lparr>sr_expires_at := t\<rparr>) (db_sessions d)\<rparr>)"
    and drop_session: "I d \<Longrightarrow> I (d\<lparr>db_sessions := filter (\<lambda>r. sr_token r \<noteq> token) (db_sessions d)\<rparr>)"
    and touch_inbox: "I d \<Longrightarrow> I (d\<lparr>db_inboxes := update_rows (\<lambda>r. ir_id r = i)
      (\<lambda>r. r\<lparr>ir_last_accessed_at := t\<rparr>) (db_inboxes d)\<rparr>)"
begin

lemma CreateSession: "I d \<Longrightarrow> I (snd (CreateSession ul now session d))"
  using stmt [of "insert_session now session" d, OF insert_session]
  by (auto simp: CreateSession_def same [OF query_row_same] split: prod.split sum.split)

lemma TouchSession: "I d \<Longrightarrow> I (snd (TouchSession token t d))"
  by (simp add: TouchSession_def count touch_session)

lemma DeleteSession: "I d \<Longrightarrow> I (snd (DeleteSession token d))"
  by (simp add: DeleteSession_def count drop_session)

lemma UpdateLastAccessed: "I d \<Longrightarrow> I (snd (UpdateLastAccessed now i d))"
  by (simp add: UpdateLastAccessed_def count touch_inbox)

end

locale marking_store = store_frame +
  assumes mark_read: "I d \<Longrightarrow> I (d\<lparr>db_emails := update_rows (\<lambda>r. er_id r = e) (\<lambda>r. r\<lparr>er_is_read := 1\<rparr>) (db_emails d)\<rparr>)"
begin

lemma MarkEmailAsRead: "I d \<Longrightarrow> I (snd (MarkEmailAsRead e d))"
  by (simp add: MarkEmailAsRead_def count mark_read)

end

locale reading_store = marking_store +
  assumes drop_email: "I d \<Longrightarrow> I (delete_emails (\<lambda>r. er_inbox_id r = i \<and> er_id r = e) d)"
begin

lemma DeleteEmail: "I d \<Longrightarrow> I (snd (DeleteEmail i e d))"
  by (simp add: DeleteEmail_def count drop_email)

end

locale delivery_store = store_frame +
  assumes insert_email_row: "I d \<Longrightarrow> I (snd (insert_email_row t email d))"
    and insert_attachment_row: "I d \<Longrightarrow> I (snd (insert_attachment_row att d))"
begin

lemma insertEmail: "I d \<Longrightarrow> I (snd (insertEmail ul now email d))"
  using stmt [of "insert_email_row t email" d for t, OF insert_email_row]
  by (auto simp: insertEmail_def Let_def split: prod.split sum.split) (metis snd_conv)+

lemma insertAttachment: "I d \<Longrightarrow> I (snd (insertAttachment ul att d))"
  using stmt [of "insert_attachment_row att" d, OF insert_attachment_row]
  by (auto simp: insertAttachment_def split: prod.split sum.split)

lemma insert_attachments: "I d \<Longrightarrow> I (snd (insert_attachments ul e atts d))"
proof (induction ul e atts d rule: insert_attachments.induct)
  case (2 ul e att atts d)
  then show ?case
    using insertAttachment [of d ul "att\<lparr>Attachment_EmailID := e\<rparr>"]
    by (auto split: prod.split sum.split)
qed simp

lemma rollback: "I d0 \<Longrightarrow> I (rollback_to d0 d)"
  by (simp add: rollback_to_def faults)

lemma tx: "tx_stmt d = (r, d') \<Longrightarrow> I d' = I d"
  by (rule same) (rule same_tables_eqD)

lemma SaveInboundMessage: "I d \<Longrightarrow> I (snd (SaveInboundMessage ul now email atts d))"
  using insertEmail insert_attachments
  by (auto simp: SaveInboundMessage_def rollback tx split: prod.split sum.split) (metis snd_conv tx)+

end

locale expiry_store = store_frame +
  assumes drop_expired_inboxes: "I d \<Longrightarrow> I (delete_inboxes (\<lambda>r. ir_expires_at r \<le> t) d)"
    and drop_expired_sessions: "I d \<Longrightarrow> I (d\<lparr>db_sessions := filter (\<lambda>r. \<not> sr_expires_at r \<le> t) (db_sessions d)\<rparr>)"
begin

lemma DeleteExpiredInboxes: "I d \<Longrightarrow> I (snd (DeleteExpiredInboxes now d))"
  by (simp add: DeleteExpiredInboxes_def count drop_expired_inboxes)

lemma DeleteExpiredSessions: "I d \<Longrightarrow> I (snd (DeleteExpiredSessions now d))"
  using count [of "\<lambda>d. d\<lparr>db_sessions := filter (\<lambda>r. \<not> sr_expires_at r \<le> toUnix now) (db_sessions d)\<rparr>", OF drop_expired_sessions]
  by (simp add: DeleteExpiredSessions_def)

end

locale domain_store = store_frame +
  assumes insert_domain: "I d \<Longrightarrow> I (snd (insert_domain now name d))"
    and set_domain: "I d \<Longrightarrow> I (d\<lparr>db_domains := update_rows (\<lambda>r. nocase (dr_name r) = n)
      (\<lambda>r. r\<lparr>dr_enabled := boolToInt b\<rparr>) (db_domains d)\<rparr>)"
begin

lemma CreateDomain: "I d \<Longrightarrow> I (snd (CreateDomain ul now name d))"
  using stmt [of "insert_domain now n" d for n, OF insert_domain]
  by (auto simp: CreateDomain_def Let_def same [OF query_row_same] split: prod.split sum.split) (metis snd_conv)+

lemma SetDomainEnabled: "I d \<Longrightarrow> I (snd (SetDomainEnabled name b d))"
  by (simp add: SetDomainEnabled_def count set_domain)

end

locale settings_store = store_frame +
  assumes upsert: "I d \<Longrightarrow> I (d\<lparr>db_settings := upsert_setting now key v (db_settings d)\<rparr>)"
begin

lemma SetSetting: "I d \<Longrightarrow> I (snd (SetSetting now key v d))"
  using count [of "\<lambda>d. d\<lparr>db_settings := upsert_setting now key v (db_settings d)\<rparr>" d "\<lambda>d. 1", OF upsert]
  by (auto simp: SetSetting_def split: prod.split sum.split)

end

locale whole_store = account_store + session_store + reading_store + delivery_store + expiry_store
  + domain_store + settings_store

section \<open>Well-formed databases\<close>

text \<open>
  Ids are positive, distinct and not above the counter of their table; the unique columns
  are unique; every foreign key finds its row; the flags are 0 or 1.
\<close>

definition keys_ok :: "int list \<Rightarrow> int \<Rightarrow> bool" where
  "keys_ok ids n \<longleftrightarrow> distinct ids \<and> 0 \<le> n \<and> (\<forall>i \<in> set ids. 0 < i \<and> i \<le> n)"

definition ids_wf :: "db \<Rightarrow> bool" where
  "ids_wf d \<longleftrightarrow>
     keys_ok (map ir_id (db_inboxes d)) (db_inboxes_seq d) \<and>
     keys_ok (map er_id (db_emails d)) (db_emails_seq d) \<and>
     keys_ok (map ar_id (db_attachments d)) (db_attachments_seq d) \<and>
     keys_ok (map dr_id (db_domains d)) (db_domains_seq d)"

definition unique_wf :: "db \<Rightarrow> bool" where
  "unique_wf d \<longleftrightarrow>
     distinct (map (\<lambda>r. nocase (ir_address r)) (db_inboxes d)) \<and>
     distinct (map ir_token (db_inboxes d)) \<and>
     distinct (map (\<lambda>r. nocase (dr_name r)) (db_domains d)) \<and>
     distinct (map sr_token (db_sessions d)) \<and>
     distinct (map tr_key (db_settings d))"

definition links_wf :: "db \<Rightarrow> bool" where
  "links_wf d \<longleftrightarrow>
     (\<forall>e \<in> set (db_emails d). er_inbox_id e \<in> ir_id ` set (db_inboxes d)) \<and>
     (\<forall>a \<in> set (db_attachments d). ar_email_id a \<in> er_id ` set (db_emails d)) \<and>
     (\<forall>s \<in> set (db_sessions d). sr_inbox_id s \<in> ir_id ` set (db_inboxes d))"

definition flags_wf :: "db \<Rightarrow> bool" where
  "flags_wf d \<longleftrightarrow>
     (\<forall>e \<in> set (db_emails d). er_is_read e \<in> {0, 1} \<and> er_has_attachments e \<in> {0, 1}) \<and>
     (\<forall>r \<in> set (db_domains d). dr_enabled r \<in> {0, 1})"

definition db_wf :: "db \<Rightarrow> bool" where
  "db_wf d \<longleftrightarrow> ids_wf d \<and> unique_wf d \<and> links_wf d \<and> flags_wf d"

lemma db_wf_empty: "db_wf empty_db"
  by (simp add: db_wf_def ids_wf_def unique_wf_def links_wf_def flags_wf_def keys_ok_def empty_db_def)

lemma keys_ok_snoc: "keys_ok ids n \<Longrightarrow> keys_ok (ids @ [n + 1]) (n + 1)"
  by (fastforce simp: keys_ok_def)

lemma keys_ok_filter: "keys_ok (map f xs) n \<Longrightarrow> keys_ok (map f (filter P xs)) n"
  by (auto simp: keys_ok_def distinct_map_filter)

lemma map_update_rows: "(\<And>r. f (g r) = f r) \<Longrightarrow> map f (update_rows P g rows) = map f rows"
  by (simp add: update_rows_def)

lemma set_update_rows: "r \<in> set (update_rows P g rows) \<longleftrightarrow> (\<exists>r0 \<in> set rows. r = (if P r0 then g r0 else r0))"
  by (auto simp: update_rows_def)

lemma image_update_rows: "(\<And>r. f (g r) = f r) \<Longrightarrow> f ` set (update_rows P g rows) = f ` set rows"
  by (metis map_update_rows set_map)

lemma ball_update_rows:
  "(\<forall>r \<in> set (update_rows P g rows). Q r) \<longleftrightarrow> (\<forall>r \<in> set rows. if P r then Q (g r) else Q r)"
  by (auto simp: update_rows_def)

lemmas row_simps = map_update_rows image_update_rows ball_update_rows

lemma image_filter_not: "k \<in> f ` A \<Longrightarrow> k \<notin> f ` {x \<in> A. P x} \<Longrightarrow> k \<in> f ` {x \<in> A. \<not> P x}"
  by auto

lemma delete_emails_wf: "db_wf d \<Longrightarrow> db_wf (delete_emails P d)"
  by (auto simp: db_wf_def ids_wf_def unique_wf_def links_wf_def flags_wf_def delete_emails_def Let_def
      keys_ok_filter distinct_map_filter intro!: image_filter_not)

lemma delete_inboxes_wf: "db_wf d \<Longrightarrow> db_wf (delete_inboxes P d)"
  by (auto simp: db_wf_def ids_wf_def unique_wf_def links_wf_def flags_wf_def delete_inboxes_def delete_emails_def
      Let_def keys_ok_filter distinct_map_filter intro!: image_filter_not)

lemma insert_inbox_wf: "db_wf d \<Longrightarrow> db_wf (snd (insert_inbox now inbox d))"
  by (auto simp: db_wf_def ids_wf_def unique_wf_def links_wf_def flags_wf_def insert_inbox_def Let_def keys_ok_snoc)

lemma insert_email_row_wf: "db_wf d \<Longrightarrow> db_wf (snd (insert_email_row t email d))"
  using boolToInt_01
  by (auto simp: db_wf_def ids_wf_def unique_wf_def links_wf_def flags_wf_def insert_email_row_def Let_def keys_ok_snoc)

lemma insert_attachment_row_wf: "db_wf d \<Longrightarrow> db_wf (snd (insert_attachment_row att d))"
  by (auto simp: db_wf_def ids_wf_def unique_wf_def links_wf_def flags_wf_def insert_attachment_row_def Let_def keys_ok_snoc)

lemma insert_domain_wf: "db_wf d \<Longrightarrow> db_wf (snd (insert_domain now name d))"
  by (auto simp: db_wf_def ids_wf_def unique_wf_def links_wf_def flags_wf_def insert_domain_def Let_def keys_ok_snoc)

lemma insert_session_wf: "db_wf d \<Longrightarrow> db_wf (snd (insert_session now session d))"
  by (auto simp: db_wf_def ids_wf_def unique_wf_def links_wf_def flags_wf_def insert_session_def Let_def)

lemma upsert_setting_keys:
  "distinct (map tr_key rows) \<Longrightarrow> distinct (map tr_key (upsert_setting now key v rows))"
  by (auto simp: upsert_setting_def map_update_rows)

lemma upsert_setting_wf: "db_wf d \<Longrightarrow> db_wf (d\<lparr>db_settings := upsert_setting now key v (db_settings d)\<rparr>)"
  by (simp add: db_wf_def ids_wf_def unique_wf_def links_wf_def flags_wf_def upsert_setting_keys)

lemma update_wf:
  "db_wf d \<Longrightarrow> db_wf (d\<lparr>db_inboxes := update_rows P (\<lambda>r. r\<lparr>ir_last_accessed_at := t\<rparr>) (db_inboxes d)\<rparr>)"
  "db_wf d \<Longrightarrow> db_wf (d\<lparr>db_sessions := update_rows Q (\<lambda>r. r\<lparr>sr_expires_at := t\<rparr>) (db_sessions d)\<rparr>)"
  "db_wf d \<Longrightarrow> db_wf (d\<lparr>db_emails := update_rows R (\<lambda>r. r\<lparr>er_is_read := 1\<rparr>) (db_emails d)\<rparr>)"
  "db_wf d \<Longrightarrow> db_wf (d\<lparr>db_domains := update_rows S (\<lambda>r. r\<lparr>dr_enabled := boolToInt b\<rparr>) (db_domains d)\<rparr>)"
  using boolToInt_01 [of b]
  by (auto simp: db_wf_def ids_wf_def unique_wf_def links_wf_def flags_wf_def row_simps)

lemma filter_sessions_wf: "db_wf d \<Longrightarrow> db_wf (d\<lparr>db_sessions := filter P (db_sessions d)\<rparr>)"
  by (auto simp: db_wf_def ids_wf_def unique_wf_def links_wf_def flags_wf_def distinct_map_filter)

lemma faults_wf: "db_wf (d\<lparr>db_faults := fs\<rparr>) = db_wf d"
  by (simp add: db_wf_def ids_wf_def unique_wf_def links_wf_def flags_wf_def)

interpretation wf: whole_store db_wf
  by unfold_locales (simp_all add: faults_wf insert_inbox_wf insert_session_wf update_wf filter_sessions_wf
      delete_emails_wf insert_email_row_wf insert_attachment_row_wf delete_inboxes_wf insert_domain_wf
      upsert_setting_wf)

end
