(* ===== verification/Interfaces.thy ===== *)
theory Interfaces
  imports Prelude
begin

text \<open>
  Contracts that several components share. \<open>expiring_store\<close> is a keyed store of values
  that are good until a deadline; \<open>ttl_store\<close> can put a key with a deadline, whatever was
  there before; \<open>revocable_store\<close> can drop a key; \<open>sliding_store\<close> can move the deadline of
  a key that is there. The domain cache of the SMTP backend, the admin sessions in memory
  and the session table of the database provide these. \<open>key_value\<close> is a map with a lookup
  and an update.
\<close>

locale expiring_store =
  fixes deadline :: "'s \<Rightarrow> 'k \<Rightarrow> int option"
    and live :: "int \<Rightarrow> 'k \<Rightarrow> 's \<Rightarrow> bool"
    and inv :: "'s \<Rightarrow> bool"
  assumes live_iff: "inv s \<Longrightarrow> live t k s \<longleftrightarrow> (\<exists>e. deadline s k = Some e \<and> t < e)"
begin

lemma live_earlier: "inv s \<Longrightarrow> live t k s \<Longrightarrow> u \<le> t \<Longrightarrow> live u k s"
  by (auto simp: live_iff)

lemma dead_later: "inv s \<Longrightarrow> \<not> live t k s \<Longrightarrow> t \<le> u \<Longrightarrow> \<not> live u k s"
  by (auto simp: live_iff)

end

locale ttl_store = expiring_store +
  fixes put :: "'b \<Rightarrow> 'v \<Rightarrow> int \<Rightarrow> 'a \<Rightarrow> 'a"
  assumes deadline_put: "inv s \<Longrightarrow> deadline (put k v e s) = (deadline s)(k \<mapsto> e)"
    and inv_put: "inv s \<Longrightarrow> inv (put k v e s)"
begin

lemma live_put: "inv s \<Longrightarrow> live t k (put k v e s) \<longleftrightarrow> t < e"
  by (simp add: live_iff inv_put deadline_put)

lemma live_put_other: "inv s \<Longrightarrow> k' \<noteq> k \<Longrightarrow> live t k' (put k v e s) = live t k' s"
  by (simp add: live_iff inv_put deadline_put)

text \<open>A key that is live after a history of puts was live before it, or was put with a
  deadline that is still to come.\<close>

lemma live_from_history:
  assumes "inv s" "live t k (fold (\<lambda>(k, v, e). put k v e) h s)"
  shows "live t k s \<or> (\<exists>v e. (k, v, e) \<in> set h \<and> t < e)"
  using assms
proof (induction h arbitrary: s)
  case (Cons x h)
  obtain k' v e where x: "x = (k', v, e)" by (cases x)
  from Cons.IH [of "put k' v e s"] Cons.prems x
  have "live t k (put k' v e s) \<or> (\<exists>v e. (k, v, e) \<in> set h \<and> t < e)" by (simp add: inv_put)
  with Cons.prems(1) x show ?case by (cases "k' = k") (auto simp: live_put live_put_other)
qed simp

end

locale revocable_store = expiring_store +
  fixes revoke :: "'b \<Rightarrow> 'a \<Rightarrow> 'a"
  assumes deadline_revoke: "inv s \<Longrightarrow> deadline (revoke k s) = (deadline s)(k := None)"
    and inv_revoke: "inv s \<Longrightarrow> inv (revoke k s)"
begin

lemma revoked_dead: "inv s \<Longrightarrow> \<not> live t k (revoke k s)"
  by (simp add: live_iff inv_revoke deadline_revoke)

lemma live_revoke_other: "inv s \<Longrightarrow> k' \<noteq> k \<Longrightarrow> live t k' (revoke k s) = live t k' s"
  by (simp add: live_iff inv_revoke deadline_revoke)

end

text \<open>A store may keep less of an instant than it is given: \<open>grain\<close> is what it keeps.\<close>

locale sliding_store = expiring_store +
  fixes slide :: "'b \<Rightarrow> int \<Rightarrow> 'a \<Rightarrow> 'a"
    and grain :: "int \<Rightarrow> int"
  assumes deadline_slide: "inv s \<Longrightarrow> deadline (slide k e s) =
      (if deadline s k = None then deadline s else (deadline s)(k \<mapsto> grain e))"
    and inv_slide: "inv s \<Longrightarrow> inv (slide k e s)"
    and grain_le: "grain e \<le> e"
begin

lemma live_slide: "inv s \<Longrightarrow> live u k s \<Longrightarrow> live t k (slide k e s) \<longleftrightarrow> t < grain e"
  by (auto simp: live_iff inv_slide deadline_slide)

lemma live_slide_bound: "inv s \<Longrightarrow> live t k (slide k e s) \<Longrightarrow> t < e"
  using grain_le [of e] by (auto simp: live_iff inv_slide deadline_slide split: if_splits)

text \<open>Sliding revives nothing that is not in the store.\<close>

lemma slide_absent: "inv s \<Longrightarrow> deadline s k = None \<Longrightarrow> \<not> live t k (slide k e s)"
  by (simp add: live_iff inv_slide deadline_slide)

lemma live_slide_other: "inv s \<Longrightarrow> k' \<noteq> k \<Longrightarrow> live t k' (slide k e s) = live t k' s"
  by (auto simp: live_iff inv_slide deadline_slide)

end

locale session_registry = revocable_store + sliding_store
begin

lemma revoked_stays_dead: "inv s \<Longrightarrow> \<not> live t k (slide k e (revoke k s))"
  by (simp add: slide_absent inv_revoke deadline_revoke)

end

locale key_value =
  fixes lookup :: "'s \<Rightarrow> 'k \<Rightarrow> 'v option"
    and update :: "'k \<Rightarrow> 'v \<Rightarrow> 's \<Rightarrow> 's"
    and inv :: "'s \<Rightarrow> bool"
  assumes lookup_update: "inv s \<Longrightarrow> lookup (update k v s) = (lookup s)(k \<mapsto> v)"
    and inv_update: "inv s \<Longrightarrow> inv (update k v s)"
begin

lemma lookup_update_same: "inv s \<Longrightarrow> lookup (update k v s) k = Some v"
  by (simp add: lookup_update)

lemma lookup_update_other: "inv s \<Longrightarrow> k' \<noteq> k \<Longrightarrow> lookup (update k v s) k' = lookup s k'"
  by (simp add: lookup_update)

lemma last_update_wins: "inv s \<Longrightarrow> lookup (update k w (update k v s)) = lookup (update k w s)"
  by (simp add: lookup_update inv_update)

end

end
