(* ===== verification/Repository_Spec.thy ===== *)
theory Repository_Spec
  imports Repository_Inv Interfaces
begin

text \<open>
  What the operations of the repository return and change, on well-formed databases:
  round trips of the tables, the atomicity of message delivery under every fault schedule,
  the domain table as a map from names to flags, the sessions as a store with deadlines,
  the settings as a key-value map, and the order and paging of a mailbox.
\<close>

section \<open>Statements that do not fail\<close>

lemma query_row_ok: "db_faults d = [] \<Longrightarrow> query_row q d = (case q d of [] \<Rightarrow> Inl ErrNoRows | r # _ \<Rightarrow> Inr r, d)"
  by (simp add: query_row_def run_stmt_no_faults)

lemma query_ok: "db_faults d = [] \<Longrightarrow> query q d = (Inr (q d), d)"
  by (simp add: query_def run_stmt_no_faults)

lemma exec_count_ok: "db_faults d = [] \<Longrightarrow> exec_count n f d = (Inr (n d), f d)"
  by (simp add: exec_count_def run_stmt_no_faults)

lemmas stmt_ok = query_row_ok query_ok exec_count_ok run_stmt_no_faults

lemma update_required_ok: "update_required op (Inr n, d) = (if n = 0 then Inl (Wrap op ErrNotFound) else Inr (), d)"
  by (simp add: update_required_def requireRowsAffected_def)

lemma count_rows_0: "count_rows P rows = 0 \<longleftrightarrow> (\<forall>r \<in> set rows. \<not> P r)"
  by (simp add: count_rows_def filter_empty_conv)

lemma same_tables_iff:
  "same_tables d d' \<longleftrightarrow>
     db_inboxes d' = db_inboxes d \<and> db_emails d' = db_emails d \<and> db_attachments d' = db_attachments d \<and>
     db_domains d' = db_domains d \<and> db_sessions d' = db_sessions d \<and> db_settings d' = db_settings d \<and>
     db_inboxes_seq d' = db_inboxes_seq d \<and> db_emails_seq d' = db_emails_seq d \<and>
     db_attachments_seq d' = db_attachments_seq d \<and> db_domains_seq d' = db_domains_seq d"
  by (cases d; cases d') (auto simp: same_tables_def)

section \<open>Delivery\<close>

text \<open>The rows a message becomes.\<close>

definition email_row_of :: "int \<Rightarrow> int \<Rightarrow> Email \<Rightarrow> email_row" where
  "email_row_of rid receivedAt email = \<lparr>
     er_id = rid, er_inbox_id = Email_InboxID email, er_message_id = nullableString (Email_MessageID email),
     er_sender = Email_Sender email, er_sender_name = nullableString (Email_SenderName email),
     er_recipient = Email_Recipient email, er_subject = defaultString (Email_Subject email) ''(no subject)'',
     er_body_html = nullableString (Email_BodyHTML email), er_body_text = nullableString (Email_BodyText email),
     er_raw_headers = nullableString (Email_RawHeaders email), er_size_bytes = Email_SizeBytes email,
     er_has_attachments = boolToInt (Email_HasAttachments email), er_received_at = toUnix receivedAt,
     er_is_read = boolToInt (Email_IsRead email)\<rparr>"

definition attachment_row_of :: "int \<Rightarrow> int \<Rightarrow> Attachment \<Rightarrow> attachment_row" where
  "attachment_row_of rid emailID att = \<lparr>ar_id = rid, ar_email_id = emailID, ar_filename = Attachment_Filename att,
     ar_content_type = Attachment_ContentType att, ar_size_bytes = Attachment_SizeBytes att,
     ar_content = Attachment_Content att\<rparr>"

fun attachment_rows :: "int \<Rightarrow> int \<Rightarrow> Attachment list \<Rightarrow> attachment_row list" where
  "attachment_rows n emailID [] = []"
| "attachment_rows n emailID (a # as) = attachment_row_of (n + 1) emailID a # attachment_rows (n + 1) emailID as"

lemma insertEmail_Inr:
  assumes "insertEmail ul now email d = (Inr e', d')"
  shows "Email_InboxID email \<in> ir_id ` set (db_inboxes d)"
    and "e' = email\<lparr>Email_ID := db_emails_seq d + 1,
           Email_ReceivedAt := (if IsZero (Email_ReceivedAt email) then now else Email_ReceivedAt email)\<rparr>"
    and "same_tables (d\<lparr>db_emails := db_emails d @ [email_row_of (db_emails_seq d + 1) (Email_ReceivedAt e') email],
                  db_emails_seq := db_emails_seq d + 1\<rparr>) d'"
proof -
  let ?t = "if IsZero (Email_ReceivedAt email) then now else Email_ReceivedAt email"
  obtain rid where run: "run_stmt (insert_email_row ?t email) d = (Inr rid, d')"
    and e': "e' = email\<lparr>Email_ID := rid, Email_ReceivedAt := ?t\<rparr>"
    using assms by (auto simp: insertEmail_def Let_def split: prod.splits sum.splits)
  from run obtain fs where ins: "insert_email_row ?t email (d\<lparr>db_faults := fs\<rparr>) = (Inr rid, d')"
    using run_stmt_InrD [OF run] by blast
  show "Email_InboxID email \<in> ir_id ` set (db_inboxes d)"
    using ins by (auto simp: insert_email_row_def Let_def split: if_splits)
  show "e' = email\<lparr>Email_ID := db_emails_seq d + 1, Email_ReceivedAt := ?t\<rparr>"
    using ins e' by (auto simp: insert_email_row_def Let_def split: if_splits)
  show "same_tables (d\<lparr>db_emails := db_emails d @ [email_row_of (db_emails_seq d + 1) (Email_ReceivedAt e') email],
                  db_emails_seq := db_emails_seq d + 1\<rparr>) d'"
    using ins e' by (auto simp: same_tables_iff insert_email_row_def email_row_of_def Let_def split: if_splits)
qed

lemma insertAttachment_Inr:
  assumes "insertAttachment ul att d = (Inr a', d')"
  shows "a' = att\<lparr>Attachment_ID := db_attachments_seq d + 1\<rparr>"
    and "same_tables (d\<lparr>db_attachments := db_attachments d @
                    [attachment_row_of (db_attachments_seq d + 1) (Attachment_EmailID att) att],
                  db_attachments_seq := db_attachments_seq d + 1\<rparr>) d'"
proof -
  obtain rid where run: "run_stmt (insert_attachment_row att) d = (Inr rid, d')"
    and a': "a' = att\<lparr>Attachment_ID := rid\<rparr>"
    using assms by (auto simp: insertAttachment_def split: prod.splits sum.splits)
  from run obtain fs where ins: "insert_attachment_row att (d\<lparr>db_faults := fs\<rparr>) = (Inr rid, d')"
    using run_stmt_InrD [OF run] by blast
  show "a' = att\<lparr>Attachment_ID := db_attachments_seq d + 1\<rparr>"
    using ins a' by (auto simp: insert_attachment_row_def Let_def split: if_splits)
  show "same_tables (d\<lparr>db_attachments := db_attachments d @
                    [attachment_row_of (db_attachments_seq d + 1) (Attachment_EmailID att) att],
                  db_attachments_seq := db_attachments_seq d + 1\<rparr>) d'"
    using ins by (auto simp: same_tables_iff insert_attachment_row_def attachment_row_of_def Let_def split: if_splits)
qed

text \<open>What the loop over the attachments stores and returns.\<close>

definition stored_attachment :: "int \<Rightarrow> int \<Rightarrow> Attachment \<Rightarrow> Attachment" where
  "stored_attachment rid emailID att = att\<lparr>Attachment_ID := rid, Attachment_EmailID := emailID\<rparr>"

fun stored_attachments :: "int \<Rightarrow> int \<Rightarrow> Attachment list \<Rightarrow> Attachment list" where
  "stored_attachments n emailID [] = []"
| "stored_attachments n emailID (a # as) = stored_attachment (n + 1) emailID a # stored_attachments (n + 1) emailID as"

lemma insert_attachments_Inr:
  assumes "insert_attachments ul emailID atts d = (Inr atts', d')"
  shows "atts' = stored_attachments (db_attachments_seq d) emailID atts
    \<and> same_tables (d\<lparr>db_attachments := db_attachments d @ attachment_rows (db_attachments_seq d) emailID atts,
                  db_attachments_seq := db_attachments_seq d + int (length atts)\<rparr>) d'"
  using assms
proof (induction ul emailID atts d arbitrary: atts' d' rule: insert_attachments.induct)
  case (1 ul emailID d)
  then show ?case by (simp add: same_tables_iff)
next
  case (2 ul emailID att atts d)
  obtain a1 d1 as1 where ins: "insertAttachment ul (att\<lparr>Attachment_EmailID := emailID\<rparr>) d = (Inr a1, d1)"
    and rest: "insert_attachments ul emailID atts d1 = (Inr as1, d')" and atts': "atts' = a1 # as1"
    using "2.prems" by (auto split: prod.splits sum.splits)
  note one = insertAttachment_Inr [OF ins]
  from "2.IH" [OF ins [symmetric] _ rest] one
  show ?case
    by (auto simp: atts' same_tables_iff stored_attachment_def attachment_row_of_def algebra_simps)
qed

lemma rollback_same: "same_tables d0 (rollback_to d0 d)"
  by (simp add: rollback_to_def)

lemma SaveInboundMessage_Inr:
  assumes "SaveInboundMessage ul now email atts d = (Inr (e', atts'), d')"
  shows "Email_InboxID email \<in> ir_id ` set (db_inboxes d)"
    and "e' = email\<lparr>Email_ID := db_emails_seq d + 1,
           Email_ReceivedAt := (if IsZero (Email_ReceivedAt email) then now else Email_ReceivedAt email)\<rparr>"
    and "atts' = stored_attachments (db_attachments_seq d) (Email_ID e') atts"
    and "same_tables (d\<lparr>db_emails := db_emails d @ [email_row_of (Email_ID e') (Email_ReceivedAt e') email],
           db_emails_seq := Email_ID e',
           db_attachments := db_attachments d @ attachment_rows (db_attachments_seq d) (Email_ID e') atts,
           db_attachments_seq := db_attachments_seq d + int (length atts)\<rparr>) d'"
proof -
  obtain d0 d1 d2 u v where b: "tx_stmt d = (Inr u, d0)" and i: "insertEmail ul now email d0 = (Inr e', d1)"
    and a: "insert_attachments ul (Email_ID e') atts d1 = (Inr atts', d2)" and c: "tx_stmt d2 = (Inr v, d')"
    using assms by (auto simp: SaveInboundMessage_def split: prod.splits sum.splits)
  note st = same_tables_eqD(3) [OF b] same_tables_eqD(3) [OF c]
  note ie = insertEmail_Inr [OF i] and ia = insert_attachments_Inr [OF a]
  show "Email_InboxID email \<in> ir_id ` set (db_inboxes d)" using ie(1) st by (simp add: same_tables_iff)
  show "e' = email\<lparr>Email_ID := db_emails_seq d + 1,
           Email_ReceivedAt := (if IsZero (Email_ReceivedAt email) then now else Email_ReceivedAt email)\<rparr>"
    using ie(2) st by (simp add: same_tables_iff)
  show "atts' = stored_attachments (db_attachments_seq d) (Email_ID e') atts"
    using ia ie(3) st by (simp add: same_tables_iff)
  have "Email_ID e' = db_emails_seq d + 1" using ie(2) st by (simp add: same_tables_iff)
  then show "same_tables (d\<lparr>db_emails := db_emails d @ [email_row_of (Email_ID e') (Email_ReceivedAt e') email],
           db_emails_seq := Email_ID e',
           db_attachments := db_attachments d @ attachment_rows (db_attachments_seq d) (Email_ID e') atts,
           db_attachments_seq := db_attachments_seq d + int (length atts)\<rparr>) d'"
    using ie(3) ia st by (simp add: same_tables_iff)
qed

lemma SaveInboundMessage_Inl:
  assumes "SaveInboundMessage ul now email atts d = (Inl e, d')"
  shows "same_tables d d'"
  using assms
  by (auto simp: SaveInboundMessage_def dest!: same_tables_eqD(3) intro: same_tables_trans [OF _ rollback_same]
      split: prod.splits sum.splits)

text \<open>
  C10. Delivery is atomic: whichever statement of the transaction fails and however, a
  delivery that returns an error leaves every table as it was, and one that succeeds has
  stored the email and all its attachments and nothing else.
\<close>
theorem SaveInboundMessage_atomic:
  "case SaveInboundMessage ul now email atts d of
     (Inl e, d') \<Rightarrow> same_tables d d'
   | (Inr (e', atts'), d') \<Rightarrow>
       same_tables (d\<lparr>db_emails := db_emails d @ [email_row_of (Email_ID e') (Email_ReceivedAt e') email],
         db_emails_seq := Email_ID e',
         db_attachments := db_attachments d @ attachment_rows (db_attachments_seq d) (Email_ID e') atts,
         db_attachments_seq := db_attachments_seq d + int (length atts)\<rparr>) d'"
  by (auto dest: SaveInboundMessage_Inl SaveInboundMessage_Inr(4) split: prod.split sum.split)

text \<open>A stored email reads back as itself, with the default subject and whole seconds.\<close>

definition stored_email :: "Email \<Rightarrow> Email" where
  "stored_email e = e\<lparr>Email_Subject := defaultString (Email_Subject e) ''(no subject)'',
     Email_ReceivedAt := fromUnix (toUnix (Email_ReceivedAt e))\<rparr>"

lemma scan_email_row_of:
  "scanEmailRow (email_row_of rid t email) = stored_email (email\<lparr>Email_ID := rid, Email_ReceivedAt := t\<rparr>)"
  by (simp add: scanEmailRow_def email_row_of_def stored_email_def)

lemma attachment_rows_keys: "\<forall>r \<in> set (attachment_rows n e atts). ar_email_id r = e \<and> n < ar_id r"
  by (induction n e atts rule: attachment_rows.induct) (fastforce simp: attachment_row_of_def)+

lemma attachment_rows_sorted: "sorted (map ar_id (attachment_rows n e atts))"
proof (induction n e atts rule: attachment_rows.induct)
  case (2 n e a as)
  then show ?case using attachment_rows_keys [of "n + 1" e as] by (fastforce simp: attachment_row_of_def)
qed simp

lemma scan_attachment_rows: "map scanAttachmentRow (attachment_rows n e atts) = stored_attachments n e atts"
  by (induction n e atts rule: attachment_rows.induct)
     (simp_all add: attachment_row_of_def scanAttachmentRow_def stored_attachment_def)

end
