(* ===== verification/Samples.thy ===== *)
theory Samples
  imports Repository_Inv
begin

text \<open>
  A small database for the concrete instances of the properties: two mailboxes, one unread
  message with an attachment, an enabled and a disabled domain, one login session.
\<close>

definition sample_inbox :: "int \<Rightarrow> string \<Rightarrow> string \<Rightarrow> string \<Rightarrow> inbox_row" where
  "sample_inbox i name token hash = \<lparr>ir_id = i, ir_address = name @ ''@x.test'', ir_local_part = name,
     ir_token = token, ir_password_hash = hash, ir_created_at = 100, ir_last_accessed_at = 100,
     ir_expires_at = 253370764800\<rparr>"

definition sample_email_row :: email_row where
  "sample_email_row = \<lparr>er_id = 1, er_inbox_id = 1, er_message_id = None, er_sender = ''eve@y.test'',
     er_sender_name = None, er_recipient = ''ann@x.test'', er_subject = ''hi'', er_body_html = None,
     er_body_text = Some ''hello'', er_raw_headers = None, er_size_bytes = 5, er_has_attachments = 1,
     er_received_at = 200, er_is_read = 0\<rparr>"

definition sample_attachment_row :: attachment_row where
  "sample_attachment_row = \<lparr>ar_id = 1, ar_email_id = 1, ar_filename = ''f'', ar_content_type = ''text/plain'',
     ar_size_bytes = 1, ar_content = ''x''\<rparr>"

definition sample_db :: db where
  "sample_db = \<lparr>db_inboxes = [sample_inbox 1 ''ann'' ''t1'' ''h1'', sample_inbox 2 ''bob'' ''t2'' ''h2''],
     db_emails = [sample_email_row], db_attachments = [sample_attachment_row],
     db_domains = [\<lparr>dr_id = 1, dr_name = ''x.test'', dr_enabled = 1, dr_created_at = 50\<rparr>,
       \<lparr>dr_id = 2, dr_name = ''old.test'', dr_enabled = 0, dr_created_at = 60\<rparr>],
     db_sessions = [\<lparr>sr_token = ''s1'', sr_inbox_id = 1, sr_created_at = 300, sr_expires_at = 1000\<rparr>],
     db_settings = [], db_inboxes_seq = 2, db_emails_seq = 1, db_attachments_seq = 1, db_domains_seq = 2,
     db_faults = []\<rparr>"

definition sample_message :: Email where
  "sample_message = \<lparr>Email_ID = 0, Email_InboxID = 1, Email_MessageID = [], Email_Sender = ''eve@y.test'',
     Email_SenderName = [], Email_Recipient = ''ann@x.test'', Email_Subject = [], Email_BodyHTML = [],
     Email_BodyText = ''hello'', Email_RawHeaders = [], Email_SizeBytes = 5, Email_HasAttachments = False,
     Email_ReceivedAt = 400 * time_Second, Email_IsRead = False\<rparr>"

lemmas sample_defs = sample_db_def sample_inbox_def sample_email_row_def sample_attachment_row_def sample_message_def

lemma sample_db_fields [simp]:
  "db_inboxes sample_db = [sample_inbox 1 ''ann'' ''t1'' ''h1'', sample_inbox 2 ''bob'' ''t2'' ''h2'']"
  "db_emails sample_db = [sample_email_row]"
  "db_attachments sample_db = [sample_attachment_row]"
  "db_domains sample_db = [\<lparr>dr_id = 1, dr_name = ''x.test'', dr_enabled = 1, dr_created_at = 50\<rparr>,
       \<lparr>dr_id = 2, dr_name = ''old.test'', dr_enabled = 0, dr_created_at = 60\<rparr>]"
  "db_sessions sample_db = [\<lparr>sr_token = ''s1'', sr_inbox_id = 1, sr_created_at = 300, sr_expires_at = 1000\<rparr>]"
  "db_settings sample_db = []" "db_faults sample_db = []"
  "db_inboxes_seq sample_db = 2" "db_emails_seq sample_db = 1" "db_attachments_seq sample_db = 1" "db_domains_seq sample_db = 2"
  by (simp_all add: sample_db_def)

lemma sample_inbox_fields [simp]:
  "ir_id (sample_inbox i name token hash) = i" "ir_address (sample_inbox i name token hash) = name @ ''@x.test''"
  "ir_local_part (sample_inbox i name token hash) = name" "ir_token (sample_inbox i name token hash) = token"
  "ir_password_hash (sample_inbox i name token hash) = hash" "ir_created_at (sample_inbox i name token hash) = 100"
  "ir_last_accessed_at (sample_inbox i name token hash) = 100"
  "ir_expires_at (sample_inbox i name token hash) = 253370764800"
  by (simp_all add: sample_inbox_def)

lemma sample_rows [simp]:
  "er_id sample_email_row = 1" "er_inbox_id sample_email_row = 1" "er_is_read sample_email_row = 0"
  "er_received_at sample_email_row = 200" "er_has_attachments sample_email_row = 1"
  "ar_id sample_attachment_row = 1" "ar_email_id sample_attachment_row = 1"
  by (simp_all add: sample_email_row_def sample_attachment_row_def)

lemma sample_message_fields [simp]:
  "Email_InboxID sample_message = 1" "Email_ReceivedAt sample_message = 400 * time_Second"
  by (simp_all add: sample_message_def)

lemma sample_names: "nocase ''x.test'' = ''x.test''" "nocase ''old.test'' = ''old.test''"
  "nocase ''ann@x.test'' = ''ann@x.test''" "nocase ''bob@x.test'' = ''bob@x.test''"
  by code_simp+

lemma sample_db_wf: "db_wf sample_db"
  by (simp add: db_wf_def ids_wf_def unique_wf_def links_wf_def flags_wf_def keys_ok_def sample_names)

end
