(* ===== verification/Repository_Accounts.thy ===== *)
theory Repository_Accounts
  imports Repository_Spec Samples
begin

text \<open>
  What the inbox, session, domain and settings tables promise: addresses are claimed once
  whatever their case, sessions form a store with deadlines that can be revoked and slid,
  the domains are a map from names to flags, the settings are a map, and the cleanup
  removes exactly what has expired.
\<close>

text \<open>What a successful lookup found.\<close>

lemma IsDomainEnabled_True:
  "IsDomainEnabled name d = (Inr True, d') \<Longrightarrow>
   \<exists>r \<in> set (db_domains d). nocase (dr_name r) = nocase (TrimSpace name) \<and> dr_enabled r = 1"
  by (auto simp: IsDomainEnabled_def split: prod.splits sum.splits if_splits dest!: query_row_Inr)

lemma GetInboxByAddress_Inr:
  "GetInboxByAddress address d = (Inr inbox, d') \<Longrightarrow>
   \<exists>r \<in> set (db_inboxes d). nocase (ir_address r) = nocase address \<and> inbox = scanInbox r"
  by (auto simp: GetInboxByAddress_def scan_one_def split: prod.splits sum.splits dest!: query_row_Inr)

lemma ListDomains_Inr:
  assumes "ListDomains enabled d = (Inr ds, d')"
  shows "\<forall>dm \<in> set ds. \<exists>r \<in> set (db_domains d). dm = scanDomain r \<and> (enabled \<longrightarrow> dr_enabled r = 1)"
  using assms by (auto simp: ListDomains_def split: prod.splits sum.splits dest!: query_Inr)

definition inbox_row_of :: "int \<Rightarrow> int \<Rightarrow> Inbox \<Rightarrow> inbox_row" where
  "inbox_row_of rid now inbox = \<lparr>ir_id = rid, ir_address = Inbox_Address inbox, ir_local_part = Inbox_LocalPart inbox,
     ir_token = Inbox_Token inbox, ir_password_hash = Inbox_PasswordHash inbox, ir_created_at = toUnix now,
     ir_last_accessed_at = toUnix now, ir_expires_at = toUnix (Inbox_ExpiresAt inbox)\<rparr>"

lemma CreateInbox_Inr:
  assumes "CreateInbox ul now inbox d = (Inr created, d')"
  shows "\<exists>rid. inbox_row_of rid now inbox \<in> set (db_inboxes d') \<and> Inbox_ID created = rid \<and> Inbox_Address created = Inbox_Address inbox"
proof -
  obtain rid d1 r where ins: "run_stmt (insert_inbox now inbox) d = (Inr rid, d1)"
    and read: "query_row (\<lambda>d. filter (\<lambda>r. ir_id r = rid) (db_inboxes d)) d1 = (Inr r, d')"
    and c: "Inbox_ID created = ir_id r" "Inbox_Address created = Inbox_Address inbox"
    using assms by (auto simp: CreateInbox_def split: prod.splits sum.splits)
  from run_stmt_InrD [OF ins] have "inbox_row_of rid now inbox \<in> set (db_inboxes d1)"
    by (auto simp: insert_inbox_def inbox_row_of_def Let_def split: if_splits)
  moreover have "db_inboxes d' = db_inboxes d1"
    using query_row_same [of d1 "\<lambda>d. filter (\<lambda>r. ir_id r = rid) (db_inboxes d)"] read by (simp add: same_tablesD)
  moreover have "ir_id r = rid" using query_row_Inr [OF read] by auto
  ultimately show ?thesis using c by auto
qed

section \<open>Inboxes\<close>

lemma db_wf_inboxes:
  "db_wf d \<Longrightarrow> distinct (map ir_id (db_inboxes d))"
  "db_wf d \<Longrightarrow> \<forall>r \<in> set (db_inboxes d). ir_id r \<le> db_inboxes_seq d"
  by (auto simp: db_wf_def ids_wf_def keys_ok_def)

lemma fresh_rows: "\<forall>r \<in> set rows. key r \<le> (n::int) \<Longrightarrow> filter (\<lambda>r. key r = n + 1) rows = []"
  by (force simp: filter_empty_conv)

definition address_taken :: "string \<Rightarrow> db \<Rightarrow> bool" where
  "address_taken address d \<longleftrightarrow> (\<exists>r \<in> set (db_inboxes d). nocase (ir_address r) = nocase address)"

definition token_taken :: "string \<Rightarrow> db \<Rightarrow> bool" where
  "token_taken token d \<longleftrightarrow> (\<exists>r \<in> set (db_inboxes d). ir_token r = token)"

lemma insert_inbox_ok:
  "\<not> address_taken (Inbox_Address inbox) d \<Longrightarrow> \<not> token_taken (Inbox_Token inbox) d \<Longrightarrow>
   insert_inbox now inbox d = (Inr (db_inboxes_seq d + 1),
     d\<lparr>db_inboxes := db_inboxes d @ [inbox_row_of (db_inboxes_seq d + 1) now inbox],
       db_inboxes_seq := db_inboxes_seq d + 1\<rparr>)"
  by (auto simp: insert_inbox_def address_taken_def token_taken_def inbox_row_of_def Let_def)

lemma insert_inbox_conflict:
  "address_taken (Inbox_Address inbox) d \<or> token_taken (Inbox_Token inbox) d \<Longrightarrow>
   \<exists>col. ascii col \<and> insert_inbox now inbox d = (Inl (unique_failed col), d)"
proof (cases "address_taken (Inbox_Address inbox) d")
  case True
  then show ?thesis
    by (intro exI [of _ "''inboxes.address''"]) (auto simp: insert_inbox_def address_taken_def byte_def)
next
  case False
  moreover assume "address_taken (Inbox_Address inbox) d \<or> token_taken (Inbox_Token inbox) d"
  ultimately show ?thesis
    by (intro exI [of _ "''inboxes.token''"]) (auto simp: insert_inbox_def address_taken_def token_taken_def byte_def)
qed

lemma CreateInbox_conflict:
  assumes "db_faults d = []" "address_taken (Inbox_Address inbox) d \<or> token_taken (Inbox_Token inbox) d"
  shows "CreateInbox ul now inbox d = (Inl (Wrap ''create inbox'' ErrConflict), d)"
  using insert_inbox_conflict [OF assms(2), of now] assms(1)
  by (auto simp: CreateInbox_def stmt_ok mapSQLError_unique)

definition created_inbox :: "int \<Rightarrow> int \<Rightarrow> Inbox \<Rightarrow> Inbox" where
  "created_inbox rid now inbox = inbox\<lparr>Inbox_ID := rid, Inbox_CreatedAt := fromUnix (toUnix now),
     Inbox_LastAccessedAt := fromUnix (toUnix now)\<rparr>"

lemma CreateInbox_ok:
  assumes "db_wf d" "db_faults d = []"
    and "\<not> address_taken (Inbox_Address inbox) d" "\<not> token_taken (Inbox_Token inbox) d"
  shows "CreateInbox ul now inbox d = (Inr (created_inbox (db_inboxes_seq d + 1) now inbox),
     d\<lparr>db_inboxes := db_inboxes d @ [inbox_row_of (db_inboxes_seq d + 1) now inbox],
       db_inboxes_seq := db_inboxes_seq d + 1\<rparr>)"
proof -
  have "filter (\<lambda>r. ir_id r = db_inboxes_seq d + 1) (db_inboxes d) = []"
    using db_wf_inboxes(2) [OF assms(1)] by (rule fresh_rows)
  then show ?thesis
    using assms by (simp add: CreateInbox_def stmt_ok insert_inbox_ok inbox_row_of_def created_inbox_def)
qed

lemma GetInboxByAddress_ok:
  "db_faults d = [] \<Longrightarrow> GetInboxByAddress address d =
     ((case filter (\<lambda>r. nocase (ir_address r) = nocase address) (db_inboxes d) of
         [] \<Rightarrow> Inl (Wrap ''get inbox by address'' ErrNotFound) | r # _ \<Rightarrow> Inr (scanInbox r)), d)"
  by (simp add: GetInboxByAddress_def scan_one_def stmt_ok mapScanError_def split: list.split)

lemma GetInboxByAddress_found:
  assumes "db_wf d" "db_faults d = []" "r \<in> set (db_inboxes d)" "nocase (ir_address r) = nocase address"
  shows "GetInboxByAddress address d = (Inr (scanInbox r), d)"
proof -
  have "filter (\<lambda>x. nocase (ir_address x) = nocase (ir_address r)) (db_inboxes d) = [r]"
    using assms(1,3) by (intro filter_key_eq_singleton) (auto simp: db_wf_def unique_wf_def)
  with assms show ?thesis by (simp add: GetInboxByAddress_ok)
qed

text \<open>
  C12. An address is claimed by at most one inbox, whatever the case of its letters: on a
  working database \<open>CreateInbox\<close> succeeds exactly when neither the address nor the token is
  taken; it then answers the next id, and every spelling of the address finds the new inbox
  with its password hash; otherwise it answers a conflict and changes nothing.
\<close>
theorem inbox_address_claimed_once:
  assumes "db_wf d" "db_faults d = []"
  shows "case CreateInbox ul now inbox d of (res, d') \<Rightarrow>
     (if address_taken (Inbox_Address inbox) d \<or> token_taken (Inbox_Token inbox) d
      then res = Inl (Wrap ''create inbox'' ErrConflict) \<and> d' = d
      else \<exists>created. res = Inr created \<and> Inbox_ID created = db_inboxes_seq d + 1
        \<and> (\<forall>spelling. nocase spelling = nocase (Inbox_Address inbox) \<longrightarrow>
             (\<exists>found. GetInboxByAddress spelling d' = (Inr found, d') \<and> Inbox_ID found = Inbox_ID created
                \<and> Inbox_PasswordHash found = Inbox_PasswordHash inbox)))"
proof (cases "address_taken (Inbox_Address inbox) d \<or> token_taken (Inbox_Token inbox) d")
  case True
  then show ?thesis using CreateInbox_conflict [OF assms(2) True] by simp
next
  case False
  let ?row = "inbox_row_of (db_inboxes_seq d + 1) now inbox"
  let ?d' = "snd (CreateInbox ul now inbox d)"
  have ok: "CreateInbox ul now inbox d = (Inr (created_inbox (db_inboxes_seq d + 1) now inbox),
     d\<lparr>db_inboxes := db_inboxes d @ [?row], db_inboxes_seq := db_inboxes_seq d + 1\<rparr>)"
    using False by (intro CreateInbox_ok [OF assms]) auto
  have "db_wf ?d'" by (rule wf.CreateInbox [OF assms(1)])
  moreover have "db_faults ?d' = []" "?row \<in> set (db_inboxes ?d')" using ok assms(2) by simp_all
  ultimately have "GetInboxByAddress spelling ?d' = (Inr (scanInbox ?row), ?d')"
    if "nocase spelling = nocase (Inbox_Address inbox)" for spelling
    using that by (intro GetInboxByAddress_found) (simp_all add: inbox_row_of_def)
  with False ok show ?thesis by (simp add: created_inbox_def scanInbox_def inbox_row_of_def)
qed

definition sample_new_inbox :: Inbox where
  "sample_new_inbox = \<lparr>Inbox_ID = 0, Inbox_Address = ''BOB@x.test'', Inbox_LocalPart = ''BOB'', Inbox_Token = ''t9'',
     Inbox_PasswordHash = ''h9'', Inbox_CreatedAt = 0, Inbox_LastAccessedAt = 0, Inbox_ExpiresAt = 0\<rparr>"

lemma sample_new_inbox_taken: "address_taken (Inbox_Address sample_new_inbox) sample_db"
  unfolding address_taken_def sample_new_inbox_def by code_simp

lemma inbox_address_claimed_once_witness:
  "CreateInbox (\<lambda>n. n) 7 sample_new_inbox sample_db = (Inl (Wrap ''create inbox'' ErrConflict), sample_db)"
  using inbox_address_claimed_once [OF sample_db_wf sample_db_fields(7), where ul = "\<lambda>n. n" and now = 7
      and inbox = sample_new_inbox] sample_new_inbox_taken
  by (simp split: prod.splits)

text \<open>
  C16. Creating an inbox is an insertion and a separate read back: when only the read back
  fails, the caller gets an error although the inbox exists, and trying again is a conflict.
\<close>
theorem create_inbox_lost_read_back:
  assumes "\<not> address_taken (Inbox_Address inbox) d" "\<not> token_taken (Inbox_Token inbox) d"
    and "db_faults d = [None, Some msg]"
  shows "case CreateInbox ul now inbox d of (res, d') \<Rightarrow>
     res = Inl (Wrap ''create inbox'' (ErrText msg))
     \<and> db_inboxes d' = db_inboxes d @ [inbox_row_of (db_inboxes_seq d + 1) now inbox]
     \<and> CreateInbox ul later inbox d' = (Inl (Wrap ''create inbox'' ErrConflict), d')"
proof -
  let ?d1 = "d\<lparr>db_faults := [Some msg]\<rparr>"
  let ?d' = "?d1\<lparr>db_inboxes := db_inboxes d @ [inbox_row_of (db_inboxes_seq d + 1) now inbox],
       db_inboxes_seq := db_inboxes_seq d + 1, db_faults := []\<rparr>"
  have "CreateInbox ul now inbox d = (Inl (Wrap ''create inbox'' (ErrText msg)), ?d')"
    using assms insert_inbox_ok [of inbox ?d1 now]
    by (simp add: CreateInbox_def run_stmt_def query_row_def address_taken_def token_taken_def mapScanError_def)
  moreover have "CreateInbox ul later inbox ?d' = (Inl (Wrap ''create inbox'' ErrConflict), ?d')"
    by (rule CreateInbox_conflict) (simp_all add: address_taken_def inbox_row_of_def)
  ultimately show ?thesis by simp
qed

lemma create_inbox_lost_read_back_witness:
  "\<exists>d'. CreateInbox (\<lambda>n. n) 0 sample_new_inbox (empty_db\<lparr>db_faults := [None, Some ''disk full'']\<rparr>)
      = (Inl (Wrap ''create inbox'' (ErrText ''disk full'')), d') \<and> length (db_inboxes d') = 1"
  using create_inbox_lost_read_back [where inbox = sample_new_inbox and msg = "''disk full''" and ul = "\<lambda>n. n" and now = 0
      and d = "empty_db\<lparr>db_faults := [None, Some ''disk full'']\<rparr>"]
  by (cases "CreateInbox (\<lambda>n. n) 0 sample_new_inbox (empty_db\<lparr>db_faults := [None, Some ''disk full'']\<rparr>)")
     (simp add: address_taken_def token_taken_def empty_db_def)

section \<open>Sessions\<close>

definition session_of :: "string \<Rightarrow> db \<Rightarrow> session_row option" where
  "session_of token d = find (\<lambda>r. sr_token r = token) (db_sessions d)"

definition session_deadline :: "db \<Rightarrow> string \<Rightarrow> int option" where
  "session_deadline d token = map_option (\<lambda>r. fromUnix (sr_expires_at r)) (session_of token d)"

definition sessions_ok :: "db \<Rightarrow> bool" where
  "sessions_ok d \<longleftrightarrow> db_wf d \<and> db_faults d = []"

lemma toUnix_less: "toUnix t < e \<longleftrightarrow> t < fromUnix e"
proof
  assume "toUnix t < e"
  then have "(toUnix t + 1) * time_Second \<le> e * time_Second" by (intro mult_right_mono) auto
  then show "t < fromUnix e" using fromUnix_toUnix_gt [of t] by (simp add: fromUnix_def algebra_simps)
next
  assume "t < fromUnix e"
  then show "toUnix t < e"
    using fromUnix_toUnix_le [of t] by (auto simp: fromUnix_def toUnix_def)
qed

lemma find_key: "distinct (map f xs) \<Longrightarrow> x \<in> set xs \<Longrightarrow> find (\<lambda>y. f y = f x) xs = Some x"
  by (induction xs) auto

lemma find_key_iff: "distinct (map f xs) \<Longrightarrow> find (\<lambda>y. f y = k) xs = Some x \<longleftrightarrow> x \<in> set xs \<and> f x = k"
  using find_key [of f xs x] by (auto simp: find_Some_iff)

lemma find_update:
  "(\<And>r. f (g r) = f r) \<Longrightarrow>
   find (\<lambda>r. f r = n) (update_rows P g rows) = map_option (\<lambda>r. if P r then g r else r) (find (\<lambda>r. f r = n) rows)"
  by (induction rows) (auto simp: update_rows_def)

lemma session_of_iff: "db_wf d \<Longrightarrow> session_of token d = Some r \<longleftrightarrow> r \<in> set (db_sessions d) \<and> sr_token r = token"
  unfolding session_of_def by (rule find_key_iff) (simp add: db_wf_def unique_wf_def)

lemma join_inner:
  "concat (map (\<lambda>i. if ir_id i = sr_inbox_id s \<and> sr_token s = token \<and> u < sr_expires_at s then [(s, i)] else []) xs)
    = (if sr_token s = token then if u < sr_expires_at s then map (Pair s) (filter (\<lambda>x. ir_id x = sr_inbox_id s) xs) else [] else [])"
  by (induction xs) auto

lemma concat_map_filter: "concat (map (\<lambda>x. if P x then f x else []) xs) = concat (map f (filter P xs))"
  by (induction xs) auto

lemma session_join_row:
  assumes "db_wf d" "session_of token d = Some r"
  shows "\<exists>i \<in> set (db_inboxes d). ir_id i = sr_inbox_id r \<and>
    session_join now token d = (if toUnix now < sr_expires_at r then [(r, i)] else [])"
proof -
  have r: "r \<in> set (db_sessions d)" "sr_token r = token" using assms by (simp_all add: session_of_iff)
  with assms(1) obtain i where i: "i \<in> set (db_inboxes d)" "ir_id i = sr_inbox_id r"
    by (auto simp: db_wf_def links_wf_def)
  have s: "filter (\<lambda>x. sr_token x = token) (db_sessions d) = [r]"
    using assms(1) r filter_key_eq_singleton [of sr_token "db_sessions d" r] by (simp add: db_wf_def unique_wf_def)
  have j: "filter (\<lambda>x. ir_id x = sr_inbox_id r) (db_inboxes d) = [i]"
    using assms(1) i filter_key_eq_singleton [of ir_id "db_inboxes d" i] by (simp add: db_wf_inboxes)
  have "session_join now token d = concat (map (\<lambda>s. if toUnix now < sr_expires_at s
      then map (Pair s) (filter (\<lambda>x. ir_id x = sr_inbox_id s) (db_inboxes d)) else [])
      (filter (\<lambda>x. sr_token x = token) (db_sessions d)))"
    unfolding session_join_def join_inner by (rule concat_map_filter)
  with s j have "session_join now token d = (if toUnix now < sr_expires_at r then [(r, i)] else [])" by simp
  with i show ?thesis by blast
qed

lemma session_join_none: "session_of token d = None \<Longrightarrow> session_join now token d = []"
  by (auto simp: session_of_def session_join_def find_None_iff)

lemma GetSession_ok:
  assumes "sessions_ok d"
  shows "case session_of token d of
     None \<Rightarrow> GetSession now token d = (Inl (Wrap ''get session'' ErrNotFound), d)
   | Some r \<Rightarrow> if now < fromUnix (sr_expires_at r)
       then \<exists>i \<in> set (db_inboxes d). ir_id i = sr_inbox_id r \<and> GetSession now token d = (Inr (scanSession r, scanInbox i), d)
       else GetSession now token d = (Inl (Wrap ''get session'' ErrNotFound), d)"
proof (cases "session_of token d")
  case None
  then show ?thesis
    using assms by (simp add: sessions_ok_def GetSession_def scan_one_def stmt_ok session_join_none mapScanError_def)
next
  case (Some r)
  then obtain i where "i \<in> set (db_inboxes d)" "ir_id i = sr_inbox_id r"
    "session_join now token d = (if toUnix now < sr_expires_at r then [(r, i)] else [])"
    using session_join_row assms unfolding sessions_ok_def by blast
  with Some assms show ?thesis
    by (auto simp: sessions_ok_def GetSession_def scan_one_def stmt_ok mapScanError_def toUnix_less)
qed

definition session_live :: "int \<Rightarrow> string \<Rightarrow> db \<Rightarrow> bool" where
  "session_live now token d \<longleftrightarrow> \<not> isl (fst (GetSession now token d))"

lemma session_live_iff:
  "sessions_ok d \<Longrightarrow> session_live t k d \<longleftrightarrow> (\<exists>e. session_deadline d k = Some e \<and> t < e)"
  using GetSession_ok [of d t k]
  by (auto simp: session_live_def session_deadline_def split: option.splits if_splits)

lemma session_of_update:
  "session_of k (d\<lparr>db_sessions := update_rows (\<lambda>r. sr_token r = tok) (\<lambda>r. r\<lparr>sr_expires_at := e\<rparr>) (db_sessions d)\<rparr>)
    = map_option (\<lambda>r. if k = tok then r\<lparr>sr_expires_at := e\<rparr> else r) (session_of k d)"
  by (auto simp: session_of_def find_update find_Some_iff intro!: map_option_cong)

lemma session_of_drop:
  "session_of k (d\<lparr>db_sessions := filter (\<lambda>r. sr_token r \<noteq> tok) (db_sessions d)\<rparr>)
    = (if k = tok then None else session_of k d)"
proof -
  have "find (\<lambda>r. sr_token r = k) (filter (\<lambda>r. sr_token r \<noteq> tok) rows)
      = (if k = tok then None else find (\<lambda>r. sr_token r = k) rows)" for rows :: "session_row list"
    by (induction rows) auto
  then show ?thesis by (simp add: session_of_def)
qed

lemma touch_drop_db:
  assumes "db_faults d = []"
  shows "snd (TouchSession tok t d) =
      d\<lparr>db_sessions := update_rows (\<lambda>r. sr_token r = tok) (\<lambda>r. r\<lparr>sr_expires_at := toUnix t\<rparr>) (db_sessions d)\<rparr>"
    and "snd (DeleteSession tok d) = d\<lparr>db_sessions := filter (\<lambda>r. sr_token r \<noteq> tok) (db_sessions d)\<rparr>"
  using assms by (simp_all add: TouchSession_def DeleteSession_def stmt_ok)

text \<open>The session table keeps whole seconds of a deadline.\<close>

interpretation db_sessions: session_registry session_deadline session_live sessions_ok
    "\<lambda>token d. snd (DeleteSession token d)" "\<lambda>token e d. snd (TouchSession token e d)" "\<lambda>e. fromUnix (toUnix e)"
proof unfold_locales
  fix d t k
  assume "sessions_ok d"
  then show "session_live t k d \<longleftrightarrow> (\<exists>e. session_deadline d k = Some e \<and> t < e)" by (rule session_live_iff)
next
  fix d k
  assume ok: "sessions_ok d"
  then show "session_deadline (snd (DeleteSession k d)) = (session_deadline d)(k := None)"
    by (auto simp: sessions_ok_def touch_drop_db session_deadline_def session_of_drop)
  show "sessions_ok (snd (DeleteSession k d))"
    using ok wf.DeleteSession [of d k] by (simp add: sessions_ok_def touch_drop_db)
next
  fix d k e
  assume ok: "sessions_ok d"
  then show "session_deadline (snd (TouchSession k e d)) =
      (if session_deadline d k = None then session_deadline d else (session_deadline d)(k \<mapsto> fromUnix (toUnix e)))"
    by (auto simp: sessions_ok_def touch_drop_db session_deadline_def session_of_update fun_eq_iff option.map_comp comp_def
        intro!: map_option_cong)
  show "sessions_ok (snd (TouchSession k e d))"
    using ok wf.TouchSession [of d k e] by (simp add: sessions_ok_def touch_drop_db)
next
  fix e show "fromUnix (toUnix e) \<le> e" by (rule fromUnix_toUnix_le)
qed

lemma CreateSession_ok:
  assumes "sessions_ok d" "session_of (Session_Token s) d = None" "Session_InboxID s \<in> ir_id ` set (db_inboxes d)"
  shows "CreateSession ul now s d = (Inr (s\<lparr>Session_CreatedAt := fromUnix (toUnix now)\<rparr>),
     d\<lparr>db_sessions := db_sessions d @ [\<lparr>sr_token = Session_Token s, sr_inbox_id = Session_InboxID s,
        sr_created_at = toUnix now, sr_expires_at = toUnix (Session_ExpiresAt s)\<rparr>]\<rparr>)"
proof -
  have "\<forall>r \<in> set (db_sessions d). sr_token r \<noteq> Session_Token s"
    using assms(2) by (auto simp: session_of_def find_None_iff)
  with assms show ?thesis
    by (auto simp: sessions_ok_def CreateSession_def stmt_ok insert_session_def scan_one_def filter_empty_conv)
qed

lemma session_of_created:
  assumes "sessions_ok d" "session_of (Session_Token s) d = None" "Session_InboxID s \<in> ir_id ` set (db_inboxes d)"
  shows "sessions_ok (snd (CreateSession ul now s d))"
    and "session_of (Session_Token s) (snd (CreateSession ul now s d)) = Some \<lparr>sr_token = Session_Token s,
        sr_inbox_id = Session_InboxID s, sr_created_at = toUnix now, sr_expires_at = toUnix (Session_ExpiresAt s)\<rparr>"
proof -
  show ok: "sessions_ok (snd (CreateSession ul now s d))"
    using assms(1) wf.CreateSession [of d ul now s] CreateSession_ok [OF assms, of ul now] by (simp add: sessions_ok_def)
  then show "session_of (Session_Token s) (snd (CreateSession ul now s d)) = Some \<lparr>sr_token = Session_Token s,
        sr_inbox_id = Session_InboxID s, sr_created_at = toUnix now, sr_expires_at = toUnix (Session_ExpiresAt s)\<rparr>"
    using CreateSession_ok [OF assms, of ul now] session_of_iff by (auto simp: sessions_ok_def)
qed

text \<open>
  C13. A login session lives from its creation to its deadline, in whole seconds: a fresh
  token opens the inbox it was made for exactly before that second, \<open>TouchSession\<close> moves the
  deadline, and after \<open>DeleteSession\<close> the token is dead for good, later touches included.
\<close>
theorem session_lifecycle:
  assumes "db_wf d" "db_faults d = []" "session_of (Session_Token s) d = None"
    and "Session_InboxID s \<in> ir_id ` set (db_inboxes d)" "now < fromUnix (toUnix (Session_ExpiresAt s))"
  shows "case CreateSession ul now s d of (res, d') \<Rightarrow>
    res = Inr (s\<lparr>Session_CreatedAt := fromUnix (toUnix now)\<rparr>)
    \<and> (\<forall>t. session_live t (Session_Token s) d' \<longleftrightarrow> toUnix t < toUnix (Session_ExpiresAt s))
    \<and> (\<exists>sess inbox. fst (GetSession now (Session_Token s) d') = Inr (sess, inbox) \<and> Inbox_ID inbox = Session_InboxID s)
    \<and> (\<forall>t e. session_live t (Session_Token s) (snd (TouchSession (Session_Token s) e d')) \<longleftrightarrow> toUnix t < toUnix e)
    \<and> (\<forall>t e. \<not> session_live t (Session_Token s)
          (snd (TouchSession (Session_Token s) e (snd (DeleteSession (Session_Token s) d')))))"
proof -
  let ?d' = "snd (CreateSession ul now s d)"
  have ok: "sessions_ok d" using assms(1,2) by (simp add: sessions_ok_def)
  note c = CreateSession_ok [OF ok assms(3,4)] and st = session_of_created [OF ok assms(3,4)]
  have live: "session_live t (Session_Token s) ?d' \<longleftrightarrow> toUnix t < toUnix (Session_ExpiresAt s)" for t
    using st by (simp add: session_live_iff session_deadline_def toUnix_less)
  moreover have "\<exists>sess inbox. fst (GetSession now (Session_Token s) ?d') = Inr (sess, inbox) \<and> Inbox_ID inbox = Session_InboxID s"
    using GetSession_ok [OF st(1), where now = now and token = "Session_Token s", of ul now] assms(5)
    by (auto simp: st(2) scanInbox_def)
  moreover have "session_live t (Session_Token s) (snd (TouchSession (Session_Token s) e ?d')) \<longleftrightarrow> toUnix t < toUnix e" for t e
    using db_sessions.live_slide [OF st(1), of now] live assms(5) by (simp add: toUnix_less)
  moreover note db_sessions.revoked_stays_dead [OF st(1)]
  ultimately show ?thesis using c by (simp split: prod.split)
qed

definition sample_session :: Session where
  "sample_session = \<lparr>Session_Token = ''s2'', Session_InboxID = 2, Session_CreatedAt = 0, Session_ExpiresAt = 900 * time_Second\<rparr>"

lemma session_lifecycle_witness:
  "case CreateSession (\<lambda>n. n) 0 sample_session sample_db of (res, d') \<Rightarrow>
     session_live (899 * time_Second) ''s2'' d' \<and> \<not> session_live (900 * time_Second) ''s2'' d'"
  using session_lifecycle [OF sample_db_wf, where s = sample_session and ul = "\<lambda>n. n" and now = 0]
  by (simp add: session_of_def sample_session_def toUnix_def fromUnix_def case_prod_beta)

section \<open>Domains\<close>

text \<open>The table as a map from names, in lower case, to their flags.\<close>

definition domain_view :: "db \<Rightarrow> string \<Rightarrow> bool option" where
  "domain_view d name = map_option (\<lambda>r. dr_enabled r = 1) (find (\<lambda>r. nocase (dr_name r) = name) (db_domains d))"

lemma domain_view_None: "domain_view d name = None \<longleftrightarrow> (\<forall>r \<in> set (db_domains d). nocase (dr_name r) \<noteq> name)"
  by (auto simp: domain_view_def find_None_iff)

lemma find_append: "find P (xs @ ys) = (case find P xs of None \<Rightarrow> find P ys | Some x \<Rightarrow> Some x)"
  by (induction xs) auto

lemma domain_view_create:
  assumes "db_wf d" "db_faults d = []" "ascii name"
  shows "case CreateDomain ul now name d of (res, d') \<Rightarrow>
    (if domain_view d (nocase (TrimSpace name)) = None
     then (\<exists>dom. res = Inr dom \<and> Domain_Name dom = nocase (TrimSpace name) \<and> Domain_Enabled dom)
       \<and> domain_view d' = (domain_view d)(nocase (TrimSpace name) \<mapsto> True)
     else res = Inl (Wrap ''create domain'' ErrConflict) \<and> d' = d)"
proof -
  let ?k = "nocase (TrimSpace name)"
  have k: "ToLower ul (TrimSpace name) = ?k" using assms(3) by (simp add: ToLower_ascii ascii_TrimSpace)
  show ?thesis
  proof (cases "domain_view d ?k")
    case None
    then have free: "\<not> (\<exists>r \<in> set (db_domains d). nocase (dr_name r) = ?k)" by (simp add: domain_view_None)
    have fresh: "filter (\<lambda>r. dr_id r = db_domains_seq d + 1) (db_domains d) = []"
      using assms(1) by (intro fresh_rows) (auto simp: db_wf_def ids_wf_def keys_ok_def)
    have "CreateDomain ul now name d = (Inr (scanDomain \<lparr>dr_id = db_domains_seq d + 1, dr_name = ?k, dr_enabled = 1,
        dr_created_at = toUnix now\<rparr>), d\<lparr>db_domains := db_domains d @ [\<lparr>dr_id = db_domains_seq d + 1, dr_name = ?k,
        dr_enabled = 1, dr_created_at = toUnix now\<rparr>], db_domains_seq := db_domains_seq d + 1\<rparr>)"
      using free fresh assms(2) by (simp add: CreateDomain_def k stmt_ok insert_domain_def Let_def scan_one_def)
    with None free show ?thesis
      by (auto simp: scanDomain_def domain_view_def find_append fun_eq_iff split: option.split)
  next
    case (Some b)
    then have "\<exists>r \<in> set (db_domains d). nocase (dr_name r) = ?k" using domain_view_None [of d ?k] by auto
    then have "insert_domain now ?k d = (Inl (unique_failed ''domains.name''), d)" by (simp add: insert_domain_def)
    moreover have "ascii ''domains.name''" by (simp add: byte_def)
    ultimately show ?thesis
      using Some assms(2) by (simp add: CreateDomain_def k stmt_ok mapSQLError_unique)
  qed
qed

lemma domain_view_set:
  assumes "db_faults d = []"
  shows "case SetDomainEnabled name b d of (res, d') \<Rightarrow>
    (if domain_view d (nocase (TrimSpace name)) = None
     then res = Inl (Wrap ''set domain enabled'' ErrNotFound) \<and> d' = d
     else res = Inr () \<and> domain_view d' = (domain_view d)(nocase (TrimSpace name) \<mapsto> b))"
proof -
  let ?k = "nocase (TrimSpace name)"
  let ?P = "\<lambda>r. nocase (dr_name r) = ?k"
  have "domain_view (d\<lparr>db_domains := update_rows ?P (\<lambda>r. r\<lparr>dr_enabled := boolToInt b\<rparr>) (db_domains d)\<rparr>) n
      = map_option (\<lambda>r. if n = ?k then b else dr_enabled r = 1) (find (\<lambda>r. nocase (dr_name r) = n) (db_domains d))" for n
    by (auto simp: domain_view_def find_update option.map_comp find_Some_iff intro!: map_option_cong)
  then have find: "domain_view (d\<lparr>db_domains := update_rows ?P (\<lambda>r. r\<lparr>dr_enabled := boolToInt b\<rparr>) (db_domains d)\<rparr>) n
      = (if n = ?k then map_option (\<lambda>_. b) (domain_view d n) else domain_view d n)" for n
    by (simp add: domain_view_def option.map_comp comp_def)
  show ?thesis
  proof (cases "domain_view d ?k")
    case None
    then have "\<forall>r \<in> set (db_domains d). \<not> ?P r" by (simp add: domain_view_None)
    then have "update_rows ?P (\<lambda>r. r\<lparr>dr_enabled := boolToInt b\<rparr>) (db_domains d) = db_domains d"
      and "count_rows ?P (db_domains d) = 0"
      by (simp_all add: update_rows_def map_idI count_rows_0)
    with None assms show ?thesis by (simp add: SetDomainEnabled_def stmt_ok update_required_ok)
  next
    case (Some x)
    then have "count_rows ?P (db_domains d) \<noteq> 0"
      using domain_view_None [of d ?k] by (auto simp: count_rows_0)
    with Some assms find show ?thesis
      by (simp add: SetDomainEnabled_def stmt_ok update_required_ok fun_eq_iff)
  qed
qed

lemma domain_view_is_enabled:
  assumes "db_wf d" "db_faults d = []"
  shows "IsDomainEnabled name d = (Inr (domain_view d (nocase (TrimSpace name)) = Some True), d)"
proof -
  let ?k = "nocase (TrimSpace name)"
  have d: "distinct (map (\<lambda>r. nocase (dr_name r)) (db_domains d))" using assms(1) by (simp add: db_wf_def unique_wf_def)
  have "domain_view d ?k = Some True \<longleftrightarrow> (\<exists>r \<in> set (db_domains d). nocase (dr_name r) = ?k \<and> dr_enabled r = 1)"
    using find_key_iff [OF d] by (auto simp: domain_view_def)
  moreover have "filter (\<lambda>r. nocase (dr_name r) = ?k \<and> dr_enabled r = 1) (db_domains d) = []
      \<longleftrightarrow> \<not> (\<exists>r \<in> set (db_domains d). nocase (dr_name r) = ?k \<and> dr_enabled r = 1)"
    by (auto simp: filter_empty_conv)
  ultimately show ?thesis
    using assms(2) by (auto simp: IsDomainEnabled_def stmt_ok split: list.split)
qed

text \<open>
  C14. The domain table implements a map from names to flags: adding a new name maps it to
  enabled and a known one is a conflict, setting a flag updates the map and an unknown name
  is not found, and the enabled test reads the map, all under the spelling without
  surrounding white space and in lower case.
\<close>
theorem domains_refine_a_map:
  assumes "db_wf d" "db_faults d = []" "ascii name"
  shows "(case CreateDomain ul now name d of (res, d') \<Rightarrow>
      if domain_view d (nocase (TrimSpace name)) = None
      then (\<exists>dom. res = Inr dom \<and> Domain_Name dom = nocase (TrimSpace name) \<and> Domain_Enabled dom)
        \<and> domain_view d' = (domain_view d)(nocase (TrimSpace name) \<mapsto> True)
      else res = Inl (Wrap ''create domain'' ErrConflict) \<and> d' = d)
    \<and> (case SetDomainEnabled name b d of (res, d') \<Rightarrow>
      if domain_view d (nocase (TrimSpace name)) = None
      then res = Inl (Wrap ''set domain enabled'' ErrNotFound) \<and> d' = d
      else res = Inr () \<and> domain_view d' = (domain_view d)(nocase (TrimSpace name) \<mapsto> b))
    \<and> fst (IsDomainEnabled name d) = Inr (domain_view d (nocase (TrimSpace name)) = Some True)"
  using domain_view_create [OF assms] domain_view_set [OF assms(2)] domain_view_is_enabled [OF assms(1,2)] by simp

lemma domains_refine_a_map_witness:
  "fst (IsDomainEnabled ''Old.test'' (snd (SetDomainEnabled ''Old.test'' True sample_db))) = Inr True"
proof -
  have a: "ascii ''Old.test''" by (simp add: byte_def)
  have "TrimSpace ''Old.test'' = ''Old.test''"
    by (rule TrimSpace_no_space_ascii [OF a]) (simp add: is_space_def byte_def)
  moreover have "nocase ''Old.test'' = ''old.test''" by code_simp
  ultimately have k: "nocase (TrimSpace ''Old.test'') = ''old.test''" by simp
  have v: "domain_view sample_db ''old.test'' = Some False" by (simp add: domain_view_def sample_names)
  have "domain_view (snd (SetDomainEnabled ''Old.test'' True sample_db)) = (domain_view sample_db)(''old.test'' \<mapsto> True)"
    using domains_refine_a_map [OF sample_db_wf sample_db_fields(7) a, THEN conjunct2, THEN conjunct1]
    by (simp add: k v case_prod_beta)
  moreover have "db_faults (snd (SetDomainEnabled name b sample_db)) = []" for name b
    by (simp add: SetDomainEnabled_def stmt_ok)
  ultimately show ?thesis
    using domain_view_is_enabled [OF wf.SetDomainEnabled [OF sample_db_wf], where name = "''Old.test''"] k by simp
qed

section \<open>Settings\<close>

definition setting_view :: "db \<Rightarrow> string \<Rightarrow> string option" where
  "setting_view d key = map_option tr_value (find (\<lambda>r. tr_key r = key) (db_settings d))"

definition settings_ok :: "db \<Rightarrow> bool" where
  "settings_ok d \<longleftrightarrow> db_wf d \<and> db_faults d = []"

lemma find_filter: "find P xs = (case filter P xs of [] \<Rightarrow> None | x # _ \<Rightarrow> Some x)"
  by (induction xs) auto

lemma GetSetting_ok:
  "db_faults d = [] \<Longrightarrow> GetSetting key d =
     (case setting_view d key of None \<Rightarrow> Inl (Wrap ''get setting'' ErrNotFound) | Some v \<Rightarrow> Inr v, d)"
  by (simp add: GetSetting_def scan_one_def stmt_ok mapScanError_def setting_view_def find_filter split: list.split)

lemma SetSetting_ok:
  "db_faults d = [] \<Longrightarrow>
   SetSetting now key v d = (Inr (), d\<lparr>db_settings := upsert_setting now key v (db_settings d)\<rparr>)"
  by (simp add: SetSetting_def stmt_ok)

lemma setting_view_upsert:
  "setting_view (d\<lparr>db_settings := upsert_setting now key v (db_settings d)\<rparr>) = (setting_view d)(key \<mapsto> v)"
proof
  fix k
  show "setting_view (d\<lparr>db_settings := upsert_setting now key v (db_settings d)\<rparr>) k = ((setting_view d)(key \<mapsto> v)) k"
  proof (cases "\<exists>r \<in> set (db_settings d). tr_key r = key")
    case True
    then have "find (\<lambda>r. tr_key r = key) (db_settings d) \<noteq> None" by (auto simp: find_None_iff)
    with True show ?thesis
      by (auto simp: setting_view_def upsert_setting_def find_update find_Some_iff option.map_comp intro!: map_option_cong)
  next
    case False
    then have "find (\<lambda>r. tr_key r = key) (db_settings d) = None" by (auto simp: find_None_iff)
    with False show ?thesis by (auto simp: setting_view_def upsert_setting_def find_append split: option.split)
  qed
qed

interpretation settings: key_value setting_view "\<lambda>k v d. snd (SetSetting now k v d)" settings_ok for now
proof unfold_locales
  fix d k v
  assume ok: "settings_ok d"
  then show "setting_view (snd (SetSetting now k v d)) = (setting_view d)(k \<mapsto> v)"
    by (simp add: settings_ok_def SetSetting_ok setting_view_upsert)
  show "settings_ok (snd (SetSetting now k v d))"
    using ok wf.SetSetting [of d now k v] by (simp add: settings_ok_def SetSetting_ok)
qed

text \<open>
  A setting reads back as it was last written, and writing one key leaves every other
  key as it was.
\<close>
lemma settings_read_back:
  assumes "db_wf d" "db_faults d = []"
  shows "case SetSetting now key v (snd (SetSetting before key w d)) of (res, d') \<Rightarrow>
    res = Inr () \<and> fst (GetSetting key d') = Inr v
    \<and> (\<forall>k. k \<noteq> key \<longrightarrow> fst (GetSetting k d') = fst (GetSetting k d))"
proof -
  let ?d1 = "snd (SetSetting before key w d)" and ?d2 = "snd (SetSetting now key v (snd (SetSetting before key w d)))"
  have ok: "settings_ok d" "settings_ok ?d1" "settings_ok ?d2"
    using assms settings.inv_update by (simp_all add: settings_ok_def)
  then have f: "db_faults d = []" "db_faults ?d1 = []" "db_faults ?d2 = []" by (simp_all add: settings_ok_def)
  have "fst (SetSetting now key v ?d1) = Inr ()" using f by (simp add: SetSetting_ok)
  moreover have "fst (GetSetting key ?d2) = Inr v"
    using f settings.lookup_update_same [OF ok(2)] by (simp add: GetSetting_ok)
  moreover have "fst (GetSetting k ?d2) = fst (GetSetting k d)" if "k \<noteq> key" for k
    using f that settings.lookup_update_other [OF ok(2) that] settings.lookup_update_other [OF ok(1) that]
    by (simp add: GetSetting_ok)
  ultimately show ?thesis by (simp add: case_prod_beta)
qed

lemma settings_read_back_witness:
  "fst (GetSetting ''k'' (snd (SetSetting 9 ''k'' ''new'' (snd (SetSetting 5 ''k'' ''old'' sample_db))))) = Inr ''new''"
  using settings_read_back [OF sample_db_wf, where now = 9 and key = "''k''" and v = "''new''" and before = 5 and w = "''old''"]
  by (simp add: case_prod_beta)

section \<open>Expiry\<close>

lemma key_gone:
  "inj_on f (set rows) \<Longrightarrow> i \<in> f ` set rows \<Longrightarrow>
   i \<notin> f ` set (filter Q rows) \<longleftrightarrow> i \<in> f ` set (filter (\<lambda>r. \<not> Q r) rows)"
  by (auto simp: inj_on_def)

definition expired :: "int \<Rightarrow> inbox_row \<Rightarrow> bool" where
  "expired now r \<longleftrightarrow> ir_expires_at r \<le> toUnix now"

text \<open>
  The cleanup removes exactly what has expired: every expired inbox with its messages,
  their attachments and its sessions, and nothing that belongs to another inbox; it answers
  the number of inboxes removed, and right afterwards there is nothing left to remove.
\<close>
lemma expired_inboxes_go_with_their_mail:
  assumes "db_wf d" "db_faults d = []"
  shows "case DeleteExpiredInboxes now d of (res, d') \<Rightarrow>
    res = Inr (length (filter (expired now) (db_inboxes d)))
    \<and> db_inboxes d' = filter (\<lambda>r. \<not> expired now r) (db_inboxes d)
    \<and> db_emails d' = filter (\<lambda>e. er_inbox_id e \<in> ir_id ` set (db_inboxes d')) (db_emails d)
    \<and> db_attachments d' = filter (\<lambda>a. ar_email_id a \<in> er_id ` set (db_emails d')) (db_attachments d)
    \<and> db_sessions d' = filter (\<lambda>s. sr_inbox_id s \<in> ir_id ` set (db_inboxes d')) (db_sessions d)
    \<and> fst (DeleteExpiredInboxes now d') = Inr 0"
proof -
  let ?P = "expired now"
  let ?d' = "delete_inboxes ?P d"
  have run: "DeleteExpiredInboxes now d = (Inr (length (filter ?P (db_inboxes d))), delete_inboxes ?P d)" if "db_faults d = []" for d
    using that by (simp add: DeleteExpiredInboxes_def delete_count_def stmt_ok count_rows_def expired_def [abs_def])
  have inj: "inj_on ir_id (set (db_inboxes d))" "inj_on er_id (set (db_emails d))"
    using assms(1) by (simp_all add: db_wf_def ids_wf_def keys_ok_def distinct_map)
  have links: "\<forall>e \<in> set (db_emails d). er_inbox_id e \<in> ir_id ` set (db_inboxes d)"
    "\<forall>a \<in> set (db_attachments d). ar_email_id a \<in> er_id ` set (db_emails d)"
    "\<forall>s \<in> set (db_sessions d). sr_inbox_id s \<in> ir_id ` set (db_inboxes d)"
    using assms(1) by (simp_all add: db_wf_def links_wf_def)
  have inboxes: "db_inboxes ?d' = filter (\<lambda>r. \<not> ?P r) (db_inboxes d)"
    by (simp add: delete_inboxes_def delete_emails_def Let_def)
  have emails: "db_emails ?d' = filter (\<lambda>e. er_inbox_id e \<in> ir_id ` set (db_inboxes ?d')) (db_emails d)"
    using links(1) key_gone [OF inj(1)] unfolding inboxes
    by (simp add: delete_inboxes_def delete_emails_def Let_def del: set_filter cong: filter_cong)
  have "db_attachments ?d' = filter (\<lambda>a. ar_email_id a \<notin> er_id ` set
      (filter (\<lambda>e. er_inbox_id e \<in> ir_id ` set (filter ?P (db_inboxes d))) (db_emails d))) (db_attachments d)"
    by (simp add: delete_inboxes_def delete_emails_def Let_def)
  also have "\<dots> = filter (\<lambda>a. ar_email_id a \<in> er_id ` set
      (filter (\<lambda>e. er_inbox_id e \<notin> ir_id ` set (filter ?P (db_inboxes d))) (db_emails d))) (db_attachments d)"
    using links(2) key_gone [OF inj(2)] by (simp del: set_filter cong: filter_cong)
  also have "filter (\<lambda>e. er_inbox_id e \<notin> ir_id ` set (filter ?P (db_inboxes d))) (db_emails d) = db_emails ?d'"
    by (simp add: delete_inboxes_def delete_emails_def Let_def)
  finally have attachments: "db_attachments ?d' = filter (\<lambda>a. ar_email_id a \<in> er_id ` set (db_emails ?d')) (db_attachments d)" .
  have sessions: "db_sessions ?d' = filter (\<lambda>s. sr_inbox_id s \<in> ir_id ` set (db_inboxes ?d')) (db_sessions d)"
    using links(3) key_gone [OF inj(1)] unfolding inboxes
    by (simp add: delete_inboxes_def delete_emails_def Let_def del: set_filter cong: filter_cong)
  have "db_faults ?d' = []" using assms(2) by (simp add: delete_inboxes_def delete_emails_def Let_def)
  from run [OF this] have again: "fst (DeleteExpiredInboxes now ?d') = Inr 0" by (simp add: inboxes)
  show ?thesis
    unfolding run [OF assms(2)] prod.case
    by (intro conjI refl inboxes emails attachments sessions again)
qed

lemma expired_inboxes_go_with_their_mail_witness:
  "fst (DeleteExpiredInboxes (253370764800 * time_Second) sample_db) = Inr 2"
  using expired_inboxes_go_with_their_mail [OF sample_db_wf, where now = "253370764800 * time_Second"]
  by (simp add: expired_def toUnix_def case_prod_beta)

end
