(* ===== verification/Http.thy ===== *)
theory Http
  imports Rate_Limit Auth Client_Ip Repository_Accounts
begin

text \<open>
  What the handlers of \<open>internal/web\<close> use of net/http: requests, and a response writer whose
  status and headers are fixed by the first write. Header names are in their canonical form.
  A request carries its parsed cookies and its body; a response body is a list of chunks, and
  a page is the data its template is executed with.
\<close>

section \<open>Requests\<close>

record request =
  rq_method :: string
  rq_path :: string
  rq_host :: string
  rq_tls :: bool
  rq_remote :: string
  rq_content_length :: int
  rq_headers :: "(string \<times> string) list"
  rq_cookies :: "(string \<times> string) list"
  rq_body :: string
  rq_body_limit :: "int option"
  rq_path_values :: "(string \<times> string) list"
  rq_inbox :: "Inbox option"

definition MethodGet :: string where "MethodGet = ''GET''"
definition MethodHead :: string where "MethodHead = ''HEAD''"
definition MethodPost :: string where "MethodPost = ''POST''"

definition first_value :: "string \<Rightarrow> (string \<times> string) list \<Rightarrow> string" where
  "first_value key kvs = (case map_of kvs key of None \<Rightarrow> [] | Some v \<Rightarrow> v)"

definition header_Get :: "string \<Rightarrow> request \<Rightarrow> string" where
  "header_Get key r = first_value key (rq_headers r)"

text \<open>\<open>r.Cookie(name)\<close>: the value of the first cookie of that name.\<close>

definition Cookie :: "string \<Rightarrow> request \<Rightarrow> string option" where
  "Cookie name r = map_of (rq_cookies r) name"

definition PathValue :: "string \<Rightarrow> request \<Rightarrow> string" where
  "PathValue name r = first_value name (rq_path_values r)"

text \<open>\<open>ParseForm\<close> on a POST body: the reader that \<open>MaxBytesReader\<close> installed fails a longer body;
  \<open>parse\<close> is the form decoder. \<open>PostFormValue\<close> is the first value of a key.\<close>

definition ParseForm :: "(string \<Rightarrow> (string \<times> string) list result) \<Rightarrow> request \<Rightarrow> (string \<times> string) list result" where
  "ParseForm parse r =
     (case rq_body_limit r of
        Some n \<Rightarrow> if n < int (length (rq_body r)) then Inl (ErrText ''http: request body too large'') else parse (rq_body r)
      | None \<Rightarrow> parse (rq_body r))"

definition PostFormValue :: "string \<Rightarrow> (string \<times> string) list \<Rightarrow> string" where
  "PostFormValue key form = first_value key form"

section \<open>Pages\<close>

record commonData =
  Title :: string
  cd_Inbox :: "Inbox option"

record apiEmail =
  ae_ID :: int
  ae_Sender :: string
  ae_SenderName :: string
  ae_Subject :: string
  ae_HasAttachments :: bool
  ae_IsRead :: bool
  ae_ReceivedAt :: int

record apiEmailsResponse =
  aer_Address :: string
  aer_ExpiresAt :: int
  aer_UnreadCount :: nat
  aer_Emails :: "apiEmail list"

datatype page =
    landingData commonData
  | loginData commonData string
  | registerData commonData "Domain list" string string
  | registerSuccessData commonData string string
  | indexData commonData nat "Email list"
  | emailData commonData Email "Attachment list" string string
  | adminData commonData "Domain list" string
  | adminLoginData commonData string
  | adminSetupData commonData string

text \<open>\<open>ExecuteTemplate\<close> writes the page, or fails, possibly after having written a part of it.\<close>

datatype render_result = Rendered | RenderFailed bool

type_synonym renderer = "page \<Rightarrow> render_result"

section \<open>Responses\<close>

record cookie =
  ck_Name :: string
  ck_Value :: string
  ck_Path :: string
  ck_HttpOnly :: bool
  ck_SameSiteLax :: bool
  ck_Secure :: bool
  ck_MaxAge :: int

datatype chunk =
    Bytes string
  | Page page
  | PartOfPage page
  | JsonEmails apiEmailsResponse
  | RedirectLink string int

record response_head =
  rh_headers :: "string \<Rightarrow> string option"
  rh_cookies :: "cookie list"

text \<open>\<open>rw_head\<close> is the live header map; \<open>rw_sent\<close> what \<open>WriteHeader\<close> fixed.\<close>

record response_writer =
  rw_head :: response_head
  rw_sent :: "(int \<times> response_head) option"
  rw_body :: "chunk list"

definition new_writer :: response_writer where
  "new_writer = \<lparr>rw_head = \<lparr>rh_headers = Map.empty, rh_cookies = []\<rparr>, rw_sent = None, rw_body = []\<rparr>"

definition header_Set :: "string \<Rightarrow> string \<Rightarrow> response_writer \<Rightarrow> response_writer" where
  "header_Set k v w = w\<lparr>rw_head := (rw_head w)\<lparr>rh_headers := (rh_headers (rw_head w))(k \<mapsto> v)\<rparr>\<rparr>"

definition header_Del :: "string \<Rightarrow> response_writer \<Rightarrow> response_writer" where
  "header_Del k w = w\<lparr>rw_head := (rw_head w)\<lparr>rh_headers := (rh_headers (rw_head w))(k := None)\<rparr>\<rparr>"

definition SetCookie :: "cookie \<Rightarrow> response_writer \<Rightarrow> response_writer" where
  "SetCookie c w = w\<lparr>rw_head := (rw_head w)\<lparr>rh_cookies := rh_cookies (rw_head w) @ [c]\<rparr>\<rparr>"

definition WriteHeader :: "int \<Rightarrow> response_writer \<Rightarrow> response_writer" where
  "WriteHeader code w = (case rw_sent w of None \<Rightarrow> w\<lparr>rw_sent := Some (code, rw_head w)\<rparr> | Some _ \<Rightarrow> w)"

definition Write :: "chunk \<Rightarrow> response_writer \<Rightarrow> response_writer" where
  "Write c w = (let w' = WriteHeader 200 w in w'\<lparr>rw_body := rw_body w' @ [c]\<rparr>)"

text \<open>What the client gets: a handler that wrote nothing sends status 200 with an empty body.\<close>

definition finish :: "response_writer \<Rightarrow> response_writer" where
  "finish w = WriteHeader 200 w"

definition resp_status :: "response_writer \<Rightarrow> int" where
  "resp_status w = (case rw_sent w of None \<Rightarrow> 200 | Some (code, _) \<Rightarrow> code)"

definition resp_head :: "response_writer \<Rightarrow> response_head" where
  "resp_head w = (case rw_sent w of None \<Rightarrow> rw_head w | Some (_, h) \<Rightarrow> h)"

definition http_Error :: "string \<Rightarrow> int \<Rightarrow> response_writer \<Rightarrow> response_writer" where
  "http_Error msg code w =
     Write (Bytes (msg @ [CHR 0x0A]))
       (WriteHeader code
         (header_Set ''X-Content-Type-Options'' ''nosniff''
           (header_Set ''Content-Type'' ''text/plain; charset=utf-8''
             (header_Del ''Content-Length'' w))))"

definition NotFound :: "response_writer \<Rightarrow> response_writer" where
  "NotFound w = http_Error ''404 page not found'' 404 w"

text \<open>\<open>http.Redirect\<close> to a path that starts with a slash.\<close>

definition Redirect :: "request \<Rightarrow> string \<Rightarrow> int \<Rightarrow> response_writer \<Rightarrow> response_writer" where
  "Redirect r url code w =
     (let had = (rh_headers (rw_head w) ''Content-Type'' \<noteq> None);
          w1 = header_Set ''Location'' url w;
          w2 = (if \<not> had \<and> (rq_method r = MethodGet \<or> rq_method r = MethodHead)
                then header_Set ''Content-Type'' ''text/html; charset=utf-8'' w1 else w1);
          w3 = WriteHeader code w2
      in if \<not> had \<and> rq_method r = MethodGet then Write (RedirectLink url code) w3 else w3)"

text \<open>\<open>ExecuteTemplate(w, "base", data)\<close>: whether it succeeded, and the writer after it.\<close>

definition ExecuteTemplate :: "renderer \<Rightarrow> page \<Rightarrow> response_writer \<Rightarrow> bool \<times> response_writer" where
  "ExecuteTemplate render p w =
     (case render p of
        Rendered \<Rightarrow> (True, Write (Page p) w)
      | RenderFailed wrote \<Rightarrow> (False, if wrote then Write (PartOfPage p) w else w))"

text \<open>A plain request, for concrete instances.\<close>

definition plain_request :: "string \<Rightarrow> string \<Rightarrow> request" where
  "plain_request m path = \<lparr>rq_method = m, rq_path = path, rq_host = ''mail.test'', rq_tls = False,
     rq_remote = ''10.0.0.9:4711'', rq_content_length = 0, rq_headers = [], rq_cookies = [], rq_body = [],
     rq_body_limit = None, rq_path_values = [], rq_inbox = None\<rparr>"

section \<open>What every handler keeps of the writer\<close>

text \<open>
  The contract between the writer and the handlers: a property \<open>W\<close> of writers that the
  primitive operations keep, where \<open>ks\<close> are header names that handlers leave alone, is kept
  by all that is built from them.
\<close>

definition handler_headers :: "string set" where
  "handler_headers = {''Content-Type'', ''Content-Length'', ''Content-Disposition'', ''Location'', ''Retry-After'', ''Cache-Control'', ''Allow''}"

locale writer_inv =
  fixes W :: "response_writer \<Rightarrow> bool"
  assumes set: "W w \<Longrightarrow> k \<in> handler_headers \<Longrightarrow> W (header_Set k v w)"
    and nosniff: "W w \<Longrightarrow> W (header_Set ''X-Content-Type-Options'' ''nosniff'' w)"
    and del: "W w \<Longrightarrow> k \<in> handler_headers \<Longrightarrow> W (header_Del k w)"
    and set_cookie: "W w \<Longrightarrow> W (SetCookie c w)"
    and write_header: "W w \<Longrightarrow> W (WriteHeader code w)"
    and body: "W w \<Longrightarrow> W (w\<lparr>rw_body := cs\<rparr>)"
begin

lemma headers:
  "W w \<Longrightarrow> W (header_Set ''Content-Type'' v w)" "W w \<Longrightarrow> W (header_Set ''Content-Length'' v w)"
  "W w \<Longrightarrow> W (header_Set ''Content-Disposition'' v w)" "W w \<Longrightarrow> W (header_Set ''Location'' v w)"
  "W w \<Longrightarrow> W (header_Set ''Retry-After'' v w)" "W w \<Longrightarrow> W (header_Set ''Cache-Control'' v w)"
  "W w \<Longrightarrow> W (header_Del ''Content-Length'' w)" "W w \<Longrightarrow> W (header_Set ''Allow'' v w)"
  by (simp_all add: set del handler_headers_def)

lemma Write: "W w \<Longrightarrow> W (Write c w)"
  by (simp add: Write_def Let_def body write_header)

lemma http_Error: "W w \<Longrightarrow> W (http_Error msg code w)"
  by (simp add: http_Error_def Write write_header nosniff headers)

lemma NotFound: "W w \<Longrightarrow> W (NotFound w)"
  by (simp add: NotFound_def http_Error)

lemma Redirect: "W w \<Longrightarrow> W (Redirect r url code w)"
  by (simp add: Redirect_def Let_def Write write_header headers)

lemma ExecuteTemplate: "W w \<Longrightarrow> W (snd (ExecuteTemplate render p w))"
  by (simp add: ExecuteTemplate_def Write split: render_result.split)

lemma ExecuteTemplate_eq: "ExecuteTemplate render p w = (ok, w') \<Longrightarrow> W w \<Longrightarrow> W w'"
  using ExecuteTemplate [of w render p] by simp

lemmas primitives = headers Write http_Error NotFound Redirect set_cookie write_header

end

end
