(* ===== verification/Web_Security.thy ===== *)
theory Web_Security
  imports Http
begin

text \<open>
  \<open>internal/web/security.go\<close>: the security headers, the checks on POST requests, and the
  rounding of \<open>Retry-After\<close>. A handler here is a function of the request and the writer that
  returns a result with the writer it leaves, so that a middleware can wrap any of them.
  \<open>url.Parse\<close> is a parameter: the host and scheme of a URL, or nothing for an error.
\<close>

definition maxPostBodyBytes :: int where
  "maxPostBodyBytes = 64 * 1024"

definition staticCacheControl :: string where
  "staticCacheControl = ''public, max-age=86400''"

definition quoted :: "string \<Rightarrow> string" where
  "quoted s = CHR 0x27 # s @ [CHR 0x27]"

definition contentSecurityPolicy :: string where
  "contentSecurityPolicy = ''default-src '' @ quoted ''self'' @ ''; img-src '' @ quoted ''self'' @ '' data:; style-src '' @ quoted ''self''
     @ ''; script-src '' @ quoted ''none'' @ ''; object-src '' @ quoted ''none'' @ ''; base-uri '' @ quoted ''none''
     @ ''; frame-ancestors '' @ quoted ''none'' @ ''; form-action '' @ quoted ''self''"

section \<open>Middleware\<close>

definition securityHeadersMiddleware ::
  "(request \<Rightarrow> response_writer \<Rightarrow> 's \<times> response_writer) \<Rightarrow> request \<Rightarrow> response_writer \<Rightarrow> 's \<times> response_writer" where
  "securityHeadersMiddleware next r w =
     next r (header_Set ''Content-Security-Policy'' contentSecurityPolicy
       (header_Set ''Referrer-Policy'' ''no-referrer''
         (header_Set ''X-Frame-Options'' ''DENY''
           (header_Set ''X-Content-Type-Options'' ''nosniff'' w))))"

definition sameOriginURL :: "(nat \<Rightarrow> nat \<Rightarrow> bool) \<Rightarrow> (string \<Rightarrow> (string \<times> string) option) \<Rightarrow> request \<Rightarrow> string \<Rightarrow> bool" where
  "sameOriginURL uf url_parse r v =
     (if v = ''null'' then False
      else case url_parse v of
        None \<Rightarrow> False
      | Some (host, scheme) \<Rightarrow>
          if host = [] \<or> \<not> EqualFold uf host (rq_host r) then False
          else EqualFold uf scheme (if rq_tls r then ''https'' else ''http''))"

definition isSameOriginRequest :: "(nat \<Rightarrow> nat \<Rightarrow> bool) \<Rightarrow> (string \<Rightarrow> (string \<times> string) option) \<Rightarrow> request \<Rightarrow> bool" where
  "isSameOriginRequest uf url_parse r =
     (let site = TrimSpace (header_Get ''Sec-Fetch-Site'' r) in
      if site = ''same-origin'' \<or> site = ''none'' then True
      else if site = ''same-site'' \<or> site = ''cross-site'' then False
      else if TrimSpace (header_Get ''Origin'' r) \<noteq> [] then sameOriginURL uf url_parse r (TrimSpace (header_Get ''Origin'' r))
      else if TrimSpace (header_Get ''Referer'' r) \<noteq> [] then sameOriginURL uf url_parse r (TrimSpace (header_Get ''Referer'' r))
      else False)"

text \<open>\<open>s0\<close> is the result for a request that the middleware answers itself.\<close>

definition postSecurityMiddleware ::
  "(nat \<Rightarrow> nat \<Rightarrow> bool) \<Rightarrow> (string \<Rightarrow> (string \<times> string) option) \<Rightarrow> 's
    \<Rightarrow> (request \<Rightarrow> response_writer \<Rightarrow> 's \<times> response_writer) \<Rightarrow> request \<Rightarrow> response_writer \<Rightarrow> 's \<times> response_writer" where
  "postSecurityMiddleware uf url_parse s0 next r w =
     (if rq_method r \<noteq> MethodPost then next r w
      else if maxPostBodyBytes < rq_content_length r then (s0, http_Error ''request body too large'' 413 w)
      else let r' = r\<lparr>rq_body_limit := Some maxPostBodyBytes\<rparr> in
        if \<not> isSameOriginRequest uf url_parse r' then (s0, http_Error ''cross-origin POST rejected'' 403 w)
        else next r' w)"

definition wrapHTTP ::
  "(nat \<Rightarrow> nat \<Rightarrow> bool) \<Rightarrow> (string \<Rightarrow> (string \<times> string) option) \<Rightarrow> 's
    \<Rightarrow> (request \<Rightarrow> response_writer \<Rightarrow> 's \<times> response_writer) \<Rightarrow> request \<Rightarrow> response_writer \<Rightarrow> 's \<times> response_writer" where
  "wrapHTTP uf url_parse s0 next =
     securityHeadersMiddleware (postSecurityMiddleware uf url_parse s0 next)"

text \<open>\<open>Duration.Round(time.Second)\<close>, away from zero at a half and saturating, and the whole
  seconds of \<open>int(d.Seconds())\<close>.\<close>

definition round_second :: "int \<Rightarrow> int" where
  "round_second d =
     (let r = \<bar>d\<bar> mod time_Second in
      if d < 0 then
        (if 2 * r < time_Second then d + r
         else if min_int64 \<le> d - time_Second + r then d - time_Second + r else min_int64)
      else if 2 * r < time_Second then d - r
      else if d + time_Second - r \<le> max_int64 then d + time_Second - r else max_int64)"

definition int_Seconds :: "int \<Rightarrow> int" where
  "int_Seconds d = sgn d * (\<bar>d\<bar> div time_Second)"

definition retryAfterSeconds :: "int \<Rightarrow> string" where
  "retryAfterSeconds retryAfter =
     (let seconds = int_Seconds (round_second retryAfter) in Itoa (if seconds < 1 then 1 else seconds))"

definition staticHandler :: "(string \<Rightarrow> response_writer \<Rightarrow> response_writer) \<Rightarrow> request \<Rightarrow> response_writer \<Rightarrow> response_writer" where
  "staticHandler file_server r w =
     (let w' = header_Set ''Cache-Control'' staticCacheControl w in
      if HasPrefix (rq_path r) ''/static/'' then file_server (TrimPrefix (rq_path r) ''/static/'') w' else NotFound w')"

section \<open>Security headers\<close>

definition has_security_headers :: "response_head \<Rightarrow> bool" where
  "has_security_headers h \<longleftrightarrow>
     rh_headers h ''X-Content-Type-Options'' = Some ''nosniff'' \<and>
     rh_headers h ''X-Frame-Options'' = Some ''DENY'' \<and>
     rh_headers h ''Referrer-Policy'' = Some ''no-referrer'' \<and>
     rh_headers h ''Content-Security-Policy'' = Some contentSecurityPolicy"

definition secured :: "response_writer \<Rightarrow> bool" where
  "secured w \<longleftrightarrow> has_security_headers (rw_head w) \<and> (\<forall>code h. rw_sent w = Some (code, h) \<longrightarrow> has_security_headers h)"

lemma secured_head: "secured w \<Longrightarrow> has_security_headers (resp_head w)"
  by (auto simp: secured_def resp_head_def split: option.split)

interpretation secured: writer_inv secured
  by unfold_locales (auto simp: secured_def has_security_headers_def header_Set_def header_Del_def SetCookie_def
      WriteHeader_def handler_headers_def split: option.splits)

lemma secured_new:
  "secured (header_Set ''Content-Security-Policy'' contentSecurityPolicy
       (header_Set ''Referrer-Policy'' ''no-referrer''
         (header_Set ''X-Frame-Options'' ''DENY''
           (header_Set ''X-Content-Type-Options'' ''nosniff'' new_writer))))"
  by (simp add: secured_def has_security_headers_def header_Set_def new_writer_def)

section \<open>Same-origin POSTs\<close>

text \<open>
  C25. A browser cannot be made to POST here by another site: a POST that carries
  \<open>Sec-Fetch-Site: cross-site\<close> or \<open>same-site\<close>, or that carries no such header but an
  \<open>Origin\<close> that is \<open>null\<close>, does not parse or names another host, never reaches the handlers:
  the state is the one given, and the answer is 403 or, for a long body, 413.
\<close>
theorem cross_site_post_rejected:
  assumes "rq_method r = MethodPost" "rw_sent w = None"
    and "TrimSpace (header_Get ''Sec-Fetch-Site'' r) \<in> {''cross-site'', ''same-site''} \<or>
      (TrimSpace (header_Get ''Sec-Fetch-Site'' r) \<notin> {''same-origin'', ''none''} \<and> TrimSpace (header_Get ''Origin'' r) \<noteq> [] \<and>
       (TrimSpace (header_Get ''Origin'' r) = ''null'' \<or> url_parse (TrimSpace (header_Get ''Origin'' r)) = None \<or>
        (\<exists>host scheme. url_parse (TrimSpace (header_Get ''Origin'' r)) = Some (host, scheme) \<and> \<not> EqualFold uf host (rq_host r))))"
  shows "fst (wrapHTTP uf url_parse s0 next r w) = s0
    \<and> resp_status (snd (wrapHTTP uf url_parse s0 next r w)) = (if maxPostBodyBytes < rq_content_length r then 413 else 403)"
proof -
  let ?w = "header_Set ''Content-Security-Policy'' contentSecurityPolicy (header_Set ''Referrer-Policy'' ''no-referrer''
      (header_Set ''X-Frame-Options'' ''DENY'' (header_Set ''X-Content-Type-Options'' ''nosniff'' w)))"
  have "\<not> isSameOriginRequest uf url_parse (r\<lparr>rq_body_limit := Some maxPostBodyBytes\<rparr>)"
    using assms(3) by (auto simp: isSameOriginRequest_def sameOriginURL_def header_Get_def Let_def)
  moreover have "rw_sent ?w = None" using assms(2) by (simp add: header_Set_def)
  then have "resp_status (http_Error msg code ?w) = code" for msg code
    by (simp add: http_Error_def Write_def WriteHeader_def Let_def resp_status_def header_Set_def header_Del_def)
  ultimately show ?thesis
    using assms(1) by (simp add: wrapHTTP_def securityHeadersMiddleware_def postSecurityMiddleware_def Let_def)
qed

lemma cross_site_post_rejected_witness:
  "resp_status (snd (wrapHTTP (\<lambda>_ _. False) (\<lambda>_. None) (0::nat) (\<lambda>r w. (1, w))
     (plain_request ''POST'' ''/login''\<lparr>rq_headers := [(''Sec-Fetch-Site'', ''cross-site'')]\<rparr>) new_writer)) = 403"
proof -
  have "TrimSpace ''cross-site'' = ''cross-site''"
    by (rule TrimSpace_no_space_ascii) (simp_all add: byte_def is_space_def)
  then show ?thesis
    using cross_site_post_rejected [of "plain_request ''POST'' ''/login''\<lparr>rq_headers := [(''Sec-Fetch-Site'', ''cross-site'')]\<rparr>"
        new_writer "\<lambda>_. None" "\<lambda>_ _. False" "0::nat" "\<lambda>r w. (1, w)"]
    by (simp add: plain_request_def MethodPost_def new_writer_def header_Get_def first_value_def maxPostBodyBytes_def)
qed

text \<open>
  The advice in \<open>Retry-After\<close> is the delay in whole seconds, rounded to the nearest and
  at least one: a client that waits one second longer than told is admitted again.
\<close>
lemma retry_after_header:
  assumes "0 < d" "d \<le> max_int64 - time_Second"
  shows "\<exists>n. retryAfterSeconds d = Itoa n \<and> 1 \<le> n \<and> 2 * \<bar>n * time_Second - d\<bar> \<le> (if n = 1 then 2 * time_Second else time_Second)
    \<and> d < (n + 1) * time_Second"
proof -
  define q m where "q = d div time_Second" and "m = d mod time_Second"
  have d: "d = q * time_Second + m" and m: "0 \<le> m" "m < time_Second" and q: "0 \<le> q"
    using assms(1) by (simp_all add: q_def m_def pos_imp_zdiv_nonneg_iff)
  define n where "n = (if 2 * m < time_Second then q else q + 1)"
  have "round_second d = n * time_Second"
    using assms d m by (auto simp: round_second_def Let_def n_def m_def [symmetric])
  then have "int_Seconds (round_second d) = n" using q by (auto simp: int_Seconds_def n_def sgn_if)
  then have r: "retryAfterSeconds d = Itoa (if n < 1 then 1 else n)" by (simp add: retryAfterSeconds_def Let_def)
  show ?thesis
    by (rule exI [of _ "if n < 1 then 1 else n"]) (use r d m q assms(1) in \<open>auto simp: n_def split: if_splits\<close>)
qed

lemma retry_after_header_witness:
  "\<exists>n. retryAfterSeconds 1500000000 = Itoa n \<and> 1 \<le> n \<and> 1500000000 < (n + 1) * time_Second"
  using retry_after_header [of 1500000000] by auto

end
