(* ===== verification/Web_Session.thy ===== *)
theory Web_Session
  imports Web_Security
begin

text \<open>
  \<open>internal/web/middleware.go\<close> and the options of \<open>routes.go\<close>: the mailbox session of a
  request, its cookies, and the creation of an inbox.

  What is not in the repository is collected in \<open>ext\<close>: Unicode tables, form and URL parsing,
  bcrypt, the HTML policy, template rendering, media types and the file server. What a request
  draws from the clock and from randomness is in \<open>draws\<close>; a request is handled at one
  instant. Error logging is left out.
\<close>

record ext =
  x_ul :: "nat \<Rightarrow> nat"
  x_uf :: "nat \<Rightarrow> nat \<Rightarrow> bool"
  x_parse_form :: "string \<Rightarrow> (string \<times> string) list result"
  x_url_parse :: "string \<Rightarrow> (string \<times> string) option"
  x_gen :: bcrypt_gen
  x_cmp :: bcrypt_cmp
  x_sanitize :: "string \<Rightarrow> string"
  x_render :: renderer
  x_media :: "string \<Rightarrow> string"
  x_files :: "string \<Rightarrow> response_writer \<Rightarrow> response_writer"

record draws =
  dr_now :: int
  dr_uuid :: string
  dr_salt :: string
  dr_rand :: "nat \<Rightarrow> string result"

record Options =
  opt_DefaultDomain :: string
  opt_CookieSecure :: bool
  opt_SessionTTL :: int
  opt_BcryptCost :: int
  opt_AdminUsername :: string

definition neverExpires :: int where
  "neverExpires = fromUnix 253370764800"

section \<open>Session cookies\<close>

definition sessionCookieName :: "bool \<Rightarrow> string" where
  "sessionCookieName secure = (if secure then ''__Host-session'' else ''session'')"

definition setSessionCookie :: "Options \<Rightarrow> string \<Rightarrow> response_writer \<Rightarrow> response_writer" where
  "setSessionCookie o1 token w = SetCookie \<lparr>ck_Name = sessionCookieName (opt_CookieSecure o1), ck_Value = token,
     ck_Path = ''/'', ck_HttpOnly = True, ck_SameSiteLax = True, ck_Secure = opt_CookieSecure o1,
     ck_MaxAge = int_Seconds (opt_SessionTTL o1)\<rparr> w"

definition clearSessionCookie :: "Options \<Rightarrow> response_writer \<Rightarrow> response_writer" where
  "clearSessionCookie o1 w = SetCookie \<lparr>ck_Name = sessionCookieName (opt_CookieSecure o1), ck_Value = [],
     ck_Path = ''/'', ck_HttpOnly = True, ck_SameSiteLax = True, ck_Secure = opt_CookieSecure o1, ck_MaxAge = - 1\<rparr> w"

section \<open>The gate of the mailbox area\<close>

definition GetInboxFromContext :: "request \<Rightarrow> Inbox option" where
  "GetInboxFromContext r = rq_inbox r"

definition withInbox :: "request \<Rightarrow> Inbox \<Rightarrow> request" where
  "withInbox r inbox = r\<lparr>rq_inbox := Some inbox\<rparr>"

definition dq :: char where "dq = CHR 0x22"

definition json_field :: "string \<Rightarrow> string \<Rightarrow> string" where
  "json_field k v = ''{'' @ [dq] @ k @ [dq] @ '':'' @ [dq] @ v @ [dq] @ ''}''"

definition requireMailboxAuth :: "request \<Rightarrow> response_writer \<Rightarrow> response_writer" where
  "requireMailboxAuth r w =
     (if HasPrefix (rq_path r) ''/app/api/'' then
        Write (Bytes (json_field ''error'' ''authentication required''))
          (WriteHeader 401 (header_Set ''Content-Type'' ''application/json; charset=utf-8'' w))
      else Redirect r ''/login'' 303 w)"

definition MailboxAuthMiddleware :: "Options \<Rightarrow> int
    \<Rightarrow> (request \<Rightarrow> db \<Rightarrow> response_writer \<Rightarrow> db \<times> response_writer)
    \<Rightarrow> request \<Rightarrow> db \<Rightarrow> response_writer \<Rightarrow> db \<times> response_writer" where
  "MailboxAuthMiddleware o1 now next r d w =
     (case Cookie (sessionCookieName (opt_CookieSecure o1)) r of
        None \<Rightarrow> (d, requireMailboxAuth r w)
      | Some token \<Rightarrow>
          if token = [] then (d, requireMailboxAuth r w)
          else (case GetSession now token d of
             (Inl e, d1) \<Rightarrow> (d1, requireMailboxAuth r (clearSessionCookie o1 w))
           | (Inr (session, inbox), d1) \<Rightarrow>
               let d2 = snd (TouchSession (Session_Token session) (now + opt_SessionTTL o1) d1);
                   w1 = setSessionCookie o1 (Session_Token session) w;
                   d3 = snd (UpdateLastAccessed now (Inbox_ID inbox) d2)
               in next (withInbox r inbox) d3 w1))"

section \<open>Creating an inbox\<close>

definition defaultDomain :: "Options \<Rightarrow> db \<Rightarrow> string result \<times> db" where
  "defaultDomain o1 d =
     (case ListDomains True d of
        (Inl e, d1) \<Rightarrow> (Inl e, d1)
      | (Inr domains, d1) \<Rightarrow>
          (Inr (case domains of [] \<Rightarrow> opt_DefaultDomain o1 | dm # _ \<Rightarrow> Domain_Name dm), d1))"

definition resolveCreateDomain :: "(nat \<Rightarrow> nat) \<Rightarrow> Options \<Rightarrow> string \<Rightarrow> db \<Rightarrow> string result \<times> db" where
  "resolveCreateDomain ul o1 requested0 d =
     (let requested = ToLower ul (TrimSpace requested0) in
      if requested \<noteq> [] then
        (case IsDomainEnabled requested d of
           (Inl e, d1) \<Rightarrow> (Inl e, d1)
         | (Inr enabled, d1) \<Rightarrow> if enabled then (Inr requested, d1) else defaultDomain o1 d1)
      else defaultDomain o1 d)"

definition new_account :: "string \<Rightarrow> string \<Rightarrow> string \<Rightarrow> string \<Rightarrow> Inbox" where
  "new_account local_part host token passwordHash = \<lparr>Inbox_ID = 0, Inbox_Address = local_part @ ''@'' @ host,
     Inbox_LocalPart = local_part, Inbox_Token = token, Inbox_PasswordHash = passwordHash,
     Inbox_CreatedAt = zero_time, Inbox_LastAccessedAt = zero_time, Inbox_ExpiresAt = neverExpires\<rparr>"

text \<open>\<open>createInbox\<close>: the limiter first, then \<open>create_account\<close>, the rest of the function.\<close>

definition create_account :: "(nat \<Rightarrow> nat) \<Rightarrow> Options \<Rightarrow> draws \<Rightarrow> string \<Rightarrow> string \<Rightarrow> string \<Rightarrow> db \<Rightarrow> Inbox result \<times> db" where
  "create_account ul o1 dr host local_part passwordHash d =
     (case resolveCreateDomain ul o1 host d of
        (Inl e, d1) \<Rightarrow> (Inl e, d1)
      | (Inr effectiveDomain, d1) \<Rightarrow>
          if effectiveDomain = [] then (Inl ErrNoDomainAvailable, d1)
          else CreateInbox ul (dr_now dr) (new_account local_part effectiveDomain (dr_uuid dr) passwordHash) d1)"

definition createInbox :: "(nat \<Rightarrow> nat) \<Rightarrow> Options \<Rightarrow> draws \<Rightarrow> string \<Rightarrow> string \<Rightarrow> string \<Rightarrow> string
    \<Rightarrow> FixedWindowLimiter option \<Rightarrow> db \<Rightarrow> Inbox result \<times> FixedWindowLimiter option \<times> db" where
  "createInbox ul o1 dr clientAddr host local_part passwordHash l d =
     (case l of
        None \<Rightarrow> (let (res, d1) = create_account ul o1 dr host local_part passwordHash d in (res, None, d1))
      | Some _ \<Rightarrow>
          (let (decision, l1) = Allow (dr_now dr) clientAddr l in
           if \<not> Allowed decision then (Inl (RateLimitError (RetryAfter decision)), l1, d)
           else let (res, d1) = create_account ul o1 dr host local_part passwordHash d in (res, l1, d1)))"

definition writeRateLimitResponse :: "int \<Rightarrow> response_writer \<Rightarrow> response_writer" where
  "writeRateLimitResponse retryAfter w =
     http_Error ''rate limit exceeded'' 429
       (if 0 < retryAfter then header_Set ''Retry-After'' (retryAfterSeconds retryAfter) w else w)"

section \<open>Preservation\<close>

context store_frame
begin

text \<open>An invariant passes through the two branches of a fallible call.\<close>

lemma result_snd:
  "I (snd x) \<Longrightarrow> (\<And>e d. I d \<Longrightarrow> I (snd (f e d))) \<Longrightarrow> (\<And>v d. I d \<Longrightarrow> I (snd (g v d))) \<Longrightarrow>
   I (snd (case x of (r, d) \<Rightarrow> (case r of Inl e \<Rightarrow> f e d | Inr v \<Rightarrow> g v d)))"
  by (cases x) (auto split: sum.split)

lemma result_fst:
  "I (snd x) \<Longrightarrow> (\<And>e d. I d \<Longrightarrow> I (fst (f e d))) \<Longrightarrow> (\<And>v d. I d \<Longrightarrow> I (fst (g v d))) \<Longrightarrow>
   I (fst (case x of (r, d) \<Rightarrow> (case r of Inl e \<Rightarrow> f e d | Inr v \<Rightarrow> g v d)))"
  by (cases x) (auto split: sum.split)

lemma result_snd_snd:
  "I (snd x) \<Longrightarrow> (\<And>e d. I d \<Longrightarrow> I (snd (snd (f e d)))) \<Longrightarrow> (\<And>v d. I d \<Longrightarrow> I (snd (snd (g v d)))) \<Longrightarrow>
   I (snd (snd (case x of (r, d) \<Rightarrow> (case r of Inl e \<Rightarrow> f e d | Inr v \<Rightarrow> g v d))))"
  by (cases x) (auto split: sum.split)

lemmas results = result_snd result_fst result_snd_snd

lemma defaultDomain: "I d \<Longrightarrow> I (snd (defaultDomain o1 d))"
  unfolding defaultDomain_def by (rule results) (simp_all add: reads)

lemma resolveCreateDomain: "I d \<Longrightarrow> I (snd (resolveCreateDomain ul o1 requested d))"
  by (auto simp: resolveCreateDomain_def Let_def reads defaultDomain intro!: results)

end

context account_store
begin

lemma create_account: "I d \<Longrightarrow> I (snd (create_account ul o1 dr host local_part hash d))"
  by (auto simp: create_account_def resolveCreateDomain CreateInbox intro!: results)

lemma createInbox: "I d \<Longrightarrow> I (snd (snd (createInbox ul o1 dr addr host local_part hash l d)))"
  using create_account [of d ul o1 dr host local_part hash]
  by (auto simp: createInbox_def Let_def split: prod.split option.split)

end

context session_store
begin

lemma MailboxAuthMiddleware:
  assumes "I d" "\<And>r d w. I d \<Longrightarrow> I (fst (next r d w))"
  shows "I (fst (MailboxAuthMiddleware o1 now next r d w))"
  using assms
  by (auto simp: MailboxAuthMiddleware_def Let_def reads TouchSession UpdateLastAccessed split: option.split intro!: results)

end

context writer_inv
begin

lemma requireMailboxAuth: "W w \<Longrightarrow> W (requireMailboxAuth r w)"
  by (simp add: requireMailboxAuth_def primitives)

lemma session_cookies: "W w \<Longrightarrow> W (setSessionCookie o1 token w)" "W w \<Longrightarrow> W (clearSessionCookie o1 w)"
  by (simp_all add: setSessionCookie_def clearSessionCookie_def primitives)

lemma MailboxAuthMiddleware:
  assumes "W w" "\<And>r d w. W w \<Longrightarrow> W (snd (next r d w))"
  shows "W (snd (MailboxAuthMiddleware o1 now next r d w))"
  using assms
  by (auto simp: MailboxAuthMiddleware_def Let_def requireMailboxAuth session_cookies split: option.split prod.split sum.split)

lemma writeRateLimitResponse: "W w \<Longrightarrow> W (writeRateLimitResponse t w)"
  by (simp add: writeRateLimitResponse_def primitives)

end

end
