(* ===== verification/Web_Auth.thy ===== *)
theory Web_Auth
  imports Web_Session Domain_Util
begin

text \<open>
  \<open>internal/web/auth_handlers.go\<close>: the public pages, login, logout and registration. A
  handler takes the request, what it needs of the state, and the writer; it returns the state
  and the writer.
\<close>

definition page_title :: "string \<Rightarrow> commonData" where
  "page_title t = \<lparr>Title = t, cd_Inbox = None\<rparr>"

definition landing_page :: page where
  "landing_page = landingData (page_title ''Anonymous Email Service'')"

definition startSession :: "(nat \<Rightarrow> nat) \<Rightarrow> Options \<Rightarrow> draws \<Rightarrow> int \<Rightarrow> db \<Rightarrow> response_writer
    \<Rightarrow> unit result \<times> db \<times> response_writer" where
  "startSession ul o1 dr inboxID d w =
     (let session = \<lparr>Session_Token = NewSessionToken (dr_uuid dr), Session_InboxID = inboxID,
            Session_CreatedAt = zero_time, Session_ExpiresAt = dr_now dr + opt_SessionTTL o1\<rparr> in
      case CreateSession ul (dr_now dr) session d of
        (Inl e, d1) \<Rightarrow> (Inl e, d1, w)
      | (Inr session', d1) \<Rightarrow> (Inr (), d1, setSessionCookie o1 (Session_Token session') w))"

definition currentInbox :: "Options \<Rightarrow> int \<Rightarrow> request \<Rightarrow> db \<Rightarrow> Inbox option \<times> db" where
  "currentInbox o1 now r d =
     (case Cookie (sessionCookieName (opt_CookieSecure o1)) r of
        None \<Rightarrow> (None, d)
      | Some v \<Rightarrow>
          if v = [] then (None, d)
          else (case GetSession now v d of
             (Inl e, d1) \<Rightarrow> (None, d1)
           | (Inr (_, inbox), d1) \<Rightarrow> (Some inbox, d1)))"

definition renderLogin :: "renderer \<Rightarrow> string \<Rightarrow> int \<Rightarrow> response_writer \<Rightarrow> response_writer" where
  "renderLogin render errMsg status w =
     snd (ExecuteTemplate render (loginData (page_title ''Log In'') errMsg)
       (if status \<noteq> 200 then WriteHeader status w else w))"

definition localPartMinLen :: nat where "localPartMinLen = 3"
definition localPartMaxLen :: nat where "localPartMaxLen = 64"

definition local_rune :: "nat \<Rightarrow> bool" where
  "local_rune c \<longleftrightarrow> (97 \<le> c \<and> c \<le> 122) \<or> (48 \<le> c \<and> c \<le> 57)"

definition validateLocalPart :: "(nat \<Rightarrow> nat) \<Rightarrow> string \<Rightarrow> string result" where
  "validateLocalPart ul raw =
     (let local_part = ToLower ul (TrimSpace raw) in
      if local_part = [] then Inl (ErrText ''Please choose a name for your address.'')
      else if length local_part < localPartMinLen \<or> localPartMaxLen < length local_part then
        Inl (ErrText (''Name must be '' @ Itoa (int localPartMinLen) @ [CHR 0xE2, CHR 0x80, CHR 0x93] @
               Itoa (int localPartMaxLen) @ '' characters.''))
      else if list_ex (\<lambda>c. \<not> local_rune c) (runes local_part) then Inl (ErrText ''Use letters and numbers only.'')
      else Inr local_part)"

definition renderRegister :: "renderer \<Rightarrow> string \<Rightarrow> string \<Rightarrow> int \<Rightarrow> db \<Rightarrow> response_writer \<Rightarrow> db \<times> response_writer" where
  "renderRegister render local_part errMsg status d w =
     (case ListDomains True d of
        (Inl e, d1) \<Rightarrow> (d1, http_Error ''failed to load registration'' 500 w)
      | (Inr domains, d1) \<Rightarrow>
          (d1, snd (ExecuteTemplate render (registerData (page_title ''Create an Email Address'') domains local_part errMsg)
             (if status \<noteq> 200 then WriteHeader status w else w))))"

definition dummyBcryptHash :: string where
  "dummyBcryptHash = ''$2a$10$N9qo8uLOickgx2ZMRZoMyeIjZAgcfl7p92ldGxad68LJZdL17lhWy''"

section \<open>Handlers\<close>

definition HandleLanding :: "ext \<Rightarrow> Options \<Rightarrow> draws \<Rightarrow> request \<Rightarrow> db \<Rightarrow> response_writer \<Rightarrow> db \<times> response_writer" where
  "HandleLanding x o1 dr r d w =
     (case currentInbox o1 (dr_now dr) r d of
        (Some _, d1) \<Rightarrow> (d1, Redirect r ''/app'' 303 w)
      | (None, d1) \<Rightarrow>
          (case ExecuteTemplate (x_render x) landing_page w of
             (ok, w1) \<Rightarrow> (d1, if ok then w1 else http_Error ''template rendering failed'' 500 w1)))"

definition HandleLoginForm :: "ext \<Rightarrow> Options \<Rightarrow> draws \<Rightarrow> request \<Rightarrow> db \<Rightarrow> response_writer \<Rightarrow> db \<times> response_writer" where
  "HandleLoginForm x o1 dr r d w =
     (case currentInbox o1 (dr_now dr) r d of
        (Some _, d1) \<Rightarrow> (d1, Redirect r ''/app'' 303 w)
      | (None, d1) \<Rightarrow> (d1, renderLogin (x_render x) [] 200 w))"

definition HandleLogin :: "ext \<Rightarrow> Options \<Rightarrow> draws \<Rightarrow> request \<Rightarrow> db \<Rightarrow> response_writer \<Rightarrow> db \<times> response_writer" where
  "HandleLogin x o1 dr r d w =
     (case ParseForm (x_parse_form x) r of
        Inl e \<Rightarrow> (d, renderLogin (x_render x) ''Invalid form submission.'' 400 w)
      | Inr form \<Rightarrow>
          let address = ToLower (x_ul x) (TrimSpace (PostFormValue ''address'' form));
              password = PostFormValue ''password'' form in
          case GetInboxByAddress address d of
            (Inl e, d1) \<Rightarrow>
              (if \<not> err_is e ErrNotFound
               then (d1, renderLogin (x_render x) ''Something went wrong. Please try again.'' 500 w)
               else let _ = VerifyPassword (x_cmp x) dummyBcryptHash password in
                 (d1, renderLogin (x_render x) ''Invalid email address or password.'' 401 w))
          | (Inr inbox, d1) \<Rightarrow>
              if \<not> VerifyPassword (x_cmp x) (Inbox_PasswordHash inbox) password
              then (d1, renderLogin (x_render x) ''Invalid email address or password.'' 401 w)
              else (case startSession (x_ul x) o1 dr (Inbox_ID inbox) d1 w of
                 (Inl e, d2, w1) \<Rightarrow> (d2, renderLogin (x_render x) ''Something went wrong. Please try again.'' 500 w1)
               | (Inr _, d2, w1) \<Rightarrow> (d2, Redirect r ''/app'' 303 w1)))"

definition HandleLogout :: "Options \<Rightarrow> request \<Rightarrow> db \<Rightarrow> response_writer \<Rightarrow> db \<times> response_writer" where
  "HandleLogout o1 r d w =
     (let d1 = (case Cookie (sessionCookieName (opt_CookieSecure o1)) r of
                  None \<Rightarrow> d
                | Some v \<Rightarrow> if v \<noteq> [] then snd (DeleteSession v d) else d)
      in (d1, Redirect r ''/'' 303 (clearSessionCookie o1 w)))"

definition HandleRegisterForm :: "ext \<Rightarrow> Options \<Rightarrow> draws \<Rightarrow> request \<Rightarrow> db \<Rightarrow> response_writer \<Rightarrow> db \<times> response_writer" where
  "HandleRegisterForm x o1 dr r d w =
     (case currentInbox o1 (dr_now dr) r d of
        (Some _, d1) \<Rightarrow> (d1, Redirect r ''/app'' 303 w)
      | (None, d1) \<Rightarrow> renderRegister (x_render x) [] [] 200 d1 w)"

text \<open>The branches of \<open>HandleRegister\<close> for an error of \<open>createInbox\<close>.\<close>

definition register_failed :: "ext \<Rightarrow> string \<Rightarrow> string \<Rightarrow> go_err \<Rightarrow> db \<Rightarrow> response_writer \<Rightarrow> db \<times> response_writer" where
  "register_failed x local_part host e d w =
     (case as_rate_limit e of
        Some retryAfter \<Rightarrow> (d, writeRateLimitResponse retryAfter w)
      | None \<Rightarrow>
          if err_is e ErrNoDomainAvailable
          then renderRegister (x_render x) local_part ''No domains are available right now. Please try again later.'' 503 d w
          else if err_is e ErrConflict
          then renderRegister (x_render x) local_part
                 (local_part @ ''@'' @ host @ '' is already taken. Please choose another.'') 409 d w
          else renderRegister (x_render x) local_part ''Something went wrong. Please try again.'' 500 d w)"

definition HandleRegister :: "ext \<Rightarrow> Options \<Rightarrow> draws \<Rightarrow> request \<Rightarrow> FixedWindowLimiter option \<Rightarrow> db \<Rightarrow> response_writer
    \<Rightarrow> FixedWindowLimiter option \<times> db \<times> response_writer" where
  "HandleRegister x o1 dr r l d w =
     (case ParseForm (x_parse_form x) r of
        Inl e \<Rightarrow> (l, renderRegister (x_render x) [] ''Invalid form submission.'' 400 d w)
      | Inr form \<Rightarrow>
          let host = ToLower (x_ul x) (TrimSpace (PostFormValue ''domain'' form)) in
          case validateLocalPart (x_ul x) (PostFormValue ''local_part'' form) of
            Inl e \<Rightarrow> (l, renderRegister (x_render x) (PostFormValue ''local_part'' form) (error_text e) 400 d w)
          | Inr local_part \<Rightarrow>
              (case GeneratePassword (dr_rand dr) of
                 Inl e \<Rightarrow> (l, renderRegister (x_render x) local_part ''Something went wrong. Please try again.'' 500 d w)
               | Inr password \<Rightarrow>
                   (case HashPassword (x_gen x) (dr_salt dr) password (opt_BcryptCost o1) of
                      Inl e \<Rightarrow> (l, renderRegister (x_render x) local_part ''Something went wrong. Please try again.'' 500 d w)
                    | Inr hash \<Rightarrow>
                        (case createInbox (x_ul x) o1 dr (FromHTTPRequest (Some (rq_remote r))) host local_part hash l d of
                           (Inl e, l1, d1) \<Rightarrow> (l1, register_failed x local_part host e d1 w)
                         | (Inr inbox, l1, d1) \<Rightarrow>
                             (case ExecuteTemplate (x_render x) (registerSuccessData (page_title ''Email Address Created'')
                                     (Inbox_Address inbox) password) w of
                                (ok, w1) \<Rightarrow> (l1, d1, if ok then w1 else http_Error ''template rendering failed'' 500 w1))))))"

section \<open>Preservation\<close>

context store_frame
begin

lemma currentInbox: "I d \<Longrightarrow> I (snd (currentInbox o1 now r d))"
  by (auto simp: currentInbox_def reads case_prod_beta [of _ "_ :: Session \<times> Inbox"] split: option.split intro!: results)

lemma renderRegister: "I d \<Longrightarrow> I (fst (renderRegister render lp msg st d w))"
  by (auto simp: renderRegister_def reads intro!: results)

lemma register_failed: "I d \<Longrightarrow> I (fst (register_failed x lp host e d w))"
  by (auto simp: register_failed_def renderRegister split: option.split)

lemma public_pages:
  "I d \<Longrightarrow> I (fst (HandleLanding x o1 dr r d w))" "I d \<Longrightarrow> I (fst (HandleLoginForm x o1 dr r d w))"
  "I d \<Longrightarrow> I (fst (HandleRegisterForm x o1 dr r d w))"
  using currentInbox [of d o1 "dr_now dr" r]
  by (auto simp: HandleLanding_def HandleLoginForm_def HandleRegisterForm_def renderRegister split: prod.split option.split)

end

context account_store
begin

lemma HandleRegister: "I d \<Longrightarrow> I (fst (snd (HandleRegister x o1 dr r l d w)))"
  using createInbox [of d]
  by (auto simp: HandleRegister_def Let_def renderRegister register_failed split: sum.split prod.split) (metis snd_conv register_failed)+

end

context session_store
begin

lemma startSession: "I d \<Longrightarrow> I (fst (snd (startSession ul o1 dr i d w)))"
  using CreateSession [of d] by (auto simp: startSession_def Let_def split: prod.split sum.split) (metis snd_conv)+

lemma HandleLogin: "I d \<Longrightarrow> I (fst (HandleLogin x o1 dr r d w))"
proof -
  have s: "I (fst (case startSession ul o1 dr i d w of (Inl e, d2, w1) \<Rightarrow> (d2, f w1) | (Inr u, d2, w1) \<Rightarrow> (d2, g w1)))"
    if "I d" for ul i d f g
    using startSession [OF that, of ul o1 dr i w] by (auto split: prod.split sum.split)
  show "I d \<Longrightarrow> I (fst (HandleLogin x o1 dr r d w))"
    by (auto simp: HandleLogin_def Let_def reads s split: sum.split intro!: results)
qed

lemma HandleLogout: "I d \<Longrightarrow> I (fst (HandleLogout o1 r d w))"
  by (auto simp: HandleLogout_def Let_def DeleteSession split: option.split)

end

context writer_inv
begin

lemma renderLogin: "W w \<Longrightarrow> W (renderLogin render msg st w)"
  by (simp add: renderLogin_def ExecuteTemplate primitives)

lemma renderRegister: "W w \<Longrightarrow> W (snd (renderRegister render lp msg st d w))"
  by (auto simp: renderRegister_def ExecuteTemplate primitives split: prod.split sum.split)

lemma public_pages:
  "W w \<Longrightarrow> W (snd (HandleLanding x o1 dr r d w))" "W w \<Longrightarrow> W (snd (HandleLoginForm x o1 dr r d w))"
  "W w \<Longrightarrow> W (snd (HandleRegisterForm x o1 dr r d w))"
  by (auto simp: HandleLanding_def HandleLoginForm_def HandleRegisterForm_def renderLogin
      renderRegister primitives dest!: ExecuteTemplate_eq split: prod.split option.split)

lemma register_failed: "W w \<Longrightarrow> W (snd (register_failed x lp host e d w))"
  by (auto simp: register_failed_def renderRegister writeRateLimitResponse split: option.split)

lemma HandleRegister: "W w \<Longrightarrow> W (snd (snd (HandleRegister x o1 dr r l d w)))"
  by (auto simp: HandleRegister_def Let_def renderRegister register_failed primitives dest!: ExecuteTemplate_eq
      split: sum.split prod.split)

lemma startSession: "W w \<Longrightarrow> W (snd (snd (startSession ul o1 dr i d w)))"
  by (auto simp: startSession_def Let_def session_cookies split: prod.split sum.split)

lemma startSession_eq: "startSession ul o1 dr i d w = (res, d', w') \<Longrightarrow> W w \<Longrightarrow> W w'"
  using startSession [of w ul o1 dr i d] by simp

lemma HandleLogin: "W w \<Longrightarrow> W (snd (HandleLogin x o1 dr r d w))"
  by (auto simp: HandleLogin_def Let_def renderLogin primitives dest!: startSession_eq split: sum.split prod.split)

lemma HandleLogout: "W w \<Longrightarrow> W (snd (HandleLogout o1 r d w))"
  by (simp add: HandleLogout_def Let_def primitives session_cookies)

end

end
