(* ===== verification/Web_Mail.thy ===== *)
theory Web_Mail
  imports Web_Session
begin

text \<open>
  \<open>internal/web/handlers.go\<close>: the mailbox pages behind the session gate, the JSON listing and
  the health check. An \<open>int64\<close> path value is parsed in base 10.
\<close>

definition pathID :: "string \<Rightarrow> request \<Rightarrow> response_writer \<Rightarrow> int option \<times> response_writer" where
  "pathID name r w =
     (case ParseInt (PathValue name r) of
        None \<Rightarrow> (None, http_Error (''invalid '' @ name) 400 w)
      | Some i \<Rightarrow> if i \<le> 0 then (None, http_Error (''invalid '' @ name) 400 w) else (Some i, w))"

definition renderEmailBody :: "(string \<Rightarrow> string) \<Rightarrow> Email \<Rightarrow> string \<times> string" where
  "renderEmailBody sanitize email =
     (let sanitized = TrimSpace (sanitize (Email_BodyHTML email)) in
      if Email_BodyHTML email \<noteq> [] \<and> sanitized \<noteq> [] then (sanitized, [])
      else if Email_BodyText email \<noteq> [] then ([], Email_BodyText email)
      else ([], ''(empty message)''))"

definition missing_inbox :: "response_writer \<Rightarrow> response_writer" where
  "missing_inbox w = http_Error ''missing inbox session'' 500 w"

definition render_page :: "renderer \<Rightarrow> page \<Rightarrow> db \<Rightarrow> response_writer \<Rightarrow> db \<times> response_writer" where
  "render_page render p d w =
     (case ExecuteTemplate render p w of (ok, w1) \<Rightarrow> (d, if ok then w1 else http_Error ''template rendering failed'' 500 w1))"

definition HandleIndex :: "ext \<Rightarrow> request \<Rightarrow> db \<Rightarrow> response_writer \<Rightarrow> db \<times> response_writer" where
  "HandleIndex x r d w =
     (case GetInboxFromContext r of
        None \<Rightarrow> (d, missing_inbox w)
      | Some inbox \<Rightarrow>
          (case GetEmailsByInboxID (Inbox_ID inbox) 50 0 d of
             (Inl e, d1) \<Rightarrow> (d1, http_Error ''failed to load emails'' 500 w)
           | (Inr emails, d1) \<Rightarrow>
               (case GetUnreadCount (Inbox_ID inbox) d1 of
                  (Inl e, d2) \<Rightarrow> (d2, http_Error ''failed to load inbox'' 500 w)
                | (Inr unreadCount, d2) \<Rightarrow>
                    render_page (x_render x)
                      (indexData \<lparr>Title = ''Inbox'', cd_Inbox = Some inbox\<rparr> unreadCount emails) d2 w)))"

text \<open>The end of \<open>HandleViewEmail\<close>, once the email is marked as read.\<close>

definition show_email :: "ext \<Rightarrow> Inbox \<Rightarrow> Email \<Rightarrow> db \<Rightarrow> response_writer \<Rightarrow> db \<times> response_writer" where
  "show_email x inbox email d w =
     (case GetAttachmentsByEmailID (Email_ID email) d of
        (Inl e, d1) \<Rightarrow> (d1, http_Error ''failed to load email'' 500 w)
      | (Inr attachments, d1) \<Rightarrow>
          (let (bodyHTML, bodyText) = renderEmailBody (x_sanitize x) email in
           render_page (x_render x) (emailData \<lparr>Title = Email_Subject email, cd_Inbox = Some inbox\<rparr>
             email attachments bodyHTML bodyText) d1 w))"

definition HandleViewEmail :: "ext \<Rightarrow> request \<Rightarrow> db \<Rightarrow> response_writer \<Rightarrow> db \<times> response_writer" where
  "HandleViewEmail x r d w =
     (case GetInboxFromContext r of
        None \<Rightarrow> (d, missing_inbox w)
      | Some inbox \<Rightarrow>
          (case pathID ''id'' r w of
             (None, w1) \<Rightarrow> (d, w1)
           | (Some emailID, w1) \<Rightarrow>
               (case GetEmailByID (Inbox_ID inbox) emailID d of
                  (Inl e, d1) \<Rightarrow>
                    (d1, if err_is e ErrNotFound then NotFound w1 else http_Error ''failed to load email'' 500 w1)
                | (Inr email, d1) \<Rightarrow>
                    if Email_IsRead email then show_email x inbox email d1 w1
                    else (case MarkEmailAsRead (Email_ID email) d1 of
                       (Inl e, d2) \<Rightarrow>
                         (if \<not> err_is e ErrNotFound then (d2, http_Error ''failed to update email'' 500 w1)
                          else show_email x inbox (email\<lparr>Email_IsRead := True\<rparr>) d2 w1)
                     | (Inr _, d2) \<Rightarrow> show_email x inbox (email\<lparr>Email_IsRead := True\<rparr>) d2 w1))))"

definition HandleAttachment :: "ext \<Rightarrow> request \<Rightarrow> db \<Rightarrow> response_writer \<Rightarrow> db \<times> response_writer" where
  "HandleAttachment x r d w =
     (case GetInboxFromContext r of
        None \<Rightarrow> (d, missing_inbox w)
      | Some inbox \<Rightarrow>
          (case pathID ''id'' r w of
             (None, w1) \<Rightarrow> (d, w1)
           | (Some emailID, w1) \<Rightarrow>
               (case pathID ''aid'' r w1 of
                  (None, w2) \<Rightarrow> (d, w2)
                | (Some attachmentID, w2) \<Rightarrow>
                    (case GetEmailByID (Inbox_ID inbox) emailID d of
                       (Inl e, d1) \<Rightarrow>
                         (d1, if err_is e ErrNotFound then NotFound w2 else http_Error ''failed to load attachment'' 500 w2)
                     | (Inr email, d1) \<Rightarrow>
                         (case GetAttachment attachmentID d1 of
                            (Inl e, d2) \<Rightarrow>
                              (d2, if err_is e ErrNotFound then NotFound w2 else http_Error ''failed to load attachment'' 500 w2)
                          | (Inr attachment, d2) \<Rightarrow>
                              if Attachment_EmailID attachment \<noteq> Email_ID email then (d2, NotFound w2)
                              else (d2, Write (Bytes (Attachment_Content attachment))
                                (header_Set ''Content-Disposition'' (x_media x (Attachment_Filename attachment))
                                  (header_Set ''Content-Length'' (Itoa (Attachment_SizeBytes attachment))
                                    (header_Set ''Content-Type'' (Attachment_ContentType attachment) w2))))))))) "

definition HandleDeleteEmail :: "request \<Rightarrow> db \<Rightarrow> response_writer \<Rightarrow> db \<times> response_writer" where
  "HandleDeleteEmail r d w =
     (case GetInboxFromContext r of
        None \<Rightarrow> (d, missing_inbox w)
      | Some inbox \<Rightarrow>
          (case pathID ''id'' r w of
             (None, w1) \<Rightarrow> (d, w1)
           | (Some emailID, w1) \<Rightarrow>
               (case DeleteEmail (Inbox_ID inbox) emailID d of
                  (Inl e, d1) \<Rightarrow>
                    (d1, if err_is e ErrNotFound then NotFound w1 else http_Error ''failed to delete email'' 500 w1)
                | (Inr _, d1) \<Rightarrow> (d1, Redirect r ''/app'' 303 w1))))"

definition api_email :: "Email \<Rightarrow> apiEmail" where
  "api_email e = \<lparr>ae_ID = Email_ID e, ae_Sender = Email_Sender e, ae_SenderName = Email_SenderName e,
     ae_Subject = Email_Subject e, ae_HasAttachments = Email_HasAttachments e, ae_IsRead = Email_IsRead e,
     ae_ReceivedAt = Email_ReceivedAt e\<rparr>"

definition HandleAPIEmails :: "request \<Rightarrow> db \<Rightarrow> response_writer \<Rightarrow> db \<times> response_writer" where
  "HandleAPIEmails r d w =
     (case GetInboxFromContext r of
        None \<Rightarrow> (d, missing_inbox w)
      | Some inbox \<Rightarrow>
          (case GetEmailsByInboxID (Inbox_ID inbox) 50 0 d of
             (Inl e, d1) \<Rightarrow> (d1, http_Error ''failed to load emails'' 500 w)
           | (Inr emails, d1) \<Rightarrow>
               (case GetUnreadCount (Inbox_ID inbox) d1 of
                  (Inl e, d2) \<Rightarrow> (d2, http_Error ''failed to load emails'' 500 w)
                | (Inr unreadCount, d2) \<Rightarrow>
                    (d2, Write (JsonEmails \<lparr>aer_Address = Inbox_Address inbox, aer_ExpiresAt = Inbox_ExpiresAt inbox,
                           aer_UnreadCount = unreadCount, aer_Emails = map api_email emails\<rparr>)
                         (header_Set ''Content-Type'' ''application/json; charset=utf-8'' w)))))"

definition HandleHealth :: "db \<Rightarrow> response_writer \<Rightarrow> db \<times> response_writer" where
  "HandleHealth d w =
     (let w1 = header_Set ''Content-Type'' ''application/json; charset=utf-8'' w in
      case Ping d of
        (Inl e, d1) \<Rightarrow> (d1, Write (Bytes (json_field ''status'' ''degraded'')) (WriteHeader 503 w1))
      | (Inr _, d1) \<Rightarrow> (d1, Write (Bytes (json_field ''status'' ''ok'')) (WriteHeader 200 w1)))"

section \<open>Preservation\<close>

context writer_inv
begin

lemma pathID: "pathID name r w = (res, w1) \<Longrightarrow> W w \<Longrightarrow> W w1"
  by (auto simp: pathID_def primitives split: option.splits if_splits)

lemma render_page: "W w \<Longrightarrow> W (snd (render_page render p d w))"
  by (auto simp: render_page_def primitives dest!: ExecuteTemplate_eq split: prod.split)

lemma missing_inbox: "W w \<Longrightarrow> W (missing_inbox w)"
  by (simp add: missing_inbox_def primitives)

lemma show_email: "W w \<Longrightarrow> W (snd (show_email x inbox email d w))"
  by (auto simp: show_email_def Let_def render_page primitives split: prod.split sum.split)

lemma mailbox_pages:
  "W w \<Longrightarrow> W (snd (HandleIndex x r d w))" "W w \<Longrightarrow> W (snd (HandleViewEmail x r d w))"
  "W w \<Longrightarrow> W (snd (HandleAttachment x r d w))" "W w \<Longrightarrow> W (snd (HandleDeleteEmail r d w))"
  "W w \<Longrightarrow> W (snd (HandleAPIEmails r d w))" "W w \<Longrightarrow> W (snd (HandleHealth d w))"
  by (auto simp: HandleIndex_def HandleViewEmail_def HandleAttachment_def HandleDeleteEmail_def HandleAPIEmails_def
      HandleHealth_def Let_def missing_inbox render_page show_email primitives dest!: pathID
      split: option.split prod.split sum.split)

end

context store_frame
begin

lemma render_page: "I d \<Longrightarrow> I (fst (render_page render p d w))"
  by (simp add: render_page_def split: prod.split)

lemma show_email: "I d \<Longrightarrow> I (fst (show_email x inbox email d w))"
  by (auto simp: show_email_def case_prod_beta [of _ "renderEmailBody _ _"] reads render_page intro!: results)

lemma reading_pages:
  "I d \<Longrightarrow> I (fst (HandleIndex x r d w))" "I d \<Longrightarrow> I (fst (HandleAPIEmails r d w))" "I d \<Longrightarrow> I (fst (HandleHealth d w))"
  by (auto simp: HandleIndex_def HandleAPIEmails_def HandleHealth_def Let_def reads render_page split: option.split intro!: results)

lemma lookups_eq:
  "GetEmailByID i e d = (res, d') \<Longrightarrow> I d' = I d" "GetAttachment a d = (res', d') \<Longrightarrow> I d' = I d"
  using reads(4) [of i e d] reads(7) [of a d] by simp_all

lemma HandleAttachment: "I d \<Longrightarrow> I (fst (HandleAttachment x r d w))"
  by (auto simp: HandleAttachment_def dest!: lookups_eq split: option.split prod.split sum.split)

end

context marking_store
begin

lemma mark_eq: "MarkEmailAsRead e d = (res, d') \<Longrightarrow> I d \<Longrightarrow> I d'"
  using MarkEmailAsRead [of d e] by simp

lemma HandleViewEmail: "I d \<Longrightarrow> I (fst (HandleViewEmail x r d w))"
  by (auto simp: HandleViewEmail_def show_email dest!: lookups_eq mark_eq split: option.split prod.split sum.split)

end

context reading_store
begin

lemma delete_eq: "DeleteEmail i e d = (res, d') \<Longrightarrow> I d \<Longrightarrow> I d'"
  using DeleteEmail [of d i e] by simp

lemma HandleDeleteEmail: "I d \<Longrightarrow> I (fst (HandleDeleteEmail r d w))"
  by (auto simp: HandleDeleteEmail_def dest!: delete_eq split: option.split prod.split sum.split)

end

end
