(* ===== verification/Web_Admin.thy ===== *)
theory Web_Admin
  imports Web_Session Domain_Util
begin

text \<open>
  \<open>internal/web/admin.go\<close>: the admin sessions in memory, the first-run setup of the admin
  password, login and logout, and the domain pages behind the admin gate. The two clock
  readings of \<open>validate\<close> are one instant.
\<close>

definition adminSessionTTL :: int where
  "adminSessionTTL = time_Hour"

definition AdminPasswordHashKey :: string where
  "AdminPasswordHashKey = ''admin_password_hash''"

definition minAdminPasswordLength :: nat where
  "minAdminPasswordLength = 12"

section \<open>Admin sessions\<close>

type_synonym adminSessionStore = "string \<Rightarrow> int option"

definition newAdminSessionStore :: adminSessionStore where
  "newAdminSessionStore = Map.empty"

definition admin_create :: "string \<Rightarrow> int \<Rightarrow> adminSessionStore \<Rightarrow> adminSessionStore" where
  "admin_create token expiresAt s = s(token \<mapsto> expiresAt)"

definition admin_validate :: "int \<Rightarrow> string \<Rightarrow> adminSessionStore \<Rightarrow> bool \<times> adminSessionStore" where
  "admin_validate now token s =
     (case s token of
        None \<Rightarrow> (False, s)
      | Some expiresAt \<Rightarrow>
          if \<not> now < expiresAt then (False, s(token := None))
          else (True, s(token \<mapsto> now + adminSessionTTL)))"

definition admin_delete :: "string \<Rightarrow> adminSessionStore \<Rightarrow> adminSessionStore" where
  "admin_delete token s = s(token := None)"

interpretation admin_sessions: ttl_store "\<lambda>s k. s k" "\<lambda>t k s. fst (admin_validate t k s)" "\<lambda>_. True"
    "\<lambda>k (v :: unit) e s. admin_create k e s"
  by unfold_locales (auto simp: admin_validate_def admin_create_def split: option.split)

interpretation admin_revocations: revocable_store "\<lambda>s k. s k" "\<lambda>t k s. fst (admin_validate t k s)" "\<lambda>_. True" admin_delete
  by unfold_locales (auto simp: admin_delete_def)

section \<open>Password, cookie and pages\<close>

definition adminCookieName :: "bool \<Rightarrow> string" where
  "adminCookieName secure = (if secure then ''__Host-admin_session'' else ''admin_session'')"

definition adminEnabled :: "Options \<Rightarrow> bool" where
  "adminEnabled o1 \<longleftrightarrow> opt_AdminUsername o1 \<noteq> []"

text \<open>The stored hash; the empty string when none is set.\<close>

definition adminPasswordHash :: "db \<Rightarrow> string result \<times> db" where
  "adminPasswordHash d =
     (case GetSetting AdminPasswordHashKey d of
        (Inl e, d1) \<Rightarrow> (if err_is e ErrNotFound then Inr [] else Inl e, d1)
      | (Inr hash, d1) \<Rightarrow> (Inr hash, d1))"

definition setAdminCookie :: "Options \<Rightarrow> string \<Rightarrow> response_writer \<Rightarrow> response_writer" where
  "setAdminCookie o1 token w = SetCookie \<lparr>ck_Name = adminCookieName (opt_CookieSecure o1), ck_Value = token,
     ck_Path = ''/'', ck_HttpOnly = True, ck_SameSiteLax = True, ck_Secure = opt_CookieSecure o1,
     ck_MaxAge = int_Seconds adminSessionTTL\<rparr> w"

definition clearAdminCookie :: "Options \<Rightarrow> response_writer \<Rightarrow> response_writer" where
  "clearAdminCookie o1 w = SetCookie \<lparr>ck_Name = adminCookieName (opt_CookieSecure o1), ck_Value = [],
     ck_Path = ''/'', ck_HttpOnly = True, ck_SameSiteLax = True, ck_Secure = opt_CookieSecure o1, ck_MaxAge = - 1\<rparr> w"

definition with_status :: "int \<Rightarrow> response_writer \<Rightarrow> response_writer" where
  "with_status status w = (if status \<noteq> 200 then WriteHeader status w else w)"

definition renderAdmin :: "renderer \<Rightarrow> string \<Rightarrow> int \<Rightarrow> db \<Rightarrow> response_writer \<Rightarrow> db \<times> response_writer" where
  "renderAdmin render errMsg status d w =
     (case ListDomains False d of
        (Inl e, d1) \<Rightarrow> (d1, http_Error ''failed to load admin'' 500 w)
      | (Inr domains, d1) \<Rightarrow>
          (d1, snd (ExecuteTemplate render (adminData \<lparr>Title = ''Domain Administration'', cd_Inbox = None\<rparr> domains errMsg)
             (with_status status w))))"

definition renderAdminLogin :: "renderer \<Rightarrow> string \<Rightarrow> int \<Rightarrow> response_writer \<Rightarrow> response_writer" where
  "renderAdminLogin render errMsg status w =
     snd (ExecuteTemplate render (adminLoginData \<lparr>Title = ''Admin Login'', cd_Inbox = None\<rparr> errMsg) (with_status status w))"

definition renderAdminSetup :: "renderer \<Rightarrow> string \<Rightarrow> int \<Rightarrow> response_writer \<Rightarrow> response_writer" where
  "renderAdminSetup render errMsg status w =
     snd (ExecuteTemplate render (adminSetupData \<lparr>Title = ''Set Admin Password'', cd_Inbox = None\<rparr> errMsg) (with_status status w))"

definition capitalize :: "string \<Rightarrow> string" where
  "capitalize s = (case s of [] \<Rightarrow> []
     | c # t \<Rightarrow> if 97 \<le> byte c \<and> byte c \<le> 122 then char_of (byte c - 32) # t else s)"

definition startAdminSession :: "Options \<Rightarrow> draws \<Rightarrow> adminSessionStore \<Rightarrow> response_writer
    \<Rightarrow> adminSessionStore \<times> response_writer" where
  "startAdminSession o1 dr s w =
     (let token = NewSessionToken (dr_uuid dr) in
      (admin_create token (dr_now dr + adminSessionTTL) s, setAdminCookie o1 token w))"

definition not_configured :: "response_writer \<Rightarrow> response_writer" where
  "not_configured w = http_Error ''admin area is not configured'' 503 w"

section \<open>The gate of the admin area\<close>

text \<open>\<open>next\<close> is the handler behind the gate; admin handlers do not touch the sessions.\<close>

definition adminAuthMiddleware :: "Options \<Rightarrow> int \<Rightarrow> (request \<Rightarrow> db \<Rightarrow> response_writer \<Rightarrow> db \<times> response_writer)
    \<Rightarrow> request \<Rightarrow> adminSessionStore \<Rightarrow> db \<Rightarrow> response_writer \<Rightarrow> adminSessionStore \<times> db \<times> response_writer" where
  "adminAuthMiddleware o1 now next r s d w =
     (if \<not> adminEnabled o1 then (s, d, not_configured w)
      else case adminPasswordHash d of
        (Inl e, d1) \<Rightarrow> (s, d1, http_Error ''failed to load admin'' 500 w)
      | (Inr hash, d1) \<Rightarrow>
          if hash = [] then (s, d1, Redirect r ''/admin/setup'' 303 w)
          else (case Cookie (adminCookieName (opt_CookieSecure o1)) r of
             None \<Rightarrow> (s, d1, Redirect r ''/admin/login'' 303 w)
           | Some token \<Rightarrow>
               if token = [] then (s, d1, Redirect r ''/admin/login'' 303 w)
               else (case admin_validate now token s of
                  (False, s1) \<Rightarrow> (s1, d1, Redirect r ''/admin/login'' 303 w)
                | (True, s1) \<Rightarrow> (s1, next r d1 w))))"

section \<open>Login and setup\<close>

definition HandleAdminLoginForm :: "ext \<Rightarrow> Options \<Rightarrow> request \<Rightarrow> db \<Rightarrow> response_writer \<Rightarrow> db \<times> response_writer" where
  "HandleAdminLoginForm x o1 r d w =
     (if \<not> adminEnabled o1 then (d, not_configured w)
      else case adminPasswordHash d of
        (Inl e, d1) \<Rightarrow> (d1, http_Error ''failed to load admin'' 500 w)
      | (Inr hash, d1) \<Rightarrow>
          (d1, if hash = [] then Redirect r ''/admin/setup'' 303 w else renderAdminLogin (x_render x) [] 200 w))"

definition HandleAdminLogin :: "ext \<Rightarrow> Options \<Rightarrow> draws \<Rightarrow> request \<Rightarrow> adminSessionStore \<Rightarrow> db \<Rightarrow> response_writer
    \<Rightarrow> adminSessionStore \<times> db \<times> response_writer" where
  "HandleAdminLogin x o1 dr r s d w =
     (if \<not> adminEnabled o1 then (s, d, not_configured w)
      else case adminPasswordHash d of
        (Inl e, d1) \<Rightarrow> (s, d1, http_Error ''failed to load admin'' 500 w)
      | (Inr hash, d1) \<Rightarrow>
          if hash = [] then (s, d1, Redirect r ''/admin/setup'' 303 w)
          else case ParseForm (x_parse_form x) r of
            Inl e \<Rightarrow> (s, d1, renderAdminLogin (x_render x) ''Invalid form submission.'' 400 w)
          | Inr form \<Rightarrow>
              let username = PostFormValue ''username'' form;
                  password = PostFormValue ''password'' form;
                  usernameOK = (username = opt_AdminUsername o1);
                  passwordOK = VerifyPassword (x_cmp x) hash password
              in if \<not> usernameOK \<or> \<not> passwordOK
                 then (s, d1, renderAdminLogin (x_render x) ''Invalid username or password.'' 401 w)
                 else let (s1, w1) = startAdminSession o1 dr s w in (s1, d1, Redirect r ''/admin'' 303 w1))"

definition HandleAdminSetupForm :: "ext \<Rightarrow> Options \<Rightarrow> request \<Rightarrow> db \<Rightarrow> response_writer \<Rightarrow> db \<times> response_writer" where
  "HandleAdminSetupForm x o1 r d w =
     (if \<not> adminEnabled o1 then (d, not_configured w)
      else case adminPasswordHash d of
        (Inl e, d1) \<Rightarrow> (d1, http_Error ''failed to load admin'' 500 w)
      | (Inr hash, d1) \<Rightarrow>
          (d1, if hash \<noteq> [] then Redirect r ''/admin/login'' 303 w else renderAdminSetup (x_render x) [] 200 w))"

text \<open>
  \<open>HandleAdminSetup\<close> reads the stored hash first, and hashes and stores the new password
  last; between the two steps other requests can run, so they are two definitions.
  \<open>setup_check\<close> answers the request, or gives the password to go on with.
\<close>

definition setup_check :: "ext \<Rightarrow> Options \<Rightarrow> request \<Rightarrow> db \<Rightarrow> response_writer \<Rightarrow> (response_writer + string) \<times> db" where
  "setup_check x o1 r d w =
     (if \<not> adminEnabled o1 then (Inl (not_configured w), d)
      else case adminPasswordHash d of
        (Inl e, d1) \<Rightarrow> (Inl (http_Error ''failed to load admin'' 500 w), d1)
      | (Inr existing, d1) \<Rightarrow>
          if existing \<noteq> [] then (Inl (Redirect r ''/admin/login'' 303 w), d1)
          else case ParseForm (x_parse_form x) r of
            Inl e \<Rightarrow> (Inl (renderAdminSetup (x_render x) ''Invalid form submission.'' 400 w), d1)
          | Inr form \<Rightarrow>
              let password = PostFormValue ''password'' form; confirm = PostFormValue ''confirm_password'' form in
              if length password < minAdminPasswordLength then
                (Inl (renderAdminSetup (x_render x)
                   (''Password must be at least '' @ Itoa (int minAdminPasswordLength) @ '' characters.'') 400 w), d1)
              else if password \<noteq> confirm then (Inl (renderAdminSetup (x_render x) ''Passwords do not match.'' 400 w), d1)
              else (Inr password, d1))"

definition setup_commit :: "ext \<Rightarrow> Options \<Rightarrow> draws \<Rightarrow> request \<Rightarrow> string \<Rightarrow> adminSessionStore \<Rightarrow> db \<Rightarrow> response_writer
    \<Rightarrow> adminSessionStore \<times> db \<times> response_writer" where
  "setup_commit x o1 dr r password s d w =
     (case HashPassword (x_gen x) (dr_salt dr) password (opt_BcryptCost o1) of
        Inl e \<Rightarrow> (s, d, renderAdminSetup (x_render x) ''Something went wrong. Please try again.'' 500 w)
      | Inr hash \<Rightarrow>
          (case SetSetting (dr_now dr) AdminPasswordHashKey hash d of
             (Inl e, d1) \<Rightarrow> (s, d1, renderAdminSetup (x_render x) ''Something went wrong. Please try again.'' 500 w)
           | (Inr _, d1) \<Rightarrow>
               (let (s1, w1) = startAdminSession o1 dr s w in (s1, d1, Redirect r ''/admin'' 303 w1))))"

definition HandleAdminSetup :: "ext \<Rightarrow> Options \<Rightarrow> draws \<Rightarrow> request \<Rightarrow> adminSessionStore \<Rightarrow> db \<Rightarrow> response_writer
    \<Rightarrow> adminSessionStore \<times> db \<times> response_writer" where
  "HandleAdminSetup x o1 dr r s d w =
     (case setup_check x o1 r d w of
        (Inl w1, d1) \<Rightarrow> (s, d1, w1)
      | (Inr password, d1) \<Rightarrow> setup_commit x o1 dr r password s d1 w)"

definition HandleAdminLogout :: "Options \<Rightarrow> request \<Rightarrow> adminSessionStore \<Rightarrow> response_writer
    \<Rightarrow> adminSessionStore \<times> response_writer" where
  "HandleAdminLogout o1 r s w =
     (let s1 = (case Cookie (adminCookieName (opt_CookieSecure o1)) r of
                  None \<Rightarrow> s
                | Some v \<Rightarrow> if v \<noteq> [] then admin_delete v s else s)
      in (s1, Redirect r ''/admin/login'' 303 (clearAdminCookie o1 w)))"

section \<open>Domain pages\<close>

definition HandleAdminIndex :: "ext \<Rightarrow> request \<Rightarrow> db \<Rightarrow> response_writer \<Rightarrow> db \<times> response_writer" where
  "HandleAdminIndex x r d w = renderAdmin (x_render x) [] 200 d w"

definition HandleAdminAddDomain :: "ext \<Rightarrow> draws \<Rightarrow> request \<Rightarrow> db \<Rightarrow> response_writer \<Rightarrow> db \<times> response_writer" where
  "HandleAdminAddDomain x dr r d w =
     (case ParseForm (x_parse_form x) r of
        Inl e \<Rightarrow> renderAdmin (x_render x) ''Invalid form submission.'' 400 d w
      | Inr form \<Rightarrow>
          (case Validate (x_ul x) (PostFormValue ''name'' form) of
             Inl e \<Rightarrow> renderAdmin (x_render x) (capitalize (error_text e) @ ''.'') 400 d w
           | Inr name \<Rightarrow>
               (case CreateDomain (x_ul x) (dr_now dr) name d of
                  (Inl e, d1) \<Rightarrow>
                    (if err_is e ErrConflict
                     then renderAdmin (x_render x) (''Domain '' @ name @ '' already exists.'') 409 d1 w
                     else renderAdmin (x_render x) ''Failed to add domain.'' 500 d1 w)
                | (Inr _, d1) \<Rightarrow> (d1, Redirect r ''/admin'' 303 w))))"

definition HandleAdminToggleDomain :: "request \<Rightarrow> db \<Rightarrow> response_writer \<Rightarrow> db \<times> response_writer" where
  "HandleAdminToggleDomain r d w =
     (case GetDomain (PathValue ''name'' r) d of
        (Inl e, d1) \<Rightarrow> (d1, if err_is e ErrNotFound then NotFound w else http_Error ''failed to update domain'' 500 w)
      | (Inr dm, d1) \<Rightarrow>
          (case SetDomainEnabled (Domain_Name dm) (\<not> Domain_Enabled dm) d1 of
             (Inl e, d2) \<Rightarrow> (d2, http_Error ''failed to update domain'' 500 w)
           | (Inr _, d2) \<Rightarrow> (d2, Redirect r ''/admin'' 303 w)))"

section \<open>Preservation\<close>

context writer_inv
begin

lemma with_status: "W w \<Longrightarrow> W (with_status st w)"
  by (simp add: with_status_def primitives)

lemma admin_renders:
  "W w \<Longrightarrow> W (renderAdminLogin render msg st w)" "W w \<Longrightarrow> W (renderAdminSetup render msg st w)"
  "W w \<Longrightarrow> W (snd (renderAdmin render msg st d w))"
  by (auto simp: renderAdminLogin_def renderAdminSetup_def renderAdmin_def with_status ExecuteTemplate primitives
      split: prod.split sum.split)

lemma admin_cookies: "W w \<Longrightarrow> W (setAdminCookie o1 token w)" "W w \<Longrightarrow> W (clearAdminCookie o1 w)"
  by (simp_all add: setAdminCookie_def clearAdminCookie_def primitives)

lemma startAdminSession_eq: "startAdminSession o1 dr s w = (s1, w1) \<Longrightarrow> W w \<Longrightarrow> W w1"
  by (auto simp: startAdminSession_def Let_def admin_cookies)

lemma not_configured: "W w \<Longrightarrow> W (not_configured w)"
  by (simp add: not_configured_def primitives)

lemma adminAuthMiddleware:
  assumes "W w" "\<And>d w. W w \<Longrightarrow> W (snd (next r d w))"
  shows "W (snd (snd (adminAuthMiddleware o1 now next r s d w)))"
  using assms
  by (auto simp: adminAuthMiddleware_def not_configured primitives split: prod.split sum.split option.split bool.split)

lemma admin_forms:
  "W w \<Longrightarrow> W (snd (HandleAdminLoginForm x o1 r d w))" "W w \<Longrightarrow> W (snd (HandleAdminSetupForm x o1 r d w))"
  by (auto simp: HandleAdminLoginForm_def HandleAdminSetupForm_def not_configured admin_renders primitives
      split: prod.split sum.split)

lemma HandleAdminLogin: "W w \<Longrightarrow> W (snd (snd (HandleAdminLogin x o1 dr r s d w)))"
  by (auto simp: HandleAdminLogin_def Let_def not_configured admin_renders primitives dest!: startAdminSession_eq
      split: prod.split sum.split)

lemma setup_check_eq: "setup_check x o1 r d w = (Inl w1, d1) \<Longrightarrow> W w \<Longrightarrow> W w1"
  by (auto simp: setup_check_def Let_def not_configured admin_renders primitives split: prod.splits sum.splits if_splits)

lemma setup_commit: "W w \<Longrightarrow> W (snd (snd (setup_commit x o1 dr r password s d w)))"
  by (auto simp: setup_commit_def Let_def admin_renders primitives dest!: startAdminSession_eq split: prod.split sum.split)

lemma HandleAdminSetup: "W w \<Longrightarrow> W (snd (snd (HandleAdminSetup x o1 dr r s d w)))"
  by (auto simp: HandleAdminSetup_def setup_commit dest!: setup_check_eq split: prod.split sum.split)

lemma HandleAdminLogout: "W w \<Longrightarrow> W (snd (HandleAdminLogout o1 r s w))"
  by (simp add: HandleAdminLogout_def Let_def primitives admin_cookies)

lemma admin_pages:
  "W w \<Longrightarrow> W (snd (HandleAdminIndex x r d w))" "W w \<Longrightarrow> W (snd (HandleAdminAddDomain x dr r d w))"
  "W w \<Longrightarrow> W (snd (HandleAdminToggleDomain r d w))"
  by (auto simp: HandleAdminIndex_def HandleAdminAddDomain_def HandleAdminToggleDomain_def admin_renders primitives
      split: prod.split sum.split)

end

context store_frame
begin

lemma adminPasswordHash_eq: "adminPasswordHash d = (res, d') \<Longrightarrow> I d' = I d"
  using reads(12) [of AdminPasswordHashKey d] by (auto simp: adminPasswordHash_def split: prod.splits sum.splits)

lemma renderAdmin: "I d \<Longrightarrow> I (fst (renderAdmin render msg st d w))"
  by (auto simp: renderAdmin_def reads intro!: results)

lemma adminAuthMiddleware:
  assumes "I d" "\<And>d w. I d \<Longrightarrow> I (fst (next r d w))"
  shows "I (fst (snd (adminAuthMiddleware o1 now next r s d w)))"
  using assms
  by (auto simp: adminAuthMiddleware_def dest!: adminPasswordHash_eq split: prod.split sum.split option.split bool.split)

lemma admin_forms:
  "I d \<Longrightarrow> I (fst (HandleAdminLoginForm x o1 r d w))" "I d \<Longrightarrow> I (fst (HandleAdminSetupForm x o1 r d w))"
  "I d \<Longrightarrow> I (fst (snd (HandleAdminLogin x o1 dr r s d w)))" "I d \<Longrightarrow> I (fst (HandleAdminIndex x r d w))"
  by (auto simp: HandleAdminLoginForm_def HandleAdminSetupForm_def HandleAdminLogin_def HandleAdminIndex_def Let_def renderAdmin
      dest!: adminPasswordHash_eq split: prod.split sum.split)

lemma setup_check_same: "setup_check x o1 r d w = (res, d') \<Longrightarrow> I d' = I d"
  by (auto simp: setup_check_def Let_def dest!: adminPasswordHash_eq split: prod.splits sum.splits if_splits)

end

context domain_store
begin

lemma domain_updates_eq:
  "CreateDomain ul now name d = (res, d') \<Longrightarrow> I d \<Longrightarrow> I d'" "SetDomainEnabled name b d = (res', d') \<Longrightarrow> I d \<Longrightarrow> I d'"
  "GetDomain name d = (res'', d') \<Longrightarrow> I d' = I d"
  using CreateDomain [of d ul now name] SetDomainEnabled [of d name b] reads(9) [of name d] by simp_all

lemma domain_pages:
  "I d \<Longrightarrow> I (fst (HandleAdminAddDomain x dr r d w))" "I d \<Longrightarrow> I (fst (HandleAdminToggleDomain r d w))"
  by (auto simp: HandleAdminAddDomain_def HandleAdminToggleDomain_def renderAdmin dest!: domain_updates_eq
      split: prod.split sum.split)

end

context settings_store
begin

lemma setup_commit: "I d \<Longrightarrow> I (fst (snd (setup_commit x o1 dr r password s d w)))"
  using SetSetting [of d] by (auto simp: setup_commit_def split: prod.split sum.split) (metis snd_conv)+

lemma HandleAdminSetup: "I d \<Longrightarrow> I (fst (snd (HandleAdminSetup x o1 dr r s d w)))"
  by (auto simp: HandleAdminSetup_def setup_commit dest!: setup_check_same split: prod.split sum.split)

end

end
