(* ===== verification/Web_Routes.thy ===== *)
theory Web_Routes
  imports Web_Auth Web_Mail Web_Admin
begin

text \<open>
  \<open>internal/web/routes.go\<close>: the templates, the route table and the handler of the whole site.

  The state of the site is the database, the registration limiter and the admin sessions. The
  table is a function from the method and the segments of a clean path; paths are taken
  without percent escapes. As in \<open>http.ServeMux\<close>, a \<open>GET\<close> pattern also takes \<open>HEAD\<close>, a path
  that only other methods match is answered with 405, a path that is not clean is redirected,
  and \<open>/app/\<close> and \<open>/admin/\<close> pass everything on to the inner tables, behind their gates.
\<close>

section \<open>Templates\<close>

record 'a templateSet =
  ts_index :: 'a
  ts_email :: 'a
  ts_admin :: 'a
  ts_landing :: 'a
  ts_login :: 'a
  ts_register :: 'a
  ts_registerSuccess :: 'a
  ts_adminLogin :: 'a
  ts_adminSetup :: 'a

text \<open>\<open>join\<close> is \<open>filepath.Join\<close> of two elements, \<open>dirname\<close> is \<open>filepath.Dir\<close>, and \<open>parse\<close> is
  \<open>template.ParseFiles\<close>.\<close>

definition resolveStaticDir :: "(string \<Rightarrow> string \<Rightarrow> string) \<Rightarrow> (string \<Rightarrow> string) \<Rightarrow> string \<Rightarrow> string" where
  "resolveStaticDir join dirname templateDir =
     (if templateDir = [] \<or> templateDir = ''templates'' then ''static'' else join (dirname templateDir) ''static'')"

fun parse_pages :: "(string \<Rightarrow> 'a result) \<Rightarrow> string list \<Rightarrow> 'a list result" where
  "parse_pages page [] = Inr []"
| "parse_pages page (n # ns) =
     (case page n of
        Inl e \<Rightarrow> Inl e
      | Inr t \<Rightarrow> (case parse_pages page ns of Inl e \<Rightarrow> Inl e | Inr ts \<Rightarrow> Inr (t # ts)))"

definition parseTemplates :: "(string \<Rightarrow> string \<Rightarrow> string) \<Rightarrow> (string list \<Rightarrow> 'a result) \<Rightarrow> string \<Rightarrow> 'a templateSet result" where
  "parseTemplates join parse templateDir0 =
     (let templateDir = (if templateDir0 = [] then ''templates'' else templateDir0);
          base = join templateDir ''base.gohtml'';
          page = (\<lambda>name. parse [base, join templateDir name]) in
      case parse_pages page [''index.gohtml'', ''email.gohtml'', ''admin.gohtml'', ''landing.gohtml'', ''login.gohtml'',
          ''register.gohtml'', ''register_success.gohtml'', ''admin_login.gohtml'', ''admin_setup.gohtml''] of
        Inl e \<Rightarrow> Inl e
      | Inr ts \<Rightarrow> Inr \<lparr>ts_index = ts ! 0, ts_email = ts ! 1, ts_admin = ts ! 2, ts_landing = ts ! 3, ts_login = ts ! 4,
          ts_register = ts ! 5, ts_registerSuccess = ts ! 6, ts_adminLogin = ts ! 7, ts_adminSetup = ts ! 8\<rparr>)"

lemma length_parse_pages: "parse_pages page ns = Inr ts \<Longrightarrow> length ts = length ns"
  by (induction ns arbitrary: ts) (auto split: sum.splits)

section \<open>The route table\<close>

datatype app_route = AppIndex | AppView string | AppAttachment string string | AppDelete string | AppEmails
  | AppNotFound | AppNotAllowed "string list"

datatype admin_route = AdminIndex | AdminAddDomain | AdminToggleDomain string
  | AdminNotFound | AdminNotAllowed "string list"

datatype route = Health | Static | Landing | RegisterForm | Register | LoginForm | Login | Logout
  | AppArea app_route
  | AdminSetupForm | AdminSetup | AdminLoginForm | AdminLogin | AdminLogout
  | AdminArea admin_route
  | Moved string
  | NotAllowed "string list"
  | NoRoute

definition is_get :: "string \<Rightarrow> bool" where
  "is_get m \<longleftrightarrow> m = MethodGet \<or> m = MethodHead"

definition get_only :: "('r \<Rightarrow> string list \<Rightarrow> 'r) \<Rightarrow> string \<Rightarrow> 'r \<Rightarrow> 'r" where
  "get_only no m g = (if is_get m then g else no g [MethodGet, MethodHead])"

definition post_only :: "('r \<Rightarrow> string list \<Rightarrow> 'r) \<Rightarrow> string \<Rightarrow> 'r \<Rightarrow> 'r" where
  "post_only no m p = (if m = MethodPost then p else no p [MethodPost])"

definition get_or_post :: "('r \<Rightarrow> string list \<Rightarrow> 'r) \<Rightarrow> string \<Rightarrow> 'r \<Rightarrow> 'r \<Rightarrow> 'r" where
  "get_or_post no m g p =
     (if is_get m then g else if m = MethodPost then p else no g [MethodGet, MethodHead, MethodPost])"

definition app_table :: "string \<Rightarrow> string list \<Rightarrow> app_route" where
  "app_table m segs =
     (let no = (\<lambda>_ ms. AppNotAllowed ms) in
      case segs of
        [] \<Rightarrow> get_only no m AppIndex
      | [a, b] \<Rightarrow>
          if a = ''api'' \<and> b = ''emails'' then get_only no m AppEmails
          else if a = ''email'' \<and> b \<noteq> [] then get_only no m (AppView b) else AppNotFound
      | [a, i, c] \<Rightarrow> if a = ''email'' \<and> i \<noteq> [] \<and> c = ''delete'' then post_only no m (AppDelete i) else AppNotFound
      | [a, i, c, j] \<Rightarrow>
          if a = ''email'' \<and> i \<noteq> [] \<and> c = ''attachment'' \<and> j \<noteq> [] then get_only no m (AppAttachment i j) else AppNotFound
      | _ \<Rightarrow> AppNotFound)"

definition admin_table :: "string \<Rightarrow> string list \<Rightarrow> admin_route" where
  "admin_table m segs =
     (let no = (\<lambda>_ ms. AdminNotAllowed ms) in
      case segs of
        [] \<Rightarrow> get_only no m AdminIndex
      | [a] \<Rightarrow> if a = ''domains'' then post_only no m AdminAddDomain else AdminNotFound
      | [a, n, t] \<Rightarrow> if a = ''domains'' \<and> n \<noteq> [] \<and> t = ''toggle'' then post_only no m (AdminToggleDomain n) else AdminNotFound
      | _ \<Rightarrow> AdminNotFound)"

text \<open>The outer table, on the segments after the leading slash. A method that no pattern of
  \<open>/admin/setup\<close>, \<open>/admin/login\<close> or \<open>/admin/logout\<close> takes falls through to \<open>/admin/\<close>.\<close>

definition root_table :: "string \<Rightarrow> string list \<Rightarrow> route" where
  "root_table m segs =
     (let no = (\<lambda>_ ms. NotAllowed ms); area = (\<lambda>_ _. AdminArea (admin_table m (tl segs))) in
      case segs of
        [] \<Rightarrow> NoRoute
      | a # rest \<Rightarrow>
          if a = ''app'' then AppArea (app_table m rest)
          else if a = ''admin'' then
            (if rest = [''setup''] then get_or_post area m AdminSetupForm AdminSetup
             else if rest = [''login''] then get_or_post area m AdminLoginForm AdminLogin
             else if rest = [''logout''] then post_only area m AdminLogout
             else AdminArea (admin_table m rest))
          else if a = ''static'' then
            (if rest = [] then (if is_get m then Moved ''/static/'' else NotAllowed [MethodGet, MethodHead])
             else get_only no m Static)
          else if rest \<noteq> [] then NoRoute
          else if a = [] then get_only no m Landing
          else if a = ''health'' then get_only no m Health
          else if a = ''register'' then get_or_post no m RegisterForm Register
          else if a = ''login'' then get_or_post no m LoginForm Login
          else if a = ''logout'' then post_only no m Logout
          else NoRoute)"

text \<open>\<open>cleanPath\<close> of net/http on a path that starts with a slash.\<close>

fun clean_segments :: "string list \<Rightarrow> string list \<Rightarrow> string list" where
  "clean_segments acc [] = rev acc"
| "clean_segments acc (s # ss) =
     (if s = [] \<or> s = ''.'' then clean_segments acc ss
      else if s = ''..'' then clean_segments (tl acc) ss
      else clean_segments (s # acc) ss)"

definition join_segments :: "string list \<Rightarrow> string" where
  "join_segments ss = (if ss = [] then ''/'' else concat (map (\<lambda>s. CHR ''/'' # s) ss))"

definition cleanPath :: "string \<Rightarrow> string" where
  "cleanPath p0 =
     (let p = (if p0 = [] then ''/'' else if hd p0 \<noteq> CHR ''/'' then CHR ''/'' # p0 else p0);
          np = join_segments (clean_segments [] (Split p CHR ''/'')) in
      if last p = CHR ''/'' \<and> np \<noteq> ''/'' then np @ ''/'' else np)"

definition find_route :: "request \<Rightarrow> route" where
  "find_route r =
     (let path = cleanPath (rq_path r); rt = root_table (rq_method r) (tl (Split path CHR ''/'')) in
      case rt of
        Moved url \<Rightarrow> Moved url
      | _ \<Rightarrow> if path \<noteq> rq_path r then Moved path else rt)"

section \<open>The site\<close>

record site =
  site_db :: db
  site_limiter :: "FixedWindowLimiter option"
  site_admin :: adminSessionStore

text \<open>\<open>RegisterRoutes\<close>: the templates, the directory of the static files and the first state of the
  site; the handler it returns is \<open>serve\<close>.\<close>

definition RegisterRoutes :: "(string \<Rightarrow> string \<Rightarrow> string) \<Rightarrow> (string \<Rightarrow> string) \<Rightarrow> (string list \<Rightarrow> 'a result) \<Rightarrow> string
    \<Rightarrow> FixedWindowLimiter option \<Rightarrow> db \<Rightarrow> ('a templateSet \<times> string \<times> site) result" where
  "RegisterRoutes join dirname parse templateDir limiter d =
     (case parseTemplates join parse templateDir of
        Inl e \<Rightarrow> Inl e
      | Inr templates \<Rightarrow> Inr (templates, resolveStaticDir join dirname templateDir,
          \<lparr>site_db = d, site_limiter = limiter, site_admin = newAdminSessionStore\<rparr>))"

definition not_allowed :: "string list \<Rightarrow> response_writer \<Rightarrow> response_writer" where
  "not_allowed ms w = http_Error ''Method Not Allowed'' 405
     (header_Set ''Allow'' (case ms of [] \<Rightarrow> [] | m # rest \<Rightarrow> m @ concat (map (\<lambda>k. '', '' @ k) rest)) w)"

definition app_handler :: "ext \<Rightarrow> app_route \<Rightarrow> request \<Rightarrow> db \<Rightarrow> response_writer \<Rightarrow> db \<times> response_writer" where
  "app_handler x ar r d w =
     (case ar of
        AppIndex \<Rightarrow> HandleIndex x r d w
      | AppView i \<Rightarrow> HandleViewEmail x (r\<lparr>rq_path_values := [(''id'', i)]\<rparr>) d w
      | AppAttachment i j \<Rightarrow> HandleAttachment x (r\<lparr>rq_path_values := [(''id'', i), (''aid'', j)]\<rparr>) d w
      | AppDelete i \<Rightarrow> HandleDeleteEmail (r\<lparr>rq_path_values := [(''id'', i)]\<rparr>) d w
      | AppEmails \<Rightarrow> HandleAPIEmails r d w
      | AppNotFound \<Rightarrow> (d, NotFound w)
      | AppNotAllowed ms \<Rightarrow> (d, not_allowed ms w))"

definition admin_handler :: "ext \<Rightarrow> draws \<Rightarrow> admin_route \<Rightarrow> request \<Rightarrow> db \<Rightarrow> response_writer \<Rightarrow> db \<times> response_writer" where
  "admin_handler x dr ar r d w =
     (case ar of
        AdminIndex \<Rightarrow> HandleAdminIndex x r d w
      | AdminAddDomain \<Rightarrow> HandleAdminAddDomain x dr r d w
      | AdminToggleDomain n \<Rightarrow> HandleAdminToggleDomain (r\<lparr>rq_path_values := [(''name'', n)]\<rparr>) d w
      | AdminNotFound \<Rightarrow> (d, NotFound w)
      | AdminNotAllowed ms \<Rightarrow> (d, not_allowed ms w))"

definition on_db :: "(db \<Rightarrow> response_writer \<Rightarrow> db \<times> response_writer) \<Rightarrow> site \<Rightarrow> response_writer \<Rightarrow> site \<times> response_writer" where
  "on_db f st w = (case f (site_db st) w of (d, w1) \<Rightarrow> (st\<lparr>site_db := d\<rparr>, w1))"

definition on_admin :: "(adminSessionStore \<Rightarrow> db \<Rightarrow> response_writer \<Rightarrow> adminSessionStore \<times> db \<times> response_writer)
    \<Rightarrow> site \<Rightarrow> response_writer \<Rightarrow> site \<times> response_writer" where
  "on_admin f st w = (case f (site_admin st) (site_db st) w of (s, d, w1) \<Rightarrow> (st\<lparr>site_db := d, site_admin := s\<rparr>, w1))"

definition root_handler :: "ext \<Rightarrow> Options \<Rightarrow> draws \<Rightarrow> site \<Rightarrow> request \<Rightarrow> response_writer \<Rightarrow> site \<times> response_writer" where
  "root_handler x o1 dr st r w =
     (case find_route r of
        Health \<Rightarrow> on_db HandleHealth st w
      | Static \<Rightarrow> (st, staticHandler (x_files x) r w)
      | Landing \<Rightarrow> on_db (HandleLanding x o1 dr r) st w
      | RegisterForm \<Rightarrow> on_db (HandleRegisterForm x o1 dr r) st w
      | Register \<Rightarrow>
          (case HandleRegister x o1 dr r (site_limiter st) (site_db st) w of
             (l, d, w1) \<Rightarrow> (st\<lparr>site_db := d, site_limiter := l\<rparr>, w1))
      | LoginForm \<Rightarrow> on_db (HandleLoginForm x o1 dr r) st w
      | Login \<Rightarrow> on_db (HandleLogin x o1 dr r) st w
      | Logout \<Rightarrow> on_db (HandleLogout o1 r) st w
      | AppArea ar \<Rightarrow> on_db (MailboxAuthMiddleware o1 (dr_now dr) (app_handler x ar) r) st w
      | AdminSetupForm \<Rightarrow> on_db (HandleAdminSetupForm x o1 r) st w
      | AdminSetup \<Rightarrow> on_admin (HandleAdminSetup x o1 dr r) st w
      | AdminLoginForm \<Rightarrow> on_db (HandleAdminLoginForm x o1 r) st w
      | AdminLogin \<Rightarrow> on_admin (HandleAdminLogin x o1 dr r) st w
      | AdminLogout \<Rightarrow>
          (case HandleAdminLogout o1 r (site_admin st) w of (s, w1) \<Rightarrow> (st\<lparr>site_admin := s\<rparr>, w1))
      | AdminArea ar \<Rightarrow> on_admin (adminAuthMiddleware o1 (dr_now dr) (admin_handler x dr ar) r) st w
      | Moved url \<Rightarrow> (st, Redirect r url 301 w)
      | NotAllowed ms \<Rightarrow> (st, not_allowed ms w)
      | NoRoute \<Rightarrow> (st, NotFound w))"

text \<open>One request through the handler that \<open>RegisterRoutes\<close> returns.\<close>

definition serve :: "ext \<Rightarrow> Options \<Rightarrow> draws \<Rightarrow> request \<Rightarrow> site \<Rightarrow> site \<times> response_writer" where
  "serve x o1 dr r st =
     (case wrapHTTP (x_uf x) (x_url_parse x) st (root_handler x o1 dr st) r new_writer of
        (st', w) \<Rightarrow> (st', finish w))"

end
