(* ===== verification/Web_Samples.thy ===== *)
theory Web_Samples
  imports Web_Routes Samples
begin

text \<open>
  A site for the concrete instances of the web properties: the sample database, no admin
  session, and stand-ins for the packages outside the repository.
\<close>

definition sample_ext :: ext where
  "sample_ext = \<lparr>x_ul = (\<lambda>n. n), x_uf = (\<lambda>_ _. False), x_parse_form = (\<lambda>_. Inr []), x_url_parse = (\<lambda>_. None),
     x_gen = toy_gen, x_cmp = toy_cmp, x_sanitize = (\<lambda>s. s), x_render = (\<lambda>_. Rendered), x_media = (\<lambda>n. n),
     x_files = (\<lambda>p w. Write (Bytes p) w)\<rparr>"

definition sample_options :: Options where
  "sample_options = \<lparr>opt_DefaultDomain = ''x.test'', opt_CookieSecure = False, opt_SessionTTL = 86400 * time_Second,
     opt_BcryptCost = 10, opt_AdminUsername = ''root''\<rparr>"

definition sample_draws :: draws where
  "sample_draws = \<lparr>dr_now = 400 * time_Second, dr_uuid = ''u1'', dr_salt = [], dr_rand = (\<lambda>n. Inr (replicate n (CHR 0x00)))\<rparr>"

definition sample_site :: site where
  "sample_site = \<lparr>site_db = sample_db, site_limiter = None, site_admin = newAdminSessionStore\<rparr>"

lemma sample_site_fields [simp]:
  "site_db sample_site = sample_db" "site_limiter sample_site = None" "site_admin sample_site = Map.empty"
  by (simp_all add: sample_site_def newAdminSessionStore_def)

lemma sample_draws_fields [simp]:
  "dr_now sample_draws = 400 * time_Second" "dr_uuid sample_draws = ''u1''" "dr_salt sample_draws = []"
  "dr_rand sample_draws n = Inr (replicate n (CHR 0x00))"
  by (simp_all add: sample_draws_def)

lemma sample_options_fields [simp]:
  "opt_DefaultDomain sample_options = ''x.test''" "opt_CookieSecure sample_options = False"
  "opt_SessionTTL sample_options = 86400 * time_Second" "opt_BcryptCost sample_options = 10"
  "opt_AdminUsername sample_options = ''root''"
  by (simp_all add: sample_options_def)

lemma sample_ext_fields [simp]:
  "x_ul sample_ext = (\<lambda>n. n)" "x_parse_form sample_ext s = Inr []" "x_gen sample_ext = toy_gen" "x_cmp sample_ext = toy_cmp"
  "x_render sample_ext pg = Rendered" "x_files sample_ext p w = Write (Bytes p) w"
  by (simp_all add: sample_ext_def)

text \<open>Requests of the owner of session \<open>s1\<close>, of a stranger, and of the owner's browser.\<close>

definition sample_request :: "string \<Rightarrow> string \<Rightarrow> (string \<times> string) list \<Rightarrow> request" where
  "sample_request m path cookies = (plain_request m path)\<lparr>rq_cookies := cookies\<rparr>"

lemma sample_request_fields [simp]:
  "rq_method (sample_request m path cookies) = m" "rq_path (sample_request m path cookies) = path"
  "rq_cookies (sample_request m path cookies) = cookies" "rq_headers (sample_request m path cookies) = []"
  "rq_body (sample_request m path cookies) = []" "rq_body_limit (sample_request m path cookies) = None"
  by (simp_all add: sample_request_def plain_request_def)

lemma sample_routes:
  "find_route (sample_request ''GET'' ''/app'' cs) = AppArea AppIndex"
  "find_route (sample_request ''GET'' ''/app/email/1'' cs) = AppArea (AppView ''1'')"
  "find_route (sample_request ''POST'' ''/login'' cs) = Login"
  "find_route (sample_request ''POST'' ''/register'' cs) = Register"
  "find_route (sample_request ''POST'' ''/admin/setup'' cs) = AdminSetup"
  "find_route (sample_request ''POST'' ''/admin/domains'' cs) = AdminArea AdminAddDomain"
  by (simp_all add: find_route_def cleanPath_def join_segments_def root_table_def app_table_def admin_table_def
      get_only_def post_only_def get_or_post_def is_get_def MethodGet_def MethodHead_def MethodPost_def Let_def)

end
