(* ===== verification/Repository_Mailbox.thy ===== *)
theory Repository_Mailbox
  imports Repository_Spec Samples "HOL-Library.Multiset"
begin

text \<open>
  What a mailbox shows: a delivered message reads back, the pages of the listing partition
  the mailbox newest first, opening a message changes the unread count by one, and deleting
  one leaves every other message and mailbox alone.
\<close>

section \<open>Reading back a delivery\<close>

lemma sort_key_append_fresh:
  assumes "sorted (map f ys)" "\<forall>x \<in> set xs. \<not> P x" "\<forall>y \<in> set ys. P y"
  shows "sort_key f (filter P (xs @ ys)) = ys"
  using assms by (simp add: filter_empty_conv sort_key_id_if_sorted)

lemma delivered_row:
  assumes "db_wf d" "SaveInboundMessage ul now email atts d = (Inr (e', atts'), d')"
  shows "filter (\<lambda>r. er_inbox_id r = Email_InboxID email \<and> er_id r = Email_ID e') (db_emails d') =
    [email_row_of (Email_ID e') (Email_ReceivedAt e') email]"
proof -
  note st = SaveInboundMessage_Inr [OF assms(2)]
  have fresh: "\<forall>r \<in> set (db_emails d). er_id r < Email_ID e'"
    using assms(1) st(2) by (auto simp: db_wf_def ids_wf_def keys_ok_def)
  have "db_emails d' = db_emails d @ [email_row_of (Email_ID e') (Email_ReceivedAt e') email]"
    using st(4) by (simp add: same_tables_iff)
  moreover have "filter (\<lambda>r. er_inbox_id r = Email_InboxID email \<and> er_id r = Email_ID e') (db_emails d) = []"
    using fresh by (fastforce simp: filter_empty_conv)
  ultimately show ?thesis by (simp add: email_row_of_def)
qed

lemma delivered_attachment_rows:
  assumes "db_wf d" "SaveInboundMessage ul now email atts d = (Inr (e', atts'), d')"
  shows "sort_key ar_id (filter (\<lambda>r. ar_email_id r = Email_ID e') (db_attachments d')) =
    attachment_rows (db_attachments_seq d) (Email_ID e') atts"
proof -
  note st = SaveInboundMessage_Inr [OF assms(2)]
  have "\<forall>r \<in> set (db_attachments d). ar_email_id r \<noteq> Email_ID e'"
    using assms(1) st(2) by (fastforce simp: db_wf_def ids_wf_def links_wf_def keys_ok_def)
  moreover have "db_attachments d' = db_attachments d @ attachment_rows (db_attachments_seq d) (Email_ID e') atts"
    using st(4) by (simp add: same_tables_iff)
  ultimately show ?thesis
    using attachment_rows_keys [of "db_attachments_seq d" "Email_ID e'" atts]
    by (simp add: sort_key_append_fresh sort_key_id_if_sorted attachment_rows_sorted)
qed

text \<open>
  C11. A message that was stored reads back: the mailbox it was delivered to shows the email
  with its default subject and whole seconds, under the id the delivery returned, and the
  attachments of that id are the ones that were sent, in their order.
\<close>
theorem delivered_message_reads_back:
  assumes "db_wf d" "SaveInboundMessage ul now email atts d = (Inr (e', atts'), d')" "db_faults d' = []"
  shows "fst (GetEmailByID (Email_InboxID email) (Email_ID e') d') = Inr (stored_email e')
    \<and> fst (GetAttachmentsByEmailID (Email_ID e') d') = Inr atts'"
proof -
  note st = SaveInboundMessage_Inr [OF assms(2)]
  have "fst (GetEmailByID (Email_InboxID email) (Email_ID e') d')
      = Inr (scanEmailRow (email_row_of (Email_ID e') (Email_ReceivedAt e') email))"
    using assms(3) delivered_row [OF assms(1,2)] by (simp add: GetEmailByID_def scan_one_def stmt_ok)
  moreover have "email\<lparr>Email_ID := Email_ID e', Email_ReceivedAt := Email_ReceivedAt e'\<rparr> = e'"
    using st(2) by simp
  ultimately show ?thesis
    using assms(3) st(3) delivered_attachment_rows [OF assms(1,2)]
    by (simp add: scan_email_row_of GetAttachmentsByEmailID_def stmt_ok scan_attachment_rows)
qed

lemma delivered_message_reads_back_witness:
  "\<exists>e' d'. SaveInboundMessage (\<lambda>n. n) 0 sample_message [] sample_db = (Inr (e', []), d')
    \<and> fst (GetEmailByID 1 (Email_ID e') d') = Inr (stored_email e')
    \<and> fst (GetAttachmentsByEmailID (Email_ID e') d') = Inr []"
proof -
  define run where "run = SaveInboundMessage (\<lambda>n. n) 0 sample_message [] sample_db"
  obtain e' d' where r: "run = (Inr (e', []), d')" and f: "db_faults d' = []"
    unfolding run_def
    by (simp add: SaveInboundMessage_def tx_stmt_def stmt_ok insertEmail_def insert_email_row_def Let_def IsZero_def zero_time_def)
  show ?thesis
    using delivered_message_reads_back [OF sample_db_wf r [unfolded run_def] f] r [unfolded run_def] by auto
qed

section \<open>The listing\<close>

definition mailbox_rows :: "int \<Rightarrow> db \<Rightarrow> email_row list" where
  "mailbox_rows inboxID d = sort_key (\<lambda>r. (- er_received_at r, - er_id r))
     (filter (\<lambda>r. er_inbox_id r = inboxID) (db_emails d))"

definition mailbox :: "int \<Rightarrow> db \<Rightarrow> Email list" where
  "mailbox inboxID d = map scanEmailRow (mailbox_rows inboxID d)"

lemma GetEmailsByInboxID_page:
  assumes "db_faults d = []" "0 < lim" "0 \<le> offset"
  shows "GetEmailsByInboxID inboxID lim offset d = (Inr (take (nat lim) (drop (nat offset) (mailbox inboxID d))), d)"
  using assms by (simp add: GetEmailsByInboxID_def stmt_ok mailbox_def mailbox_rows_def take_map drop_map)

lemma concat_pages: "concat (map (\<lambda>i. take n (drop (n * i) xs)) [0..<k]) = take (n * k) xs"
  by (induction k) (simp_all add: take_add [symmetric] algebra_simps)

definition newest_first :: "Email list \<Rightarrow> bool" where
  "newest_first es \<longleftrightarrow> sorted_wrt (\<lambda>a b. Email_ReceivedAt b < Email_ReceivedAt a \<or>
     (Email_ReceivedAt a = Email_ReceivedAt b \<and> Email_ID b \<le> Email_ID a)) es"

lemma newest_first_mailbox: "newest_first (mailbox inboxID d)"
proof -
  have "sorted (map (\<lambda>r. (- er_received_at r, - er_id r)) (mailbox_rows inboxID d))"
    unfolding mailbox_rows_def by (rule sorted_sort_key)
  then have "sorted_wrt (\<lambda>a b. (- er_received_at a, - er_id a) \<le> (- er_received_at b, - er_id b)) (mailbox_rows inboxID d)"
    by (simp only: sorted_wrt_map)
  then have "sorted_wrt (\<lambda>a b. fromUnix (er_received_at b) < fromUnix (er_received_at a) \<or>
      (fromUnix (er_received_at a) = fromUnix (er_received_at b) \<and> er_id b \<le> er_id a)) (mailbox_rows inboxID d)"
    by (rule sorted_wrt_mono_rel [rotated]) (auto simp: fromUnix_def)
  then show ?thesis by (simp add: newest_first_def mailbox_def sorted_wrt_map scanEmailRow_def)
qed

text \<open>
  C15. Paging shows a mailbox exactly once: the pages of any positive size, taken until they
  cover the mailbox and put one after the other, are its messages newest first, later ids
  first among messages of the same second, and no message of another mailbox.
\<close>
theorem pages_partition_the_mailbox:
  assumes "db_faults d = []" "0 < psize" "length (filter (\<lambda>r. er_inbox_id r = inboxID) (db_emails d)) \<le> psize * k"
  shows "\<exists>es. concat (map (\<lambda>i. value_or [] (fst (GetEmailsByInboxID inboxID (int psize) (int (psize * i)) d))) [0..<k]) = es
    \<and> newest_first es
    \<and> mset es = mset (map scanEmailRow (filter (\<lambda>r. er_inbox_id r = inboxID) (db_emails d)))"
proof (intro exI conjI)
  have "map (\<lambda>i. value_or [] (fst (GetEmailsByInboxID inboxID (int psize) (int (psize * i)) d))) [0..<k]
      = map (\<lambda>i. take psize (drop (psize * i) (mailbox inboxID d))) [0..<k]"
    using assms(1,2) by (simp add: GetEmailsByInboxID_page nat_mult_distrib)
  then show "concat (map (\<lambda>i. value_or [] (fst (GetEmailsByInboxID inboxID (int psize) (int (psize * i)) d))) [0..<k])
      = mailbox inboxID d"
    using assms(3) by (simp only: concat_pages) (simp add: mailbox_def mailbox_rows_def)
  show "newest_first (mailbox inboxID d)" by (rule newest_first_mailbox)
  show "mset (mailbox inboxID d) = mset (map scanEmailRow (filter (\<lambda>r. er_inbox_id r = inboxID) (db_emails d)))"
    by (simp add: mailbox_def mailbox_rows_def)
qed

lemma pages_partition_the_mailbox_witness:
  "\<exists>es. concat (map (\<lambda>i. value_or [] (fst (GetEmailsByInboxID 1 (int 1) (int (1 * i)) sample_db))) [0..<2]) = es
    \<and> newest_first es \<and> mset es = mset (map scanEmailRow (filter (\<lambda>r. er_inbox_id r = 1) (db_emails sample_db)))"
  by (rule pages_partition_the_mailbox) simp_all

section \<open>Unread counts and deletion\<close>

definition unread :: "int \<Rightarrow> db \<Rightarrow> nat" where
  "unread inboxID d = count_rows (\<lambda>r. er_inbox_id r = inboxID \<and> er_is_read r = 0) (db_emails d)"

lemma GetUnreadCount_ok: "db_faults d = [] \<Longrightarrow> GetUnreadCount inboxID d = (Inr (unread inboxID d), d)"
  by (simp add: GetUnreadCount_def stmt_ok unread_def)

lemma MarkEmailAsRead_ok:
  "db_faults d = [] \<Longrightarrow> e \<in> er_id ` set (db_emails d) \<Longrightarrow> MarkEmailAsRead e d =
     (Inr (), d\<lparr>db_emails := update_rows (\<lambda>r. er_id r = e) (\<lambda>r. r\<lparr>er_is_read := 1\<rparr>) (db_emails d)\<rparr>)"
  by (auto simp: MarkEmailAsRead_def stmt_ok update_required_ok count_rows_0)

lemma count_marked:
  assumes "distinct (map er_id rows)" "r \<in> set rows" "er_is_read r = 0"
  shows "count_rows (\<lambda>x. er_inbox_id x = i \<and> er_is_read x = 0) rows
    = count_rows (\<lambda>x. er_inbox_id x = i \<and> er_is_read x = 0)
        (update_rows (\<lambda>x. er_id x = er_id r) (\<lambda>x. x\<lparr>er_is_read := 1\<rparr>) rows) + (if er_inbox_id r = i then 1 else 0)"
  using assms
proof (induction rows)
  case (Cons x rows)
  show ?case
  proof (cases "r = x")
    case True
    with Cons.prems(1) have "\<forall>y \<in> set rows. er_id y \<noteq> er_id r" by (simp add: image_iff) metis
    then have "update_rows (\<lambda>x. er_id x = er_id r) (\<lambda>x. x\<lparr>er_is_read := 1\<rparr>) rows = rows"
      by (simp add: update_rows_def map_idI)
    with True Cons.prems(3) show ?thesis by (simp add: count_rows_def update_rows_def)
  next
    case False
    with Cons.prems have ne: "er_id x \<noteq> er_id r" and r: "r \<in> set rows" by auto
    have "distinct (map er_id rows)" using Cons.prems(1) by simp
    from Cons.IH [OF this r Cons.prems(3)] ne show ?thesis by (simp add: count_rows_def update_rows_def)
  qed
qed simp

text \<open>
  Opening an unread message takes one from the unread count of its mailbox, and
  changes the count of no other mailbox.
\<close>
lemma reading_takes_one_unread:
  assumes "db_wf d" "db_faults d = []" "r \<in> set (db_emails d)" "er_is_read r = 0"
  shows "\<exists>n. fst (GetUnreadCount i (snd (MarkEmailAsRead (er_id r) d))) = Inr n
    \<and> fst (GetUnreadCount i d) = Inr (n + (if er_inbox_id r = i then 1 else 0))"
proof -
  have "distinct (map er_id (db_emails d))" using assms(1) by (simp add: db_wf_def ids_wf_def keys_ok_def)
  from count_marked [OF this assms(3,4), of i]
  have "unread i d = unread i (snd (MarkEmailAsRead (er_id r) d)) + (if er_inbox_id r = i then 1 else 0)"
    using assms(2,3) by (simp add: unread_def MarkEmailAsRead_ok)
  moreover have "db_faults (snd (MarkEmailAsRead (er_id r) d)) = []"
    using assms(2,3) by (simp add: MarkEmailAsRead_ok)
  ultimately show ?thesis using assms(2) by (simp add: GetUnreadCount_ok)
qed

lemma reading_takes_one_unread_witness:
  "\<exists>n. fst (GetUnreadCount 1 (snd (MarkEmailAsRead 1 sample_db))) = Inr n
    \<and> fst (GetUnreadCount 1 sample_db) = Inr (n + 1)"
  using reading_takes_one_unread [OF sample_db_wf, of sample_email_row 1] by simp

text \<open>
  Deletion is scoped to the mailbox that asks for it: it removes the message of that
  mailbox with its attachments and answers ``not found'' for any other id, the messages of
  other mailboxes included; every other message and attachment stays.
\<close>
lemma delete_email_is_scoped:
  assumes "db_wf d" "db_faults d = []"
  shows "case DeleteEmail inboxID emailID d of (res, d') \<Rightarrow>
     (if \<exists>r \<in> set (db_emails d). er_id r = emailID \<and> er_inbox_id r = inboxID
      then res = Inr () \<and> db_emails d' = filter (\<lambda>r. er_id r \<noteq> emailID) (db_emails d)
        \<and> db_attachments d' = filter (\<lambda>a. ar_email_id a \<noteq> emailID) (db_attachments d)
      else res = Inl (Wrap ''delete email'' ErrNotFound) \<and> d' = d)"
proof (cases "\<exists>r \<in> set (db_emails d). er_id r = emailID \<and> er_inbox_id r = inboxID")
  case True
  then obtain r where r: "r \<in> set (db_emails d)" "er_id r = emailID" "er_inbox_id r = inboxID" by blast
  have "distinct (map er_id (db_emails d))" using assms(1) by (simp add: db_wf_def ids_wf_def keys_ok_def)
  with r have one: "x \<in> set (db_emails d) \<Longrightarrow> er_id x = emailID \<Longrightarrow> x = r" for x
    by (auto simp: distinct_map inj_on_def)
  have same: "(er_inbox_id x = inboxID \<and> er_id x = emailID) = (er_id x = emailID)" if "x \<in> set (db_emails d)" for x
    using one [OF that] r(3) by blast
  then have "filter (\<lambda>r. \<not> (er_inbox_id r = inboxID \<and> er_id r = emailID)) (db_emails d)
      = filter (\<lambda>r. er_id r \<noteq> emailID) (db_emails d)"
    by (simp cong: filter_cong)
  moreover have "er_id ` set (filter (\<lambda>r. er_inbox_id r = inboxID \<and> er_id r = emailID) (db_emails d)) = {emailID}"
    using r by force
  moreover have "count_rows (\<lambda>r. er_inbox_id r = inboxID \<and> er_id r = emailID) (db_emails d) \<noteq> 0"
    using r by (auto simp: count_rows_0)
  ultimately show ?thesis
    using True assms(2) by (simp add: DeleteEmail_def stmt_ok update_required_ok delete_emails_def Let_def)
next
  case False
  then have "count_rows (\<lambda>r. er_inbox_id r = inboxID \<and> er_id r = emailID) (db_emails d) = 0"
    and "filter (\<lambda>r. er_inbox_id r = inboxID \<and> er_id r = emailID) (db_emails d) = []"
    and "filter (\<lambda>r. \<not> (er_inbox_id r = inboxID \<and> er_id r = emailID)) (db_emails d) = db_emails d"
    by (auto simp: count_rows_0 filter_empty_conv filter_id_conv)
  moreover have "\<not> (\<exists>r \<in> set (db_emails d). er_id r = emailID \<and> er_inbox_id r = inboxID)" using False .
  ultimately show ?thesis
    using assms(2) by (simp only: if_False DeleteEmail_def stmt_ok update_required_ok delete_emails_def Let_def) simp
qed

lemma delete_email_is_scoped_witness:
  "case DeleteEmail 2 1 sample_db of (res, d') \<Rightarrow> res = Inl (Wrap ''delete email'' ErrNotFound) \<and> d' = sample_db"
  using delete_email_is_scoped [OF sample_db_wf, where inboxID = 2 and emailID = 1] by simp

end
