(* ===== verification/Web_Site.thy ===== *)
theory Web_Site
  imports Web_Samples Repository_Mailbox
begin

text \<open>
  Properties of the whole site: what every request keeps of the database and of the response,
  the gates in front of the mailbox and the admin area, and what each gate protects.
\<close>

section \<open>Every request\<close>

context writer_inv
begin

lemma not_allowed: "W w \<Longrightarrow> W (not_allowed ms w)"
  by (simp add: not_allowed_def primitives)

lemma app_handler: "W w \<Longrightarrow> W (snd (app_handler x ar r d w))"
  by (simp add: app_handler_def mailbox_pages primitives not_allowed split: app_route.split)

lemma admin_handler: "W w \<Longrightarrow> W (snd (admin_handler x dr ar r d w))"
  by (simp add: admin_handler_def admin_pages primitives not_allowed split: admin_route.split)

lemma on_db: "W (snd (f (site_db st) w)) \<Longrightarrow> W (snd (on_db f st w))"
  by (simp add: on_db_def case_prod_beta)

lemma on_admin: "W (snd (snd (f (site_admin st) (site_db st) w))) \<Longrightarrow> W (snd (on_admin f st w))"
  by (simp add: on_admin_def case_prod_beta)

lemma staticHandler: "(\<And>p w. W w \<Longrightarrow> W (files p w)) \<Longrightarrow> W w \<Longrightarrow> W (staticHandler files r w)"
  by (simp add: staticHandler_def Let_def primitives)

lemma registered: "W w \<Longrightarrow> W (snd (case HandleRegister x o1 dr r l d w of (l1, d1, w1) \<Rightarrow> (f l1 d1, w1)))"
  using HandleRegister [of w x o1 dr r l d] by (simp add: case_prod_beta)

lemma admin_logged_out: "W w \<Longrightarrow> W (snd (case HandleAdminLogout o1 r s w of (s1, w1) \<Rightarrow> (f s1, w1)))"
  using HandleAdminLogout [of w o1 r s] by (simp add: case_prod_beta)

lemma root_handler:
  assumes "\<And>p w. W w \<Longrightarrow> W (x_files x p w)" "W w"
  shows "W (snd (root_handler x o1 dr st r w))"
  using assms
  by (simp add: root_handler_def on_db on_admin mailbox_pages public_pages HandleLogin HandleLogout admin_forms
      HandleAdminLogin HandleAdminSetup MailboxAuthMiddleware adminAuthMiddleware app_handler admin_handler staticHandler
      registered admin_logged_out primitives not_allowed split: route.split)

end

lemma wrapHTTP_secured:
  assumes "\<And>r w. secured w \<Longrightarrow> secured (snd (next r w))"
  shows "secured (snd (wrapHTTP uf url_parse s0 next r new_writer))"
  using assms secured_new
  by (auto simp: wrapHTTP_def securityHeadersMiddleware_def postSecurityMiddleware_def Let_def secured.primitives)

text \<open>
  C24. Every response carries the four security headers, whatever the request, the state and
  the outcome: pages, redirects, errors of every kind, the answers of the middleware itself,
  and static files, as long as the file server does not remove headers.
\<close>
theorem every_response_has_security_headers:
  assumes "\<forall>p w. secured w \<longrightarrow> secured (x_files x p w)"
  shows "has_security_headers (resp_head (snd (serve x o1 dr r st)))"
proof -
  have "secured (snd (wrapHTTP (x_uf x) (x_url_parse x) st (root_handler x o1 dr st) r new_writer))"
    by (rule wrapHTTP_secured) (use assms secured.root_handler in blast)
  then show ?thesis
    using secured.write_header secured_head by (auto simp: serve_def finish_def split: prod.split)
qed

lemma every_response_has_security_headers_witness:
  "has_security_headers (resp_head (snd (serve sample_ext sample_options sample_draws (sample_request ''GET'' ''/static/app.css'' []) sample_site)))"
  by (rule every_response_has_security_headers) (simp add: secured.Write)

text \<open>The parts of the state a request goes through.\<close>

locale pages_store = account_store + session_store + marking_store
begin

lemma app_pages: "I d \<Longrightarrow> (\<And>i. ar \<noteq> AppDelete i) \<Longrightarrow> I (fst (app_handler x ar r d w))"
  by (simp add: app_handler_def reading_pages HandleAttachment HandleViewEmail split: app_route.split)

lemma on_db: "I (fst (f (site_db st) w)) \<Longrightarrow> I (site_db (fst (on_db f st w)))"
  by (simp add: on_db_def case_prod_beta)

lemma on_admin: "I (fst (snd (f (site_admin st) (site_db st) w))) \<Longrightarrow> I (site_db (fst (on_admin f st w)))"
  by (simp add: on_admin_def case_prod_beta)

lemma registered:
  "I d \<Longrightarrow> I (site_db (fst (case HandleRegister x o1 dr r l d w of (l1, d1, w1) \<Rightarrow> (st\<lparr>site_db := d1, site_limiter := l1\<rparr>, w1))))"
  using HandleRegister [of d x o1 dr r l w] by (simp add: case_prod_beta)

text \<open>All routes but the admin setup and the admin area, if the pages under \<open>/app\<close> keep \<open>I\<close>.\<close>

lemma root_handler_routes:
  assumes "I (site_db st)" "find_route r \<noteq> AdminSetup" "\<And>ar. find_route r \<noteq> AdminArea ar"
    and "\<And>ar r' d w. find_route r = AppArea ar \<Longrightarrow> I d \<Longrightarrow> I (fst (app_handler x ar r' d w))"
  shows "I (site_db (fst (root_handler x o1 dr st r w)))"
  using assms
  by (simp add: root_handler_def on_db on_admin reading_pages public_pages HandleLogin HandleLogout admin_forms
      MailboxAuthMiddleware registered split: route.split prod.split)

end

locale mailbox_store = pages_store + reading_store
begin

lemma app_handler: "I d \<Longrightarrow> I (fst (app_handler x ar r d w))"
  by (cases "\<exists>i. ar = AppDelete i") (auto simp: app_pages, simp add: app_handler_def HandleDeleteEmail)

text \<open>All routes but the admin setup and the admin area.\<close>

lemma root_handler_public:
  assumes "I (site_db st)" "find_route r \<noteq> AdminSetup" "\<And>ar. find_route r \<noteq> AdminArea ar"
  shows "I (site_db (fst (root_handler x o1 dr st r w)))"
  using assms by (intro root_handler_routes) (simp_all add: app_handler)

end

locale keeping_store = pages_store + domain_store + settings_store
begin

lemma admin_handler: "I d \<Longrightarrow> I (fst (admin_handler x dr ar r d w))"
  by (simp add: admin_handler_def admin_forms domain_pages split: admin_route.split)

lemma root_handler_with:
  assumes "I (site_db st)" "\<And>ar r' d w. find_route r = AppArea ar \<Longrightarrow> I d \<Longrightarrow> I (fst (app_handler x ar r' d w))"
  shows "I (site_db (fst (root_handler x o1 dr st r w)))"
proof (cases "find_route r = AdminSetup \<or> (\<exists>ar. find_route r = AdminArea ar)")
  case True
  then show ?thesis
    using assms(1) by (auto simp: root_handler_def on_admin HandleAdminSetup adminAuthMiddleware admin_handler)
next
  case False
  then show ?thesis using assms by (intro root_handler_routes) simp_all
qed

text \<open>All routes but the deletion of a message.\<close>

lemma root_handler_keeping:
  "I (site_db st) \<Longrightarrow> (\<And>i. find_route r \<noteq> AppArea (AppDelete i)) \<Longrightarrow> I (site_db (fst (root_handler x o1 dr st r w)))"
  by (rule root_handler_with) (auto intro: app_pages)

end

locale site_store = keeping_store + mailbox_store
begin

lemma root_handler: "I (site_db st) \<Longrightarrow> I (site_db (fst (root_handler x o1 dr st r w)))"
  by (rule root_handler_with) (simp_all add: app_handler)

end

sublocale whole_store < site_store
  by unfold_locales

lemma serve_state:
  assumes "Q st" "\<And>r w. Q (fst (root_handler x o1 dr st r w))"
  shows "Q (fst (serve x o1 dr r st))"
  using assms
  by (auto simp: serve_def wrapHTTP_def securityHeadersMiddleware_def postSecurityMiddleware_def Let_def split: prod.split)
     (metis fst_conv)+

text \<open>
  No request breaks the database: whichever statements fail, the ids stay distinct, the
  unique columns unique, every message, attachment and session keeps its owner, and the flags
  stay 0 or 1.
\<close>
lemma requests_keep_database_well_formed:
  assumes "db_wf (site_db st)"
  shows "db_wf (site_db (fst (serve x o1 dr r st)))"
  by (rule serve_state) (rule assms, rule wf.root_handler [OF assms])

lemma requests_keep_database_well_formed_witness:
  "db_wf (site_db (fst (serve sample_ext sample_options sample_draws (sample_request ''GET'' ''/app/email/1'' [(''session'', ''s1'')]) sample_site)))"
  by (rule requests_keep_database_well_formed) (simp add: sample_db_wf)

end
