(* ===== verification/Web_Isolation.thy ===== *)
theory Web_Isolation
  imports Web_Site
begin

text \<open>
  The mailbox area from outside and from inside: without a live session it shows nothing and
  changes nothing, and with one it shows and changes only the mailbox of that session.
\<close>

section \<open>The gate\<close>

text \<open>The inbox whose live session the request's cookie names.\<close>

definition logged_in :: "Options \<Rightarrow> int \<Rightarrow> request \<Rightarrow> db \<Rightarrow> Inbox option" where
  "logged_in o1 now r d =
     (case Cookie (sessionCookieName (opt_CookieSecure o1)) r of
        None \<Rightarrow> None
      | Some token \<Rightarrow> if token = [] then None
          else (case fst (GetSession now token d) of Inl e \<Rightarrow> None | Inr (session, inbox) \<Rightarrow> Some inbox))"

definition no_content :: "chunk \<Rightarrow> bool" where
  "no_content c = (case c of Page p \<Rightarrow> False | PartOfPage p \<Rightarrow> False | JsonEmails e \<Rightarrow> False | _ \<Rightarrow> True)"

definition refused :: "response_writer \<Rightarrow> bool" where
  "refused w \<longleftrightarrow> resp_status w \<in> {303, 401, 403, 413} \<and> list_all no_content (rw_body w)"

lemma sent_Redirect: "rw_sent w = None \<Longrightarrow> rw_body w = [] \<Longrightarrow> resp_status (Redirect r url code w) = code \<and> list_all no_content (rw_body (Redirect r url code w))"
  by (simp add: Redirect_def Let_def header_Set_def WriteHeader_def Write_def resp_status_def no_content_def)

lemma sent_Error: "rw_sent w = None \<Longrightarrow> rw_body w = [] \<Longrightarrow> resp_status (http_Error msg code w) = code \<and> list_all no_content (rw_body (http_Error msg code w))"
  by (simp add: http_Error_def header_Set_def header_Del_def WriteHeader_def Write_def resp_status_def no_content_def Let_def)

lemma refused_auth: "rw_sent w = None \<Longrightarrow> rw_body w = [] \<Longrightarrow> refused (requireMailboxAuth r w)"
  using sent_Redirect [of w r "''/login''" 303]
  by (simp add: requireMailboxAuth_def refused_def header_Set_def WriteHeader_def Write_def resp_status_def no_content_def Let_def)

lemma gate_shut:
  "logged_in o1 now r d = None \<Longrightarrow> same_tables d (fst (MailboxAuthMiddleware o1 now next r d w))"
proof -
  assume a: "logged_in o1 now r d = None"
  have "same_tables d d1" if "GetSession now token d = (res, d1)" for token res d1
    using reads_same(6) [of d now token] that by simp
  with a show ?thesis
    by (auto simp: MailboxAuthMiddleware_def logged_in_def split: option.splits prod.splits sum.splits if_splits)
qed

lemma gate_closed:
  assumes "logged_in o1 now r d = None" "rw_sent w = None" "rw_body w = []"
  shows "same_tables d (fst (MailboxAuthMiddleware o1 now next r d w)) \<and> refused (snd (MailboxAuthMiddleware o1 now next r d w))"
proof -
  have cookie: "rw_sent (clearSessionCookie o1 w) = None" "rw_body (clearSessionCookie o1 w) = []"
    using assms(2,3) by (simp_all add: clearSessionCookie_def SetCookie_def)
  show ?thesis
    using assms(1) gate_shut [OF assms(1)] refused_auth [OF assms(2,3)] refused_auth [OF cookie]
    by (auto simp: MailboxAuthMiddleware_def logged_in_def split: option.splits prod.splits sum.splits if_splits)
qed

lemma gate_open:
  assumes "logged_in o1 now r d = Some inbox"
  shows "\<exists>d3 w1. MailboxAuthMiddleware o1 now next r d w = next (withInbox r inbox) d3 w1
    \<and> db_emails d3 = db_emails d \<and> db_attachments d3 = db_attachments d \<and> (db_faults d = [] \<longrightarrow> db_faults d3 = [])
    \<and> rw_sent w1 = rw_sent w \<and> rw_body w1 = rw_body w"
proof -
  obtain token where "Cookie (sessionCookieName (opt_CookieSecure o1)) r = Some token" "token \<noteq> []"
    using assms by (auto simp: logged_in_def split: option.splits if_splits)
  moreover from this obtain session d1 where get: "GetSession now token d = (Inr (session, inbox), d1)"
    using assms by (cases "GetSession now token d") (auto simp: logged_in_def split: sum.splits)
  moreover have "db_emails (snd (TouchSession tok e d1)) = db_emails d1 \<and> db_attachments (snd (TouchSession tok e d1)) = db_attachments d1"
    for tok e d1
    unfolding TouchSession_def snd_update_required exec_count_def
    by (rule run_stmt_cases [of "\<lambda>d. (Inr (count_rows (\<lambda>r. sr_token r = tok) (db_sessions d)), d\<lparr>db_sessions := update_rows
          (\<lambda>r. sr_token r = tok) (\<lambda>r. r\<lparr>sr_expires_at := toUnix e\<rparr>) (db_sessions d)\<rparr>)" d1]) simp_all
  moreover have "db_emails (snd (UpdateLastAccessed now i d1)) = db_emails d1
      \<and> db_attachments (snd (UpdateLastAccessed now i d1)) = db_attachments d1" for i d1
    unfolding UpdateLastAccessed_def snd_update_required exec_count_def
    by (rule run_stmt_cases [of "\<lambda>d. (Inr (count_rows (\<lambda>r. ir_id r = i) (db_inboxes d)), d\<lparr>db_inboxes := update_rows
          (\<lambda>r. ir_id r = i) (\<lambda>r. r\<lparr>ir_last_accessed_at := toUnix now\<rparr>) (db_inboxes d)\<rparr>)" d1]) simp_all
  moreover have "same_tables d d1" using get reads_same(6) [of d now token] by simp
  moreover have "db_faults d = [] \<longrightarrow> db_faults (snd (UpdateLastAccessed now i (snd (TouchSession tok e d1)))) = []" for tok e i
    using get by (auto simp: GetSession_def scan_one_def UpdateLastAccessed_def TouchSession_def query_row_def run_stmt_def exec_count_def
        split: list.splits sum.splits)
  ultimately show ?thesis
    by (intro exI [of _ "snd (UpdateLastAccessed now (Inbox_ID inbox) (snd (TouchSession (Session_Token session) (now + opt_SessionTTL o1) d1)))"]
          exI [of _ "setSessionCookie o1 (Session_Token session) w"])
       (simp add: MailboxAuthMiddleware_def Let_def setSessionCookie_def SetCookie_def same_tables_iff)
qed

lemma sample_logged_in:
  "logged_in sample_options (400 * time_Second) (sample_request m path [(''session'', ''s1'')]) sample_db
     = Some (scanInbox (sample_inbox 1 ''ann'' ''t1'' ''h1''))"
  "logged_in sample_options (400 * time_Second) (sample_request m path [(''session'', ''s2'')]) sample_db = None"
  by (simp_all add: logged_in_def sessionCookieName_def Cookie_def GetSession_def scan_one_def query_row_def run_stmt_def session_join_def
      toUnix_def)

text \<open>
  C18. The mailbox area is closed without a live session: a request for any page under \<open>/app\<close>
  whose cookie names none changes no table and is answered with a redirect to the login page,
  with 401 on the API, or as a rejected POST, and shows no page and no message.
\<close>
theorem mailbox_area_needs_session:
  assumes "find_route r = AppArea ar" "logged_in o1 (dr_now dr) r (site_db st) = None"
  shows "same_tables (site_db st) (site_db (fst (serve x o1 dr r st))) \<and> refused (snd (serve x o1 dr r st))"
proof -
  let ?w = "header_Set ''Content-Security-Policy'' contentSecurityPolicy (header_Set ''Referrer-Policy'' ''no-referrer''
      (header_Set ''X-Frame-Options'' ''DENY'' (header_Set ''X-Content-Type-Options'' ''nosniff'' new_writer)))"
  have w: "rw_sent ?w = None" "rw_body ?w = []" by (simp_all add: header_Set_def new_writer_def)
  have limit: "find_route (r\<lparr>rq_body_limit := n\<rparr>) = find_route r"
    "logged_in o1 now (r\<lparr>rq_body_limit := n\<rparr>) d = logged_in o1 now r d" for n now d
    by (simp_all add: find_route_def logged_in_def Cookie_def Let_def split: route.split)
  have root: "same_tables (site_db st) (site_db (fst (root_handler x o1 dr st r' ?w))) \<and> refused (snd (root_handler x o1 dr st r' ?w))"
    if "r' = r \<or> (\<exists>n. r' = r\<lparr>rq_body_limit := n\<rparr>)" for r'
  proof -
    have "find_route r' = AppArea ar" "logged_in o1 (dr_now dr) r' (site_db st) = None" using that assms limit by auto
    then show ?thesis
      using gate_closed [OF _ w, of o1 "dr_now dr" r' "site_db st" "app_handler x ar"]
      by (simp add: root_handler_def on_db_def case_prod_beta)
  qed
  have err: "refused (http_Error msg code ?w)" if "code \<in> {403, 413}" for msg code
    using sent_Error [OF w, of msg code] that by (auto simp: refused_def)
  have fin: "refused (finish v) = refused v" for v
    by (simp add: finish_def refused_def WriteHeader_def resp_status_def split: option.split)
  show ?thesis
    using root err
    by (auto simp: serve_def wrapHTTP_def securityHeadersMiddleware_def postSecurityMiddleware_def Let_def fin case_prod_beta)
qed

lemma mailbox_area_needs_session_witness:
  "same_tables sample_db (site_db (fst (serve sample_ext sample_options sample_draws (sample_request ''GET'' ''/app'' [(''session'', ''s2'')]) sample_site)))"
  using mailbox_area_needs_session [of "sample_request ''GET'' ''/app'' [(''session'', ''s2'')]" AppIndex sample_options sample_draws sample_site
      sample_ext] sample_logged_in
  by (simp add: sample_routes)

section \<open>One mailbox only\<close>

definition page_shows_only :: "int \<Rightarrow> page \<Rightarrow> bool" where
  "page_shows_only i p = (case p of
     indexData cd n es \<Rightarrow> (\<forall>e \<in> set es. Email_InboxID e = i)
   | emailData cd e atts h t \<Rightarrow> Email_InboxID e = i \<and> (\<forall>a \<in> set atts. Attachment_EmailID a = Email_ID e)
   | _ \<Rightarrow> False)"

definition owns_email :: "int \<Rightarrow> db \<Rightarrow> int \<Rightarrow> bool" where
  "owns_email i d e \<longleftrightarrow> (\<exists>row \<in> set (db_emails d). er_id row = e \<and> er_inbox_id row = i)"

definition shows_only :: "int \<Rightarrow> db \<Rightarrow> chunk \<Rightarrow> bool" where
  "shows_only i d c = (case c of
     Page p \<Rightarrow> page_shows_only i p
   | PartOfPage p \<Rightarrow> page_shows_only i p
   | JsonEmails resp \<Rightarrow> (\<forall>ae \<in> set (aer_Emails resp). owns_email i d (ae_ID ae))
   | _ \<Rightarrow> True)"

definition others_kept :: "int \<Rightarrow> db \<Rightarrow> db \<Rightarrow> bool" where
  "others_kept i d d' \<longleftrightarrow>
     filter (\<lambda>e. er_inbox_id e \<noteq> i) (db_emails d') = filter (\<lambda>e. er_inbox_id e \<noteq> i) (db_emails d) \<and>
     filter (\<lambda>a. \<not> owns_email i d (ar_email_id a)) (db_attachments d') = filter (\<lambda>a. \<not> owns_email i d (ar_email_id a)) (db_attachments d)"

definition isolated :: "int \<Rightarrow> db \<Rightarrow> db \<times> response_writer \<Rightarrow> bool" where
  "isolated i d res \<longleftrightarrow> others_kept i d (fst res) \<and> list_all (shows_only i d) (rw_body (snd res)) \<and>
     (\<forall>b. rw_body (snd res) = [Bytes b] \<longrightarrow> resp_status (snd res) = 200 \<longrightarrow>
        (\<exists>a \<in> set (db_attachments d). ar_content a = b \<and> owns_email i d (ar_email_id a)))"

definition clean_writer :: "response_writer \<Rightarrow> bool" where
  "clean_writer w \<longleftrightarrow> rw_sent w = None \<and> rw_body w = []"

lemma others_kept_same: "same_tables d d' \<Longrightarrow> others_kept i d d'"
  by (simp add: others_kept_def same_tables_iff)

lemma isolated_Error:
  "clean_writer w \<Longrightarrow> others_kept i d d' \<Longrightarrow> code \<noteq> 200 \<Longrightarrow> isolated i d (d', http_Error msg code w)"
  by (simp add: isolated_def clean_writer_def http_Error_def header_Set_def header_Del_def WriteHeader_def Write_def
      resp_status_def shows_only_def Let_def)

lemma isolated_NotFound: "clean_writer w \<Longrightarrow> others_kept i d d' \<Longrightarrow> isolated i d (d', NotFound w)"
  by (simp add: NotFound_def isolated_Error)

lemma isolated_Redirect: "clean_writer w \<Longrightarrow> others_kept i d d' \<Longrightarrow> isolated i d (d', Redirect r url code w)"
  by (simp add: isolated_def clean_writer_def Redirect_def header_Set_def WriteHeader_def Write_def shows_only_def Let_def)

lemma isolated_page:
  "clean_writer w \<Longrightarrow> others_kept i d d' \<Longrightarrow> page_shows_only i p \<Longrightarrow> isolated i d (render_page render p d' w)"
  by (auto simp: isolated_def clean_writer_def render_page_def ExecuteTemplate_def http_Error_def header_Set_def header_Del_def
      WriteHeader_def Write_def resp_status_def shows_only_def Let_def split: render_result.split)

lemma clean_header_Set: "clean_writer w \<Longrightarrow> clean_writer (header_Set k v w)"
  by (simp add: clean_writer_def header_Set_def)

lemma isolated_missing: "clean_writer w \<Longrightarrow> isolated i d (d, missing_inbox w)"
  by (simp add: missing_inbox_def isolated_Error others_kept_same)

lemma pathID_None: "clean_writer w \<Longrightarrow> pathID name r w = (None, w1) \<Longrightarrow> others_kept i d d' \<Longrightarrow> isolated i d (d', w1)"
  by (auto simp: pathID_def isolated_Error split: option.splits if_splits)

lemma pathID_Some: "pathID name r w = (Some n, w1) \<Longrightarrow> w1 = w"
  by (auto simp: pathID_def split: option.splits if_splits)

text \<open>What the reads return.\<close>

lemma GetEmailsByInboxID_Inr:
  assumes "GetEmailsByInboxID i lim offset d = (Inr es, d')"
  shows "same_tables d d' \<and> (\<forall>e \<in> set es. Email_InboxID e = i \<and> owns_email i d (Email_ID e))"
proof -
  have "same_tables d d'" using GetEmailsByInboxID_same [of d i lim offset] assms by simp
  moreover obtain n m where "es = map scanEmailRow (take n (drop m
      (sort_key (\<lambda>r. (- er_received_at r, - er_id r)) (filter (\<lambda>r. er_inbox_id r = i) (db_emails d)))))"
    using assms by (auto simp: GetEmailsByInboxID_def Let_def split: prod.splits sum.splits dest!: query_Inr)
  ultimately show ?thesis by (auto simp: scanEmailRow_def owns_email_def dest!: in_set_takeD in_set_dropD)
qed

lemma GetEmailByID_Inr:
  assumes "GetEmailByID i e d = (Inr email, d')"
  shows "same_tables d d' \<and> Email_InboxID email = i \<and> Email_ID email = e \<and> owns_email i d e"
proof -
  have "same_tables d d'" using reads_same(3) [of d i e] assms by simp
  moreover have "\<exists>r \<in> set (db_emails d). er_inbox_id r = i \<and> er_id r = e \<and> email = scanEmailRow r"
    using assms by (auto simp: GetEmailByID_def scan_one_def split: prod.splits sum.splits dest!: query_row_Inr)
  ultimately show ?thesis by (auto simp: scanEmailRow_def owns_email_def)
qed

lemma GetAttachmentsByEmailID_Inr:
  assumes "GetAttachmentsByEmailID e d = (Inr atts, d')"
  shows "\<forall>a \<in> set atts. Attachment_EmailID a = e"
  using assms by (auto simp: GetAttachmentsByEmailID_def scanAttachmentRow_def split: prod.splits sum.splits dest!: query_Inr)

lemma GetAttachment_Inr:
  assumes "GetAttachment a d = (Inr att, d')"
  shows "\<exists>row \<in> set (db_attachments d). att = scanAttachmentRow row"
  using assms by (auto simp: GetAttachment_def scan_one_def split: prod.splits sum.splits dest!: query_row_Inr)

text \<open>What the writes change.\<close>

lemma MarkEmailAsRead_cases:
  "\<exists>fs. snd (MarkEmailAsRead e d) = d\<lparr>db_faults := fs\<rparr>
     \<or> snd (MarkEmailAsRead e d) = d\<lparr>db_faults := fs,
          db_emails := update_rows (\<lambda>r. er_id r = e) (\<lambda>r. r\<lparr>er_is_read := 1\<rparr>) (db_emails d)\<rparr>"
  unfolding MarkEmailAsRead_def snd_update_required exec_count_def
  by (rule run_stmt_cases [of "\<lambda>d. (Inr (count_rows (\<lambda>r. er_id r = e) (db_emails d)),
        d\<lparr>db_emails := update_rows (\<lambda>r. er_id r = e) (\<lambda>r. r\<lparr>er_is_read := 1\<rparr>) (db_emails d)\<rparr>)" d]) auto

lemma DeleteEmail_cases:
  "\<exists>fs. snd (DeleteEmail i e d) = d\<lparr>db_faults := fs\<rparr>
     \<or> snd (DeleteEmail i e d) = delete_emails (\<lambda>r. er_inbox_id r = i \<and> er_id r = e) (d\<lparr>db_faults := fs\<rparr>)"
  unfolding DeleteEmail_def snd_update_required exec_count_def
  by (rule run_stmt_cases [of "\<lambda>d. (Inr (count_rows (\<lambda>r. er_inbox_id r = i \<and> er_id r = e) (db_emails d)),
        delete_emails (\<lambda>r. er_inbox_id r = i \<and> er_id r = e) d)" d]) auto

lemma filter_update_rows:
  "(\<And>r. r \<in> set rows \<Longrightarrow> P r \<Longrightarrow> \<not> Q r \<and> \<not> Q (f r)) \<Longrightarrow> filter Q (update_rows P f rows) = filter Q rows"
  by (induction rows) (auto simp: update_rows_def)

lemma others_kept_mark:
  assumes "distinct (map er_id (db_emails d))" "owns_email i d e" "same_tables d d1"
  shows "others_kept i d (snd (MarkEmailAsRead e d1))"
proof -
  have own: "er_inbox_id r = i" if "r \<in> set (db_emails d)" "er_id r = e" for r
    using assms(1,2) that by (auto simp: owns_email_def distinct_map inj_on_def)
  have "filter (\<lambda>r. er_inbox_id r \<noteq> i) (update_rows (\<lambda>r. er_id r = e) (\<lambda>r. r\<lparr>er_is_read := 1\<rparr>) (db_emails d))
      = filter (\<lambda>r. er_inbox_id r \<noteq> i) (db_emails d)"
    by (rule filter_update_rows) (simp add: own)
  then show ?thesis
    using MarkEmailAsRead_cases [of e d1] assms(3) by (auto simp: others_kept_def same_tables_iff)
qed

lemma others_kept_delete: "others_kept i d (snd (DeleteEmail i e d))"
proof -
  have "filter (\<lambda>r. er_inbox_id r \<noteq> i \<and> \<not> (er_inbox_id r = i \<and> er_id r = e)) rows = filter (\<lambda>r. er_inbox_id r \<noteq> i) rows" for rows
    by (induction rows) auto
  moreover have "filter (\<lambda>a. \<not> owns_email i d (ar_email_id a) \<and> ar_email_id a \<notin> er_id ` {r \<in> set (db_emails d). er_inbox_id r = i \<and> er_id r = e}) atts
      = filter (\<lambda>a. \<not> owns_email i d (ar_email_id a)) atts" for atts
    by (rule filter_cong) (auto simp: owns_email_def)
  ultimately show ?thesis
    using DeleteEmail_cases [of i e d]
    by (auto simp: others_kept_def delete_emails_def Let_def conj_commute)
qed

lemma others_kept_later: "others_kept i d d1 \<Longrightarrow> same_tables d1 d2 \<Longrightarrow> others_kept i d d2"
  by (simp add: others_kept_def same_tables_iff)

lemma isolated_tables:
  "db_emails d3 = db_emails d \<Longrightarrow> db_attachments d3 = db_attachments d \<Longrightarrow> isolated i d3 res = isolated i d res"
  by (simp add: isolated_def others_kept_def shows_only_def [abs_def] owns_email_def [abs_def])

lemma isolated_finish: "isolated i d (d', finish w) = isolated i d (d', w)"
  by (simp add: isolated_def finish_def WriteHeader_def resp_status_def split: option.split)

section \<open>The handlers\<close>

lemma index_isolated: "clean_writer w \<Longrightarrow> rq_inbox r = Some inbox \<Longrightarrow> isolated (Inbox_ID inbox) d (HandleIndex x r d w)"
proof -
  assume w: "clean_writer w" and r: "rq_inbox r = Some inbox"
  obtain res d1 where g: "GetEmailsByInboxID (Inbox_ID inbox) 50 0 d = (res, d1)" by fastforce
  obtain n d2 where u: "GetUnreadCount (Inbox_ID inbox) d1 = (n, d2)" by fastforce
  have "same_tables d d1" using GetEmailsByInboxID_same [of d "Inbox_ID inbox" 50 0] g by simp
  moreover have "same_tables d d2" using GetUnreadCount_same [of d1 "Inbox_ID inbox"] u calculation same_tables_trans by fastforce
  ultimately have k: "others_kept (Inbox_ID inbox) d d1" "others_kept (Inbox_ID inbox) d d2" by (simp_all add: others_kept_same)
  have "page_shows_only (Inbox_ID inbox) (indexData cd m es)" if "res = Inr es" for cd m es
    using GetEmailsByInboxID_Inr [OF g [unfolded that]] by (simp add: page_shows_only_def)
  then show ?thesis
    using w r k g u by (simp add: HandleIndex_def GetInboxFromContext_def isolated_Error isolated_page split: sum.split)
qed

lemma api_isolated: "clean_writer w \<Longrightarrow> rq_inbox r = Some inbox \<Longrightarrow> isolated (Inbox_ID inbox) d (HandleAPIEmails r d w)"
proof -
  assume w: "clean_writer w" and r: "rq_inbox r = Some inbox"
  obtain res d1 where g: "GetEmailsByInboxID (Inbox_ID inbox) 50 0 d = (res, d1)" by fastforce
  obtain n d2 where u: "GetUnreadCount (Inbox_ID inbox) d1 = (n, d2)" by fastforce
  have "same_tables d d1" using GetEmailsByInboxID_same [of d "Inbox_ID inbox" 50 0] g by simp
  moreover have "same_tables d d2" using GetUnreadCount_same [of d1 "Inbox_ID inbox"] u calculation same_tables_trans by fastforce
  ultimately have k: "others_kept (Inbox_ID inbox) d d1" "others_kept (Inbox_ID inbox) d d2" by (simp_all add: others_kept_same)
  have "isolated (Inbox_ID inbox) d (d2, Write (JsonEmails \<lparr>aer_Address = ad, aer_ExpiresAt = t, aer_UnreadCount = m,
      aer_Emails = map api_email es\<rparr>) (header_Set k v w))" if "res = Inr es" for ad t m es k v
    using GetEmailsByInboxID_Inr [OF g [unfolded that]] w k(2)
    by (simp add: isolated_def clean_writer_def Write_def WriteHeader_def header_Set_def shows_only_def api_email_def Let_def)
  then show ?thesis
    using w r k g u by (simp add: HandleAPIEmails_def GetInboxFromContext_def isolated_Error split: sum.split)
qed

lemma delete_isolated: "clean_writer w \<Longrightarrow> rq_inbox r = Some inbox \<Longrightarrow> isolated (Inbox_ID inbox) d (HandleDeleteEmail r d w)"
proof -
  assume w: "clean_writer w" and r: "rq_inbox r = Some inbox"
  let ?i = "Inbox_ID inbox"
  have none: "isolated ?i d (d, w1)" if "pathID n r w = (None, w1)" for n w1
    using pathID_None [OF w that] by (simp add: others_kept_same)
  have "others_kept ?i d d1" if "DeleteEmail ?i e d = (res, d1)" for e res d1
    using others_kept_delete [of ?i d e] that by simp
  then show ?thesis
    using w r none
    by (auto simp: HandleDeleteEmail_def GetInboxFromContext_def isolated_Error isolated_NotFound isolated_Redirect
        dest!: pathID_Some split: option.split prod.split sum.split)
qed

lemma isolated_bytes:
  assumes "clean_writer w" "others_kept i d d'" "\<exists>a \<in> set (db_attachments d). ar_content a = b \<and> owns_email i d (ar_email_id a)"
  shows "isolated i d (d', Write (Bytes b) w)"
  using assms by (auto simp: isolated_def clean_writer_def Write_def WriteHeader_def shows_only_def Let_def)

lemma attachment_isolated: "clean_writer w \<Longrightarrow> rq_inbox r = Some inbox \<Longrightarrow> isolated (Inbox_ID inbox) d (HandleAttachment x r d w)"
proof -
  assume w: "clean_writer w" and r: "rq_inbox r = Some inbox"
  let ?i = "Inbox_ID inbox"
  have none: "isolated ?i d (d, w1)" if "pathID n r w = (None, w1)" for n w1
    using pathID_None [OF w that] by (simp add: others_kept_same)
  have served: "isolated ?i d (case GetEmailByID ?i e d of
        (Inl err, d1) \<Rightarrow> (d1, if err_is err ErrNotFound then NotFound w else http_Error m1 500 w)
      | (Inr email, d1) \<Rightarrow> (case GetAttachment a d1 of
          (Inl err, d2) \<Rightarrow> (d2, if err_is err ErrNotFound then NotFound w else http_Error m2 500 w)
        | (Inr att, d2) \<Rightarrow> if Attachment_EmailID att \<noteq> Email_ID email then (d2, NotFound w)
            else (d2, Write (Bytes (Attachment_Content att)) (header_Set h1 (f1 att) (header_Set h2 (f2 att) (header_Set h3 (f3 att) w))))))"
    for e a m1 m2 h1 h2 h3 f1 f2 f3
  proof -
    obtain g d1 where g: "GetEmailByID ?i e d = (g, d1)" by fastforce
    obtain h d2 where h: "GetAttachment a d1 = (h, d2)" by fastforce
    have d1: "same_tables d d1" using reads_same(3) [of d ?i e] g by simp
    have d2: "same_tables d d2" using reads_same(4) [of d1 a] h d1 same_tables_trans by fastforce
    note k = others_kept_same [OF d1, of ?i] others_kept_same [OF d2, of ?i]
    have "\<exists>row \<in> set (db_attachments d). ar_content row = Attachment_Content att \<and> owns_email ?i d (ar_email_id row)"
      if "g = Inr email" "h = Inr att" "Attachment_EmailID att = Email_ID email" for email att
      using GetEmailByID_Inr [OF g [unfolded that(1)]] GetAttachment_Inr [OF h [unfolded that(2)]] that(3) d1
      by (auto simp: scanAttachmentRow_def same_tables_iff)
    with w k show ?thesis
      by (simp add: g h isolated_Error isolated_NotFound isolated_bytes clean_header_Set split: sum.split)
  qed
  obtain p1 w1 where p1: "pathID ''id'' r w = (p1, w1)" by fastforce
  obtain p2 w2 where p2: "pathID ''aid'' r w1 = (p2, w2)" by fastforce
  show ?thesis
    using none p1 p2 served pathID_Some [of "''id''" r w _ w1] pathID_Some [of "''aid''" r w1 _ w2]
    by (cases p1; cases p2) (simp_all add: HandleAttachment_def GetInboxFromContext_def r)
qed

lemma show_isolated:
  assumes "clean_writer w" "others_kept (Inbox_ID inbox) d d1" "Email_InboxID email = Inbox_ID inbox"
  shows "isolated (Inbox_ID inbox) d (show_email x inbox email d1 w)"
proof -
  obtain res d2 where g: "GetAttachmentsByEmailID (Email_ID email) d1 = (res, d2)" by fastforce
  have k: "others_kept (Inbox_ID inbox) d d2"
    using GetAttachmentsByEmailID_same [of d1 "Email_ID email"] g others_kept_later [OF assms(2)] by simp
  have "page_shows_only (Inbox_ID inbox) (emailData cd email atts h t)" if "res = Inr atts" for cd atts h t
    using GetAttachmentsByEmailID_Inr [OF g [unfolded that]] assms(3) by (simp add: page_shows_only_def)
  then show ?thesis
    using assms(1) k by (simp add: show_email_def g case_prod_beta isolated_Error isolated_page split: sum.split)
qed

lemma view_isolated:
  assumes "clean_writer w" "rq_inbox r = Some inbox" "distinct (map er_id (db_emails d))"
  shows "isolated (Inbox_ID inbox) d (HandleViewEmail x r d w)"
proof -
  let ?i = "Inbox_ID inbox"
  have none: "isolated ?i d (d, w1)" if "pathID n r w = (None, w1)" for n w1
    using pathID_None [OF assms(1) that] by (simp add: others_kept_same)
  have failed: "isolated ?i d (d1, if c then NotFound w else http_Error msg 500 w)" if "GetEmailByID ?i e d = (Inl err, d1)"
    for e err d1 c msg
    using reads_same(3) [of d ?i e] that assms(1) by (simp add: isolated_Error isolated_NotFound others_kept_same)
  have unmarked: "isolated ?i d (show_email x inbox email d1 w)" if "GetEmailByID ?i e d = (Inr email, d1)" for e email d1
    using GetEmailByID_Inr [OF that] show_isolated [OF assms(1)] by (simp add: others_kept_same)
  have marked: "isolated ?i d (d2, http_Error msg 500 w)" "isolated ?i d (show_email x inbox (email\<lparr>Email_IsRead := True\<rparr>) d2 w)"
    if "GetEmailByID ?i e d = (Inr email, d1)" "MarkEmailAsRead (Email_ID email) d1 = (res, d2)" for e email d1 res d2 msg
  proof -
    have "others_kept ?i d d2" using GetEmailByID_Inr [OF that(1)] others_kept_mark [OF assms(3), of ?i e d1] that(2) by simp
    then show "isolated ?i d (d2, http_Error msg 500 w)" "isolated ?i d (show_email x inbox (email\<lparr>Email_IsRead := True\<rparr>) d2 w)"
      using GetEmailByID_Inr [OF that(1)] assms(1) show_isolated [OF assms(1), where email = "email\<lparr>Email_IsRead := True\<rparr>"]
      by (simp_all add: isolated_Error)
  qed
  obtain p1 w1 where p1: "pathID ''id'' r w = (p1, w1)" by fastforce
  show ?thesis
  proof (cases p1)
    case None
    with none p1 show ?thesis by (simp add: HandleViewEmail_def GetInboxFromContext_def assms(2))
  next
    case (Some e)
    with p1 have "w1 = w" by (simp add: pathID_Some)
    obtain g d1 where g: "GetEmailByID ?i e d = (g, d1)" by fastforce
    show ?thesis
    proof (cases g)
      case (Inl err)
      with failed [of e err d1] Some p1 g show ?thesis
        by (simp add: HandleViewEmail_def GetInboxFromContext_def assms(2) \<open>w1 = w\<close>)
    next
      case (Inr email)
      obtain res d2 where m: "MarkEmailAsRead (Email_ID email) d1 = (res, d2)" by fastforce
      show ?thesis
        using unmarked [of e email d1] marked [OF g [unfolded Inr] m] Some p1 g Inr m
        by (simp add: HandleViewEmail_def GetInboxFromContext_def assms(2) \<open>w1 = w\<close> split: sum.split)
    qed
  qed
qed

lemma app_handler_isolated:
  assumes "clean_writer w" "rq_inbox r = Some inbox" "distinct (map er_id (db_emails d))"
  shows "isolated (Inbox_ID inbox) d (app_handler x ar r d w)"
  using assms
  by (simp add: app_handler_def index_isolated api_isolated delete_isolated attachment_isolated view_isolated isolated_NotFound
      not_allowed_def isolated_Error clean_header_Set others_kept_same split: app_route.split)

text \<open>
  C17. A session opens its own mailbox only: a request for a page under \<open>/app\<close> with a live
  session changes no message and no attachment of another mailbox, what it shows are messages
  of its own mailbox with their own attachments, and a file it serves is the content of an
  attachment of such a message, whatever ids the path names and whichever statements fail.
\<close>
theorem mailbox_area_isolated:
  assumes "find_route r = AppArea ar" "logged_in o1 (dr_now dr) r (site_db st) = Some inbox" "db_wf (site_db st)"
  shows "case serve x o1 dr r st of (st', w) \<Rightarrow> isolated (Inbox_ID inbox) (site_db st) (site_db st', w)"
proof -
  let ?i = "Inbox_ID inbox" and ?d = "site_db st"
  let ?w = "header_Set ''Content-Security-Policy'' contentSecurityPolicy (header_Set ''Referrer-Policy'' ''no-referrer''
      (header_Set ''X-Frame-Options'' ''DENY'' (header_Set ''X-Content-Type-Options'' ''nosniff'' new_writer)))"
  have w: "clean_writer ?w" by (simp add: clean_writer_def header_Set_def new_writer_def)
  have limit: "find_route (r\<lparr>rq_body_limit := n\<rparr>) = find_route r"
    "logged_in o1 now (r\<lparr>rq_body_limit := n\<rparr>) d = logged_in o1 now r d" for n now d
    by (simp_all add: find_route_def logged_in_def Cookie_def Let_def split: route.split)
  have root: "isolated ?i ?d (site_db (fst (root_handler x o1 dr st r' ?w)), snd (root_handler x o1 dr st r' ?w))"
    if "r' = r \<or> (\<exists>n. r' = r\<lparr>rq_body_limit := n\<rparr>)" for r'
  proof -
    have "find_route r' = AppArea ar" "logged_in o1 (dr_now dr) r' ?d = Some inbox" using that assms limit by auto
    moreover from gate_open [OF this(2), of "app_handler x ar" ?w] obtain d3 w1 where
      gate: "MailboxAuthMiddleware o1 (dr_now dr) (app_handler x ar) r' ?d ?w = app_handler x ar (withInbox r' inbox) d3 w1"
      and d3: "db_emails d3 = db_emails ?d" "db_attachments d3 = db_attachments ?d"
      and w1: "rw_sent w1 = rw_sent ?w" "rw_body w1 = rw_body ?w"
      by blast
    have "isolated ?i d3 (app_handler x ar (withInbox r' inbox) d3 w1)"
      using w w1 d3 assms(3)
      by (intro app_handler_isolated) (simp_all add: clean_writer_def withInbox_def db_wf_def ids_wf_def keys_ok_def)
    ultimately show ?thesis
      by (simp add: root_handler_def on_db_def case_prod_beta gate isolated_tables [OF d3])
  qed
  have err: "isolated ?i ?d (?d, http_Error msg code ?w)" if "code \<noteq> 200" for msg code
    using isolated_Error [OF w others_kept_same that] by simp
  show ?thesis
    using root err
    by (auto simp: serve_def wrapHTTP_def securityHeadersMiddleware_def postSecurityMiddleware_def Let_def case_prod_beta
        isolated_finish)
qed

lemma mailbox_area_isolated_witness:
  "others_kept 1 sample_db (site_db (fst (serve sample_ext sample_options sample_draws
     (sample_request ''GET'' ''/app/email/1'' [(''session'', ''s1'')]) sample_site)))"
  using mailbox_area_isolated [of "sample_request ''GET'' ''/app/email/1'' [(''session'', ''s1'')]" "AppView ''1''" sample_options
      sample_draws sample_site "scanInbox (sample_inbox 1 ''ann'' ''t1'' ''h1'')" sample_ext] sample_db_wf sample_logged_in(1)
  by (simp add: sample_routes scanInbox_def case_prod_beta isolated_def)

end
