(* ===== verification/Web_Accounts.thy ===== *)
theory Web_Accounts
  imports Web_Isolation
begin

text \<open>
  Registration, login and logout: which names are accepted, that an address and the password
  shown for it open its mailbox, that nothing else does, and that logging out closes it.
\<close>

section \<open>Names\<close>

definition local_name :: "string \<Rightarrow> bool" where
  "local_name s \<longleftrightarrow> 3 \<le> length s \<and> length s \<le> 64 \<and> (\<forall>c \<in> set s. local_rune (byte c))"

lemma local_rune_ascii: "local_rune n \<Longrightarrow> n < 128 \<and> \<not> is_space n \<and> \<not> (65 \<le> n \<and> n \<le> 90) \<and> n \<noteq> 64"
  by (auto simp: local_rune_def is_space_def)

lemma local_runes_ascii: "list_all local_rune (runes s) \<longleftrightarrow> (\<forall>c \<in> set s. local_rune (byte c))"
proof
  assume a: "list_all local_rune (runes s)"
  then have "list_all (\<lambda>r. r < 128) (runes s)" by (auto simp: list_all_iff dest: local_rune_ascii)
  then have "ascii s" by (rule runes_below_128)
  with a show "\<forall>c \<in> set s. local_rune (byte c)" by (simp add: runes_ascii list_all_iff)
next
  assume a: "\<forall>c \<in> set s. local_rune (byte c)"
  then have "ascii s" using local_rune_ascii by (auto simp: ascii_iff)
  with a show "list_all local_rune (runes s)" by (simp add: runes_ascii list_all_iff)
qed

lemma local_name_plain:
  assumes "local_name s"
  shows "ascii s" "\<not> list_ex is_space (map byte s)" "nocase s = s" "CHR ''@'' \<notin> set s" "s \<noteq> []"
proof -
  have c: "\<forall>c \<in> set s. local_rune (byte c)" using assms by (simp add: local_name_def)
  show "ascii s" using c local_rune_ascii by (auto simp: ascii_iff)
  show "\<not> list_ex is_space (map byte s)" using c local_rune_ascii by (auto simp: list_ex_iff)
  show "nocase s = s" using c local_rune_ascii by (auto simp: nocase_def lower_byte_def intro!: map_idI)
  show "CHR ''@'' \<notin> set s" using c local_rune_ascii by (force simp: byte_def)
  show "s \<noteq> []" using assms by (auto simp: local_name_def)
qed

lemma validateLocalPart_iff:
  "validateLocalPart ul raw = Inr lp \<longleftrightarrow> lp = ToLower ul (TrimSpace raw) \<and> local_name lp"
  using local_runes_ascii [of "ToLower ul (TrimSpace raw)"]
  by (auto simp: validateLocalPart_def Let_def local_name_def localPartMinLen_def localPartMaxLen_def list_all_iff list_ex_iff)

text \<open>
  C30. A registered name is 3 to 64 characters, all of them lower-case ASCII letters (97 to 122) or digits (48 to 57):
  the check accepts exactly the inputs whose trimmed lower-case form is such a name, returns
  that form, and accepts its own results unchanged. A name of 64 characters is accepted, so the
  maximum is the limit of RFC 5321 itself and not well under it, as the comment in the code says.
\<close>
theorem local_part_accepts_plain_names:
  "(validateLocalPart ul raw = Inr lp \<longleftrightarrow> lp = ToLower ul (TrimSpace raw)
      \<and> length lp \<in> {3..64} \<and> set lp \<subseteq> {c. 97 \<le> byte c \<and> byte c \<le> 122 \<or> 48 \<le> byte c \<and> byte c \<le> 57})
    \<and> (case validateLocalPart ul raw of Inl e \<Rightarrow> True | Inr name \<Rightarrow> validateLocalPart ul name = Inr name)"
proof -
  have set: "(\<forall>c \<in> set lp. local_rune (byte c)) \<longleftrightarrow>
      set lp \<subseteq> {c. 97 \<le> byte c \<and> byte c \<le> 122 \<or> 48 \<le> byte c \<and> byte c \<le> 57}"
    by (auto simp: local_rune_def)
  have again: "validateLocalPart ul name = Inr name" if "local_name name" for name
    using local_name_plain [OF that] TrimSpace_no_space_ascii [of name] ToLower_ascii [of name] that
    by (simp add: validateLocalPart_iff)
  have "case validateLocalPart ul raw of Inl e \<Rightarrow> True | Inr name \<Rightarrow> validateLocalPart ul name = Inr name"
  proof (cases "validateLocalPart ul raw")
    case (Inr name)
    then have "local_name name" by (auto simp: validateLocalPart_iff)
    with Inr again show ?thesis by simp
  qed simp
  moreover have "validateLocalPart ul raw = Inr lp \<longleftrightarrow> lp = ToLower ul (TrimSpace raw)
      \<and> length lp \<in> {3..64} \<and> set lp \<subseteq> {c. 97 \<le> byte c \<and> byte c \<le> 122 \<or> 48 \<le> byte c \<and> byte c \<le> 57}"
    unfolding validateLocalPart_iff local_name_def set by simp
  ultimately show ?thesis by blast
qed

section \<open>Login\<close>

text \<open>The inbox that an address and a password name.\<close>

definition credentials_for :: "bcrypt_cmp \<Rightarrow> string \<Rightarrow> string \<Rightarrow> db \<Rightarrow> inbox_row option" where
  "credentials_for cmp address password d =
     find (\<lambda>r. nocase (ir_address r) = nocase address \<and> cmp (ir_password_hash r) password) (db_inboxes d)"

definition has_cookie :: "string \<Rightarrow> string \<Rightarrow> response_writer \<Rightarrow> bool" where
  "has_cookie name v w \<longleftrightarrow> (\<exists>c \<in> set (rh_cookies (resp_head w)). ck_Name c = name \<and> ck_Value c = v)"

text \<open>A redirect that hands out a cookie.\<close>

lemma Redirect_cookie:
  assumes "rw_sent w = None"
  shows "resp_status (Redirect r url 303 (SetCookie c w)) = 303"
    and "rh_headers (resp_head (Redirect r url 303 (SetCookie c w))) ''Location'' = Some url"
    and "has_cookie (ck_Name c) (ck_Value c) (Redirect r url 303 (SetCookie c w))"
  using assms
  by (simp_all add: Redirect_def Let_def SetCookie_def header_Set_def WriteHeader_def Write_def resp_status_def resp_head_def has_cookie_def)

lemma logged_in_ok:
  assumes "sessions_ok d" "session_of token d = Some s" "i \<in> set (db_inboxes d)" "ir_id i = sr_inbox_id s" "token \<noteq> []"
    and "Cookie (sessionCookieName (opt_CookieSecure o1)) r = Some token"
  shows "logged_in o1 t r d = (if toUnix t < sr_expires_at s then Some (scanInbox i) else None)"
proof -
  have "i' = i" if "i' \<in> set (db_inboxes d)" "ir_id i' = sr_inbox_id s" for i'
    using assms(1,3,4) that db_wf_inboxes(1) [of d] by (auto simp: sessions_ok_def distinct_map inj_on_def)
  then show ?thesis
    using GetSession_ok [OF assms(1), where token = token and now = t] assms(2,5,6) by (auto simp: logged_in_def toUnix_less)
qed

lemma logged_in_gone:
  assumes "sessions_ok d" "session_of token d = None" "Cookie (sessionCookieName (opt_CookieSecure o1)) r = Some token"
  shows "logged_in o1 t r d = None"
  using GetSession_ok [OF assms(1), where token = token and now = t] assms(2,3) by (simp add: logged_in_def)

lemma startSession_ok:
  assumes "sessions_ok d" "session_of (dr_uuid dr) d = None" "i \<in> ir_id ` set (db_inboxes d)"
  shows "startSession ul o1 dr i d w = (Inr (), d\<lparr>db_sessions := db_sessions d @ [\<lparr>sr_token = dr_uuid dr, sr_inbox_id = i,
      sr_created_at = toUnix (dr_now dr), sr_expires_at = toUnix (dr_now dr + opt_SessionTTL o1)\<rparr>]\<rparr>,
      setSessionCookie o1 (dr_uuid dr) w)"
  using CreateSession_ok [of d "\<lparr>Session_Token = dr_uuid dr, Session_InboxID = i, Session_CreatedAt = zero_time,
      Session_ExpiresAt = dr_now dr + opt_SessionTTL o1\<rparr>" ul "dr_now dr"] assms
  by (simp add: startSession_def Let_def NewSessionToken_def)

lemma session_of_started:
  fixes n e :: int
  assumes "sessions_ok d" "session_of token d = None" "i \<in> ir_id ` set (db_inboxes d)"
  defines "row \<equiv> \<lparr>sr_token = token, sr_inbox_id = i, sr_created_at = n, sr_expires_at = e\<rparr>"
  shows "sessions_ok (d\<lparr>db_sessions := db_sessions d @ [row]\<rparr>)" "session_of token (d\<lparr>db_sessions := db_sessions d @ [row]\<rparr>) = Some row"
  using session_of_created [of d "\<lparr>Session_Token = token, Session_InboxID = i, Session_CreatedAt = 0, Session_ExpiresAt = fromUnix e\<rparr>"
      "\<lambda>n. n" "fromUnix n"]
    CreateSession_ok [of d "\<lparr>Session_Token = token, Session_InboxID = i, Session_CreatedAt = 0, Session_ExpiresAt = fromUnix e\<rparr>"
      "\<lambda>n. n" "fromUnix n"] assms
  by simp_all

text \<open>What a successful login leaves: the redirect, the cookie, and the open mailbox.\<close>

definition logged_into :: "Options \<Rightarrow> draws \<Rightarrow> inbox_row \<Rightarrow> db \<times> response_writer \<Rightarrow> bool" where
  "logged_into o1 dr i res \<longleftrightarrow>
     resp_status (snd res) = 303 \<and> rh_headers (resp_head (snd res)) ''Location'' = Some ''/app'' \<and>
     has_cookie (sessionCookieName (opt_CookieSecure o1)) (dr_uuid dr) (snd res) \<and>
     (\<forall>r' t. Cookie (sessionCookieName (opt_CookieSecure o1)) r' = Some (dr_uuid dr) \<longrightarrow>
        logged_in o1 t r' (fst res) = (if toUnix t < toUnix (dr_now dr + opt_SessionTTL o1) then Some (scanInbox i) else None))"

lemma HandleLogin_ok:
  assumes "db_wf d" "db_faults d = []" "ParseForm (x_parse_form x) r = Inr form"
    and "session_of (dr_uuid dr) d = None" "dr_uuid dr \<noteq> []" "rw_sent w = None"
    and "i \<in> set (db_inboxes d)" "nocase (ir_address i) = nocase (ToLower (x_ul x) (TrimSpace (PostFormValue ''address'' form)))"
    and "x_cmp x (ir_password_hash i) (PostFormValue ''password'' form)"
  shows "logged_into o1 dr i (HandleLogin x o1 dr r d w)"
proof -
  let ?row = "\<lparr>sr_token = dr_uuid dr, sr_inbox_id = ir_id i, sr_created_at = toUnix (dr_now dr),
      sr_expires_at = toUnix (dr_now dr + opt_SessionTTL o1)\<rparr>"
  let ?d' = "d\<lparr>db_sessions := db_sessions d @ [?row]\<rparr>"
  have ok: "sessions_ok d" using assms(1,2) by (simp add: sessions_ok_def)
  have own: "ir_id i \<in> ir_id ` set (db_inboxes d)" using assms(7) by simp
  have get: "GetInboxByAddress (ToLower (x_ul x) (TrimSpace (PostFormValue ''address'' form))) d = (Inr (scanInbox i), d)"
    using assms(8) by (intro GetInboxByAddress_found [OF assms(1,2,7)])
  have "Inbox_ID (scanInbox i) = ir_id i" "Inbox_PasswordHash (scanInbox i) = ir_password_hash i" by (simp_all add: scanInbox_def)
  then have login: "HandleLogin x o1 dr r d w = (?d', Redirect r ''/app'' 303 (setSessionCookie o1 (dr_uuid dr) w))"
    using assms(3,9) startSession_ok [OF ok assms(4) own, of "x_ul x" o1 w]
    by (simp add: HandleLogin_def get VerifyPassword_def)
  note st = session_of_started [OF ok assms(4) own, of "toUnix (dr_now dr)" "toUnix (dr_now dr + opt_SessionTTL o1)"]
  have "logged_in o1 t r' ?d' = (if toUnix t < toUnix (dr_now dr + opt_SessionTTL o1) then Some (scanInbox i) else None)"
    if "Cookie (sessionCookieName (opt_CookieSecure o1)) r' = Some (dr_uuid dr)" for r' t
    using logged_in_ok [OF st, of i o1 r' t] assms(5,7) that by simp
  then show ?thesis
    using Redirect_cookie [OF assms(6), where r = r and url = "''/app''"]
    by (simp add: login logged_into_def setSessionCookie_def)
       (metis (no_types, lifting) cookie.select_convs(1) cookie.select_convs(2))
qed

lemma HandleLogin_refused:
  assumes "db_wf d" "db_faults d = []" "ParseForm (x_parse_form x) r = Inr form"
    and "credentials_for (x_cmp x) (ToLower (x_ul x) (TrimSpace (PostFormValue ''address'' form))) (PostFormValue ''password'' form) d = None"
  shows "HandleLogin x o1 dr r d w = (d, renderLogin (x_render x) ''Invalid email address or password.'' 401 w)"
proof -
  let ?a = "ToLower (x_ul x) (TrimSpace (PostFormValue ''address'' form))"
  have none: "\<not> x_cmp x (ir_password_hash i) (PostFormValue ''password'' form)"
    if "i \<in> set (db_inboxes d)" "nocase (ir_address i) = nocase ?a" for i
    using assms(4) that by (auto simp: credentials_for_def find_None_iff)
  show ?thesis
  proof (cases "filter (\<lambda>r. nocase (ir_address r) = nocase ?a) (db_inboxes d)")
    case Nil
    then show ?thesis using assms(2,3) by (simp add: HandleLogin_def GetInboxByAddress_ok)
  next
    case (Cons i rest)
    then have "i \<in> set (db_inboxes d)" "nocase (ir_address i) = nocase ?a"
      by (auto dest: filter_eq_ConsD)
    with Cons none show ?thesis
      using assms(2,3) by (simp add: HandleLogin_def GetInboxByAddress_ok VerifyPassword_def scanInbox_def)
  qed
qed

text \<open>A site whose form decoder always reads the same form.\<close>

definition form_ext :: ext where
  "form_ext = sample_ext\<lparr>x_parse_form := (\<lambda>_. Inr [(''local_part'', ''cat''), (''domain'', ''x.test''),
     (''address'', ''cat@x.test''), (''password'', replicate 32 (CHR ''a''))])\<rparr>"

lemma form_ext_fields [simp]:
  "x_ul form_ext = (\<lambda>n. n)" "x_gen form_ext = toy_gen" "x_cmp form_ext = toy_cmp" "x_render form_ext pg = Rendered"
  "x_parse_form form_ext s = Inr [(''local_part'', ''cat''), (''domain'', ''x.test''), (''address'', ''cat@x.test''),
     (''password'', replicate 32 (CHR ''a''))]"
  by (simp_all add: form_ext_def)

lemma sample_words:
  "TrimSpace ''cat'' = ''cat''" "ToLower ul ''cat'' = ''cat''" "TrimSpace ''x.test'' = ''x.test''" "ToLower ul ''x.test'' = ''x.test''"
  "TrimSpace ''cat@x.test'' = ''cat@x.test''" "ToLower ul ''cat@x.test'' = ''cat@x.test''" "nocase ''cat@x.test'' = ''cat@x.test''"
proof -
  have n: "nocase ''cat'' = ''cat''" "nocase ''cat@x.test'' = ''cat@x.test''" by code_simp+
  have a: "ascii ''cat''" "ascii ''x.test''" "ascii ''cat@x.test''" by (simp_all add: byte_def)
  show "TrimSpace ''cat'' = ''cat''" "TrimSpace ''x.test'' = ''x.test''" "TrimSpace ''cat@x.test'' = ''cat@x.test''"
    by (rule TrimSpace_no_space_ascii; simp add: byte_def is_space_def)+
  show "ToLower ul ''cat'' = ''cat''" "ToLower ul ''x.test'' = ''x.test''" "ToLower ul ''cat@x.test'' = ''cat@x.test''"
    "nocase ''cat@x.test'' = ''cat@x.test''"
    using a n sample_names by (simp_all add: ToLower_ascii)
qed

text \<open>
  C20. A login answers on the pair of address and password alone: with the address of an inbox,
  in any case and with surrounding white space, and a password its hash matches, the client is
  redirected to the mailbox with a cookie of a fresh session, which opens that inbox until the
  lifetime is over; otherwise nothing changes and the answer is one and the same page with
  status 401, whether or not the address exists.
\<close>
theorem login_by_address_and_password:
  assumes "db_wf d" "db_faults d = []" "ParseForm (x_parse_form x) r = Inr form"
    and "session_of (dr_uuid dr) d = None" "dr_uuid dr \<noteq> []" "rw_sent w = None"
  shows "case credentials_for (x_cmp x) (ToLower (x_ul x) (TrimSpace (PostFormValue ''address'' form)))
           (PostFormValue ''password'' form) d of
     None \<Rightarrow> HandleLogin x o1 dr r d w = (d, renderLogin (x_render x) ''Invalid email address or password.'' 401 w)
   | Some i \<Rightarrow> logged_into o1 dr i (HandleLogin x o1 dr r d w)"
proof (cases "credentials_for (x_cmp x) (ToLower (x_ul x) (TrimSpace (PostFormValue ''address'' form))) (PostFormValue ''password'' form) d")
  case None
  with HandleLogin_refused [OF assms(1-3) None] show ?thesis by simp
next
  case (Some i)
  then have "i \<in> set (db_inboxes d)" "nocase (ir_address i) = nocase (ToLower (x_ul x) (TrimSpace (PostFormValue ''address'' form)))"
    "x_cmp x (ir_password_hash i) (PostFormValue ''password'' form)"
    by (auto simp: credentials_for_def find_Some_iff)
  with Some HandleLogin_ok [OF assms] show ?thesis by simp
qed

lemma login_by_address_and_password_witness:
  "HandleLogin form_ext sample_options sample_draws (sample_request ''POST'' ''/login'' []) sample_db new_writer
     = (sample_db, renderLogin (x_render form_ext) ''Invalid email address or password.'' 401 new_writer)"
  using login_by_address_and_password [OF sample_db_wf, of form_ext "sample_request ''POST'' ''/login'' []" _ sample_draws new_writer sample_options]
  by (simp add: ParseForm_def session_of_def new_writer_def PostFormValue_def first_value_def sample_words sample_names credentials_for_def)

section \<open>Logout\<close>

lemma session_join_drop:
  "tok \<noteq> token \<Longrightarrow> session_join now tok (d\<lparr>db_sessions := filter (\<lambda>r. sr_token r \<noteq> token) (db_sessions d)\<rparr>) = session_join now tok d"
proof -
  assume ne: "tok \<noteq> token"
  let ?f = "\<lambda>s. if toUnix now < sr_expires_at s then map (Pair s) (filter (\<lambda>x. ir_id x = sr_inbox_id s) (db_inboxes d)) else []"
  have "concat (map (\<lambda>s. if sr_token s = tok then ?f s else []) (filter (\<lambda>r. sr_token r \<noteq> token) rows))
      = concat (map (\<lambda>s. if sr_token s = tok then ?f s else []) rows)" for rows
    using ne by (induction rows) auto
  then show ?thesis by (simp add: session_join_def join_inner)
qed

lemma GetSession_dropped:
  "db_faults d = [] \<Longrightarrow> tok \<noteq> token \<Longrightarrow> fst (GetSession t tok (snd (DeleteSession token d))) = fst (GetSession t tok d)"
  by (simp add: touch_drop_db GetSession_def scan_one_def stmt_ok session_join_drop split: list.split)

text \<open>
  C21. Logging out ends the session of the request's cookie, for good and for every browser that
  holds it, clears the cookie, and ends no other session; messages, inboxes and domains stay.
\<close>
theorem logout_ends_the_session:
  assumes "db_wf d" "db_faults d = []" "rw_sent w = None"
    and "Cookie (sessionCookieName (opt_CookieSecure o1)) r = Some token" "token \<noteq> []"
  shows "case HandleLogout o1 r d w of (d', w') \<Rightarrow>
     resp_status w' = 303 \<and> has_cookie (sessionCookieName (opt_CookieSecure o1)) [] w'
     \<and> db_inboxes d' = db_inboxes d \<and> db_emails d' = db_emails d \<and> db_domains d' = db_domains d
     \<and> (\<forall>r' t. Cookie (sessionCookieName (opt_CookieSecure o1)) r' = Some token \<longrightarrow> logged_in o1 t r' d' = None)
     \<and> (\<forall>r' t. Cookie (sessionCookieName (opt_CookieSecure o1)) r' \<noteq> Some token \<longrightarrow> logged_in o1 t r' d' = logged_in o1 t r' d)"
proof -
  let ?d' = "snd (DeleteSession token d)"
  have ok: "sessions_ok d" using assms(1,2) by (simp add: sessions_ok_def)
  have "\<not> session_live t token ?d'" for t by (rule db_sessions.revoked_dead [OF ok])
  then have dead: "logged_in o1 t r' ?d' = None" if "Cookie (sessionCookieName (opt_CookieSecure o1)) r' = Some token" for r' t
    using that by (simp add: logged_in_def session_live_def isl_def split: sum.split) (metis sum.distinct(1))
  have other: "logged_in o1 t r' ?d' = logged_in o1 t r' d" if "Cookie (sessionCookieName (opt_CookieSecure o1)) r' \<noteq> Some token" for r' t
    using that GetSession_dropped [OF assms(2)] by (auto simp: logged_in_def split: option.split)
  have "HandleLogout o1 r d w = (?d', Redirect r ''/'' 303 (clearSessionCookie o1 w))"
    using assms(4,5) by (simp add: HandleLogout_def)
  moreover have "db_inboxes ?d' = db_inboxes d" "db_emails ?d' = db_emails d" "db_domains ?d' = db_domains d"
    using touch_drop_db(2) [OF assms(2)] by simp_all
  ultimately show ?thesis
    using dead other Redirect_cookie [OF assms(3), where r = r and url = "''/''" and c = "\<lparr>ck_Name = sessionCookieName (opt_CookieSecure o1),
        ck_Value = [], ck_Path = ''/'', ck_HttpOnly = True, ck_SameSiteLax = True, ck_Secure = opt_CookieSecure o1, ck_MaxAge = - 1\<rparr>"]
    by (simp add: clearSessionCookie_def)
qed

lemma logout_ends_the_session_witness:
  "logged_in sample_options (400 * time_Second) (sample_request ''GET'' ''/app'' [(''session'', ''s1'')])
     (fst (HandleLogout sample_options (sample_request ''POST'' ''/logout'' [(''session'', ''s1'')]) sample_db new_writer)) = None"
  using logout_ends_the_session [OF sample_db_wf, of new_writer sample_options "sample_request ''POST'' ''/logout'' [(''session'', ''s1'')]" "''s1''"]
  by (simp add: case_prod_beta sessionCookieName_def Cookie_def new_writer_def)

section \<open>Registration\<close>

definition plain :: "string \<Rightarrow> bool" where
  "plain s \<longleftrightarrow> ascii s \<and> \<not> list_ex is_space (map byte s)"

lemma plain_nocase: "plain (nocase s) = plain s"
proof -
  have "is_space (byte (lower_byte c)) = is_space (byte c)" for c
    by (auto simp: byte_lower_byte is_space_def)
  then show ?thesis by (simp add: plain_def nocase_def list_ex_iff) (simp add: nocase_def [symmetric])
qed

lemma plain_append: "plain (s @ t) \<longleftrightarrow> plain s \<and> plain t"
  by (auto simp: plain_def)

lemma plain_trim: "plain s \<Longrightarrow> TrimSpace s = s"
  by (simp add: plain_def TrimSpace_no_space_ascii)

lemma TrimSpace_nocase:
  assumes "ascii s" "TrimSpace s = s"
  shows "TrimSpace (nocase s) = nocase s"
proof (cases "s = []")
  case False
  from assms(2) False have e: "\<not> is_space (fst (decode_rune s))" "\<not> is_space (fst (decode_last_rune s))"
    using TrimSpace_ends [of s] by auto
  obtain c t where c: "s = c # t" using False by (cases s) auto
  obtain u b where b: "s = u @ [b]" using False by (cases s rule: rev_cases) auto
  have "is_space (byte (lower_byte k)) = is_space (byte k)" for k
    by (auto simp: byte_lower_byte is_space_def)
  moreover have "byte (lower_byte k) < 128 \<longleftrightarrow> byte k < 128" for k
    by (auto simp: byte_lower_byte)
  moreover have "\<not> is_space (byte c)" "byte c < 128" using e(1) assms(1) c by (simp_all add: decode_rune_ascii)
  moreover have "\<not> is_space (byte b)" "byte b < 128" using e(2) assms(1) b by (simp_all add: decode_last_rune_ascii)
  ultimately have "\<not> is_space (fst (decode_rune (nocase s)))" "\<not> is_space (fst (decode_last_rune (nocase s)))"
    by (simp add: c nocase_def decode_rune_ascii, simp add: b nocase_def decode_last_rune_ascii)
  then show ?thesis by (rule TrimSpace_id)
qed (simp add: nocase_def)

text \<open>The domain of a new address: the one asked for if it is enabled, else the first enabled
  one, else the configured one.\<close>

lemma resolveCreateDomain_Inr:
  assumes "resolveCreateDomain ul o1 host d = (Inr dm, d1)"
  shows "same_tables d d1"
    and "(\<exists>r \<in> set (db_domains d). dr_enabled r = 1 \<and> nocase (dr_name r) = nocase (TrimSpace dm)) \<and> dm = ToLower ul (TrimSpace host)
      \<or> (\<exists>r \<in> set (db_domains d). dr_enabled r = 1 \<and> dm = dr_name r) \<or> dm = opt_DefaultDomain o1"
proof -
  have list: "same_tables d d2 \<and> ((\<exists>r \<in> set (db_domains d). dr_enabled r = 1 \<and> dm = dr_name r) \<or> dm = opt_DefaultDomain o1)"
    if default: "defaultDomain o1 d0 = (Inr dm, d2)" and d0: "same_tables d d0" for d0 d2
  proof -
    obtain ds where ds: "ListDomains True d0 = (Inr ds, d2)" "dm = (case ds of [] \<Rightarrow> opt_DefaultDomain o1 | x # _ \<Rightarrow> Domain_Name x)"
      using default by (auto simp: defaultDomain_def split: prod.splits sum.splits)
    then have "same_tables d0 d2" using ListDomains_same [of d0 True] by simp
    then have "same_tables d d2" using d0 same_tables_trans by blast
    moreover have "(\<exists>r \<in> set (db_domains d0). dr_enabled r = 1 \<and> dm = dr_name r) \<or> dm = opt_DefaultDomain o1"
      using ListDomains_Inr [OF ds(1)] ds(2) by (auto simp: scanDomain_def split: list.splits)
    ultimately show ?thesis using d0 by (simp add: same_tablesD)
  qed
  have enabled: "same_tables d d0" if "IsDomainEnabled name d = (res, d0)" for name res d0
    using IsDomainEnabled_same [of d name] that by simp
  show "same_tables d d1"
    using assms list enabled
    by (auto simp: resolveCreateDomain_def Let_def split: if_splits prod.splits sum.splits)
  show "(\<exists>r \<in> set (db_domains d). dr_enabled r = 1 \<and> nocase (dr_name r) = nocase (TrimSpace dm)) \<and> dm = ToLower ul (TrimSpace host)
      \<or> (\<exists>r \<in> set (db_domains d). dr_enabled r = 1 \<and> dm = dr_name r) \<or> dm = opt_DefaultDomain o1"
    using assms list enabled
    by (auto simp: resolveCreateDomain_def Let_def split: if_splits prod.splits sum.splits dest!: IsDomainEnabled_True)
qed

text \<open>What the success page of a registration tells, and what is behind it.\<close>

lemma body_simps:
  "rw_body (header_Set k v w) = rw_body w" "rw_body (header_Del k w) = rw_body w" "rw_body (SetCookie c w) = rw_body w"
  "rw_body (WriteHeader code w) = rw_body w" "rw_body (Write ch w) = rw_body w @ [ch]"
  "rw_body (http_Error msg code w) = rw_body w @ [Bytes (msg @ [CHR 0x0A])]"
  by (simp_all add: header_Set_def header_Del_def SetCookie_def WriteHeader_def Write_def http_Error_def Let_def split: option.split)

lemma ExecuteTemplate_body:
  "ExecuteTemplate render p w = (ok, w1) \<Longrightarrow> rw_body w1 = rw_body w @ [Page p] \<and> ok \<or> rw_body w1 = rw_body w @ [PartOfPage p] \<and> \<not> ok \<or> w1 = w \<and> \<not> ok"
  by (auto simp: ExecuteTemplate_def body_simps split: render_result.splits if_splits)

lemma renderRegister_body: "rw_body w = [] \<Longrightarrow> Page (registerSuccessData cd a pw) \<notin> set (rw_body (snd (renderRegister render lp msg st d w)))"
  by (auto simp: renderRegister_def ExecuteTemplate_def body_simps split: prod.split sum.split render_result.split)

lemma register_failed_body:
  "rw_body w = [] \<Longrightarrow> Page (registerSuccessData cd a pw) \<notin> set (rw_body (snd (register_failed x lp host e d w)))"
  by (auto simp: register_failed_def renderRegister_body writeRateLimitResponse_def body_simps split: option.split)

lemma HandleRegister_page:
  assumes "ParseForm (x_parse_form x) r = Inr form" "rw_body w = []"
    and "HandleRegister x o1 dr r l d w = (l', d', w')" "Page (registerSuccessData cd a pw) \<in> set (rw_body w')"
  shows "\<exists>lp hash inbox. validateLocalPart (x_ul x) (PostFormValue ''local_part'' form) = Inr lp
    \<and> GeneratePassword (dr_rand dr) = Inr pw \<and> HashPassword (x_gen x) (dr_salt dr) pw (opt_BcryptCost o1) = Inr hash
    \<and> createInbox (x_ul x) o1 dr (FromHTTPRequest (Some (rq_remote r)))
         (ToLower (x_ul x) (TrimSpace (PostFormValue ''domain'' form))) lp hash l d = (Inr inbox, l', d')
    \<and> a = Inbox_Address inbox"
proof -
  note bodies = renderRegister_body [OF assms(2)] register_failed_body [OF assms(2)]
  have no: "Page (registerSuccessData cd a pw) \<notin> set (rw_body w1)" if "renderRegister render lp msg st d1 w = (d2, w1)" for render lp msg st d1 d2 w1
    using bodies(1) that by (metis snd_conv)
  have no': "Page (registerSuccessData cd a pw) \<notin> set (rw_body w1)" if "register_failed x lp host e d1 w = (d2, w1)" for lp host e d1 d2 w1
    using bodies(2) that by (metis snd_conv)
  have page: "a = Inbox_Address inbox \<and> pw = pw'"
    if "ExecuteTemplate render (registerSuccessData t (Inbox_Address inbox) pw') w = (ok, w1)"
      "w' = (if ok then w1 else http_Error msg 500 w1)" for render t inbox pw' ok w1 msg
    using that assms(2,4)
    by (auto simp: body_simps dest!: ExecuteTemplate_body)
  show ?thesis
    using assms(1,3,4) no no' page
    by (simp add: HandleRegister_def Let_def split: sum.splits prod.splits) blast+
qed

lemma createInbox_Inr:
  "createInbox ul o1 dr addr host lp hash l d = (Inr inbox, l', d') \<Longrightarrow> create_account ul o1 dr host lp hash d = (Inr inbox, d')"
  by (auto simp: createInbox_def Let_def split: option.splits prod.splits if_splits)

lemma create_account_Inr:
  assumes "create_account ul o1 dr host lp hash d = (Inr inbox, d')"
  shows "\<exists>dm rid d1. resolveCreateDomain ul o1 host d = (Inr dm, d1) \<and> dm \<noteq> []
    \<and> inbox_row_of rid (dr_now dr) (new_account lp dm (dr_uuid dr) hash) \<in> set (db_inboxes d')
    \<and> Inbox_ID inbox = rid \<and> Inbox_Address inbox = lp @ ''@'' @ dm"
  using assms
  by (auto simp: create_account_def new_account_def dest!: CreateInbox_Inr split: prod.splits sum.splits if_splits)

lemma resolved_plain:
  assumes "resolveCreateDomain ul o1 (ToLower ul (TrimSpace f)) d = (Inr dm, d1)" "ascii f"
    and "\<forall>r \<in> set (db_domains d). plain (dr_name r)" "plain (opt_DefaultDomain o1)"
  shows "plain dm"
proof -
  let ?t = "nocase (TrimSpace f)"
  have t: "ascii ?t" "TrimSpace ?t = ?t" using assms(2) ascii_TrimSpace [of f] TrimSpace_nocase [of "TrimSpace f"] by simp_all
  have low: "ToLower ul (TrimSpace f) = ?t" using assms(2) by (simp add: ToLower_ascii ascii_TrimSpace)
  from t have low2: "ToLower ul ?t = ?t" by (simp add: ToLower_ascii)
  have "plain dm" if "dm = ?t" "r \<in> set (db_domains d)" "nocase (dr_name r) = nocase (TrimSpace dm)" for r
    using that assms(3) t plain_nocase [of "dr_name r"] plain_nocase [of dm] by simp
  then show ?thesis
    using resolveCreateDomain_Inr(2) [OF assms(1)] assms(3,4) by (auto simp: low t low2)
qed

text \<open>
  C19. What registration shows is what login takes: when the success page with an address and
  a password comes back, the address is the accepted name at a domain of the service, its
  mailbox exists with a hash of the password and never expires, and a login with exactly this
  address and password opens it. The domain names of the service are ASCII without white
  space, as their validation ensures for ASCII input.
\<close>
theorem registered_account_can_log_in:
  assumes "db_wf d" "rw_body w = []" "ParseForm (x_parse_form x) r = Inr form" "ascii (PostFormValue ''domain'' form)"
    and "\<forall>dm \<in> set (db_domains d). plain (dr_name dm)" "plain (opt_DefaultDomain o1)" "bcrypt_contract (x_gen x) (x_cmp x)"
    and "HandleRegister x o1 dr r l d w = (l', d', w')" "Page (registerSuccessData cd address password) \<in> set (rw_body w')"
    and "ParseForm (x_parse_form x) r2 = Inr form'" "PostFormValue ''address'' form' = address" "PostFormValue ''password'' form' = password"
    and "db_faults d' = []" "session_of (dr_uuid dr2) d' = None" "dr_uuid dr2 \<noteq> []" "rw_sent w2 = None"
  shows "\<exists>i \<in> set (db_inboxes d'). ir_address i = address \<and> ir_expires_at i = toUnix neverExpires
    \<and> (\<exists>name dm. validateLocalPart (x_ul x) (PostFormValue ''local_part'' form) = Inr name \<and> address = name @ ''@'' @ dm)
    \<and> logged_into o1 dr2 i (HandleLogin x o1 dr2 r2 d' w2)"
proof -
  let ?f = "PostFormValue ''domain'' form"
  obtain name hash inbox where name: "validateLocalPart (x_ul x) (PostFormValue ''local_part'' form) = Inr name"
    and hash: "HashPassword (x_gen x) (dr_salt dr) password (opt_BcryptCost o1) = Inr hash"
    and created: "createInbox (x_ul x) o1 dr (FromHTTPRequest (Some (rq_remote r))) (ToLower (x_ul x) (TrimSpace ?f)) name hash l d
      = (Inr inbox, l', d')" and address: "address = Inbox_Address inbox"
    using HandleRegister_page [OF assms(3,2,8,9)] by blast
  from create_account_Inr [OF createInbox_Inr [OF created]] obtain dm rid d1 where
    dm: "resolveCreateDomain (x_ul x) o1 (ToLower (x_ul x) (TrimSpace ?f)) d = (Inr dm, d1)"
    and row: "inbox_row_of rid (dr_now dr) (new_account name dm (dr_uuid dr) hash) \<in> set (db_inboxes d')"
    and at: "Inbox_Address inbox = name @ ''@'' @ dm" by blast
  let ?i = "inbox_row_of rid (dr_now dr) (new_account name dm (dr_uuid dr) hash)"
  have i: "ir_address ?i = address" "ir_password_hash ?i = hash" "ir_expires_at ?i = toUnix neverExpires"
    by (simp_all add: inbox_row_of_def new_account_def address at)
  have "local_name name" using name by (auto simp: validateLocalPart_iff)
  then have "plain name" using local_name_plain by (simp add: plain_def)
  moreover have "plain dm" using resolved_plain [OF dm assms(4-6)] .
  moreover have "plain ''@''" by (simp add: plain_def byte_def is_space_def)
  ultimately have "plain address" by (simp add: address at plain_append del: append_Cons)
  then have look: "nocase (ToLower (x_ul x) (TrimSpace address)) = nocase address"
    by (simp add: plain_trim ToLower_ascii plain_def)
  have "db_wf d'" using wf.HandleRegister [OF assms(1), of x o1 dr r l w] assms(8) by simp
  moreover have "x_cmp x hash password"
    using HashPassword_verifies [OF assms(7) hash] by (simp add: VerifyPassword_def)
  ultimately have "logged_into o1 dr2 ?i (HandleLogin x o1 dr2 r2 d' w2)"
    using assms(10-16) row look i by (intro HandleLogin_ok [where form = form']) simp_all
  then show ?thesis using row i name address at by (intro bexI [of _ ?i]) auto
qed

lemma sample_registration:
  "\<exists>d' w'. HandleRegister form_ext sample_options sample_draws (sample_request ''POST'' ''/register'' []) None sample_db new_writer
       = (None, d', w') \<and> db_faults d' = [] \<and> session_of ''u1'' d' = None
     \<and> Page (registerSuccessData (page_title ''Email Address Created'') ''cat@x.test'' (replicate 32 (CHR ''a''))) \<in> set (rw_body w')"
proof -
  have v: "validateLocalPart (\<lambda>n. n) ''cat'' = Inr ''cat''"
    by (simp add: validateLocalPart_iff sample_words local_name_def local_rune_def byte_def)
  have pw: "GeneratePassword (dr_rand sample_draws) = Inr (replicate 32 (CHR ''a''))"
    by (simp add: GeneratePassword_def GeneratedPasswordLength_def password_letter_index byte_def passwordAlphabet_def)
  have hash: "HashPassword toy_gen [] (replicate 32 (CHR ''a'')) 10 = Inr (CHR ''$'' # replicate 32 (CHR ''a''))"
    by (simp add: HashPassword_def toy_gen_def)
  have "domain_view sample_db ''x.test'' = Some True" by (simp add: domain_view_def sample_names)
  then have dm: "resolveCreateDomain (\<lambda>n. n) sample_options ''x.test'' sample_db = (Inr ''x.test'', sample_db)"
    using domain_view_is_enabled [OF sample_db_wf sample_db_fields(7), of "''x.test''"]
    by (simp add: resolveCreateDomain_def sample_words sample_names)
  let ?new = "new_account ''cat'' ''x.test'' ''u1'' (CHR ''$'' # replicate 32 (CHR ''a''))"
  have "CreateInbox (\<lambda>n. n) (400 * time_Second) ?new sample_db = (Inr (created_inbox 3 (400 * time_Second) ?new),
     sample_db\<lparr>db_inboxes := db_inboxes sample_db @ [inbox_row_of 3 (400 * time_Second) ?new], db_inboxes_seq := 3\<rparr>)"
    using CreateInbox_ok [OF sample_db_wf sample_db_fields(7), of ?new "\<lambda>n. n" "400 * time_Second"]
    by (simp add: new_account_def address_taken_def token_taken_def sample_words sample_names)
  then have "createInbox (\<lambda>n. n) sample_options sample_draws addr ''x.test'' ''cat'' (CHR ''$'' # replicate 32 (CHR ''a'')) None sample_db
      = (Inr (created_inbox 3 (400 * time_Second) ?new), None,
     sample_db\<lparr>db_inboxes := db_inboxes sample_db @ [inbox_row_of 3 (400 * time_Second) ?new], db_inboxes_seq := 3\<rparr>)" for addr
    using dm by (simp add: createInbox_def create_account_def)
  moreover have "Inbox_Address (created_inbox 3 (400 * time_Second) ?new) = ''cat@x.test''"
    by (simp add: created_inbox_def new_account_def)
  ultimately show ?thesis
    using v pw hash
    by (simp add: HandleRegister_def ParseForm_def PostFormValue_def first_value_def sample_words
        Let_def ExecuteTemplate_def body_simps session_of_def del: sample_draws_fields(4))
qed

lemma registered_account_can_log_in_witness:
  "\<exists>d' w' i. HandleRegister form_ext sample_options sample_draws (sample_request ''POST'' ''/register'' []) None sample_db new_writer
       = (None, d', w') \<and> i \<in> set (db_inboxes d')
     \<and> logged_into sample_options sample_draws i
         (HandleLogin form_ext sample_options sample_draws (sample_request ''POST'' ''/login'' []) d' new_writer)"
proof -
  obtain d' w' where reg: "HandleRegister form_ext sample_options sample_draws (sample_request ''POST'' ''/register'' []) None sample_db new_writer
       = (None, d', w')" "db_faults d' = []" "session_of (dr_uuid sample_draws) d' = None"
    and page: "Page (registerSuccessData (page_title ''Email Address Created'') ''cat@x.test'' (replicate 32 (CHR ''a''))) \<in> set (rw_body w')"
    using sample_registration by auto
  have "plain ''x.test''" "plain ''old.test''" by (simp_all add: plain_def byte_def is_space_def)
  then have dms: "\<forall>dm \<in> set (db_domains sample_db). plain (dr_name dm)" "plain (opt_DefaultDomain sample_options)" by simp_all
  have new: "rw_body new_writer = []" "rw_sent new_writer = None" by (simp_all add: new_writer_def)
  have "\<exists>i \<in> set (db_inboxes d'). ir_address i = ''cat@x.test'' \<and> ir_expires_at i = toUnix neverExpires \<and>
      (\<exists>name dm. validateLocalPart (x_ul form_ext) (PostFormValue ''local_part'' [(''local_part'', ''cat''), (''domain'', ''x.test''),
         (''address'', ''cat@x.test''), (''password'', replicate 32 (CHR ''a''))]) = Inr name \<and> ''cat@x.test'' = name @ ''@'' @ dm)
      \<and> logged_into sample_options sample_draws i
         (HandleLogin form_ext sample_options sample_draws (sample_request ''POST'' ''/login'' []) d' new_writer)"
    by (rule registered_account_can_log_in [where form' = "[(''local_part'', ''cat''), (''domain'', ''x.test''),
        (''address'', ''cat@x.test''), (''password'', replicate 32 (CHR ''a''))]", OF sample_db_wf new(1) _ _ dms _ reg(1) page _ _ _ reg(2,3) _ new(2)])
       (simp_all add: ParseForm_def PostFormValue_def first_value_def byte_def toy_contract)
  with reg(1) show ?thesis by blast
qed

end
