(* ===== verification/Admin_Spec.thy ===== *)
theory Admin_Spec
  imports Web_Accounts
begin

text \<open>
  The admin area: its password is set once, its sessions end an hour after their last use, and
  the domains change only behind its gate. The race between two first setups is shown as it is.
\<close>

section \<open>What the other handlers keep\<close>

interpretation settings_kept: mailbox_store "\<lambda>d. db_settings d = S" for S
  by unfold_locales (auto simp: insert_inbox_def insert_session_def delete_emails_def Let_def)

interpretation settings_kept: domain_store "\<lambda>d. db_settings d = S" for S
  by unfold_locales (auto simp: insert_domain_def Let_def)

interpretation domains_kept: mailbox_store "\<lambda>d. db_domains d = D" for D
  by unfold_locales (auto simp: insert_inbox_def insert_session_def delete_emails_def Let_def)

interpretation domains_kept: settings_store "\<lambda>d. db_domains d = D" for D
  by unfold_locales auto

lemma admin_handler_settings: "db_settings (fst (admin_handler x dr ar r d w)) = db_settings d"
  using settings_kept.domain_pages [OF refl] settings_kept.admin_forms(4) [OF refl]
  by (simp add: admin_handler_def split: admin_route.split)

section \<open>The stored password\<close>

text \<open>The hash that the settings hold, the empty string for none.\<close>

definition admin_hash :: "db \<Rightarrow> string" where
  "admin_hash d = (case setting_view d AdminPasswordHashKey of None \<Rightarrow> [] | Some h \<Rightarrow> h)"

lemma adminPasswordHash_Inr: "adminPasswordHash d = (Inr h, d') \<Longrightarrow> h = admin_hash d \<and> same_tables d d'"
proof -
  assume a: "adminPasswordHash d = (Inr h, d')"
  obtain g d1 where g: "GetSetting AdminPasswordHashKey d = (g, d1)" by fastforce
  then have same: "same_tables d d'"
    using reads_same(7) [of d AdminPasswordHashKey] a by (auto simp: adminPasswordHash_def split: sum.splits if_splits)
  have "h = admin_hash d"
  proof (cases "db_faults d")
    case Nil
    with a show ?thesis
      by (auto simp: adminPasswordHash_def GetSetting_ok admin_hash_def split: option.splits)
  next
    case (Cons f fs)
    show ?thesis
    proof (cases f)
      case None
      have "setting_view (d\<lparr>db_faults := fs\<rparr>) k = setting_view d k" for k by (simp add: setting_view_def)
      with a None Cons show ?thesis
        by (auto simp: adminPasswordHash_def GetSetting_def scan_one_def query_row_def run_stmt_def admin_hash_def setting_view_def
            find_filter mapScanError_def split: list.splits if_splits)
    next
      case (Some msg)
      with a Cons show ?thesis
        by (auto simp: adminPasswordHash_def GetSetting_def scan_one_def query_row_def run_stmt_def mapScanError_def split: if_splits)
    qed
  qed
  with same show ?thesis by simp
qed

lemma adminPasswordHash_ok: "db_faults d = [] \<Longrightarrow> adminPasswordHash d = (Inr (admin_hash d), d)"
  by (simp add: adminPasswordHash_def GetSetting_ok admin_hash_def split: option.split)

lemma setup_check_Inr:
  "setup_check x o1 r d w = (Inr pw, d') \<Longrightarrow> admin_hash d = [] \<and> same_tables d d'"
  by (auto simp: setup_check_def Let_def dest!: adminPasswordHash_Inr split: if_splits prod.splits sum.splits)

lemma HandleAdminSetup_set:
  assumes "admin_hash d \<noteq> []"
  shows "db_settings (fst (snd (HandleAdminSetup x o1 dr r s d w))) = db_settings d"
proof -
  have "db_settings d' = db_settings d" if "setup_check x o1 r d w = (res, d')" for res d'
    using settings_kept.setup_check_same [OF that, of "db_settings d"] by simp
  then show ?thesis
    using assms by (auto simp: HandleAdminSetup_def dest!: setup_check_Inr split: prod.split sum.split)
qed

text \<open>A site whose admin password is set, with one admin session.\<close>

definition sample_admin_site :: site where
  "sample_admin_site = sample_site\<lparr>site_db := sample_db\<lparr>db_settings := [\<lparr>tr_key = AdminPasswordHashKey,
     tr_value = ''$correct horse'', tr_updated_at = 1\<rparr>]\<rparr>, site_admin := [''a1'' \<mapsto> 500 * time_Second]\<rparr>"

lemma sample_admin_fields [simp]:
  "site_admin sample_admin_site = [''a1'' \<mapsto> 500 * time_Second]" "db_faults (site_db sample_admin_site) = []"
  "db_domains (site_db sample_admin_site) = db_domains sample_db" "site_limiter sample_admin_site = None"
  "admin_hash (site_db sample_admin_site) = ''$correct horse''"
  by (simp_all add: sample_admin_site_def admin_hash_def setting_view_def)

text \<open>
  The admin password is chosen once: when a hash is stored, no request whatever changes a
  setting, through any route, by any visitor and whichever statements fail.
\<close>
lemma admin_password_is_set_once:
  assumes "admin_hash (site_db st) \<noteq> []"
  shows "db_settings (site_db (fst (serve x o1 dr r st))) = db_settings (site_db st)"
proof (rule serve_state [where Q = "\<lambda>s. db_settings (site_db s) = db_settings (site_db st)"])
  fix r w
  consider "find_route r = AdminSetup" | ar where "find_route r = AdminArea ar"
    | "find_route r \<noteq> AdminSetup" "\<And>ar. find_route r \<noteq> AdminArea ar" by blast
  then show "db_settings (site_db (fst (root_handler x o1 dr st r w))) = db_settings (site_db st)"
  proof cases
    case 1
    then show ?thesis using HandleAdminSetup_set [OF assms] by (simp add: root_handler_def on_admin_def case_prod_beta)
  next
    case 2
    then show ?thesis
      using settings_kept.adminAuthMiddleware [where d = "site_db st" and S = "db_settings (site_db st)"] admin_handler_settings
      by (simp add: root_handler_def on_admin_def case_prod_beta)
  next
    case 3
    then show ?thesis using settings_kept.root_handler_public [OF refl] by blast
  qed
qed simp

lemma admin_password_is_set_once_witness:
  "db_settings (site_db (fst (serve sample_ext sample_options sample_draws (sample_request ''POST'' ''/admin/setup'' []) sample_admin_site)))
     = db_settings (site_db sample_admin_site)"
  by (rule admin_password_is_set_once) simp

section \<open>The gate\<close>

text \<open>What a request that gets through the gate has shown.\<close>

definition admin_passes :: "Options \<Rightarrow> int \<Rightarrow> request \<Rightarrow> adminSessionStore \<Rightarrow> db \<Rightarrow> bool" where
  "admin_passes o1 now r s d \<longleftrightarrow> opt_AdminUsername o1 \<noteq> [] \<and> admin_hash d \<noteq> [] \<and>
     (\<exists>token expires. Cookie (adminCookieName (opt_CookieSecure o1)) r = Some token \<and> s token = Some expires \<and> now < expires)"

lemma adminAuthMiddleware_closed:
  assumes "\<not> admin_passes o1 now r s d"
  shows "same_tables d (fst (snd (adminAuthMiddleware o1 now next r s d w)))"
proof (cases "adminEnabled o1")
  case True
  obtain h d1 where h: "adminPasswordHash d = (h, d1)" by fastforce
  obtain g d2 where "GetSetting AdminPasswordHashKey d = (g, d2)" by fastforce
  with h have d1: "same_tables d d1"
    using reads_same(7) [of d AdminPasswordHashKey] by (auto simp: adminPasswordHash_def split: sum.splits if_splits)
  have shut: "fst (admin_validate now token s) \<Longrightarrow> h \<noteq> Inr [] \<Longrightarrow> isl h"
    if "Cookie (adminCookieName (opt_CookieSecure o1)) r = Some token" for token
    using assms that True h
    by (cases h) (auto simp: admin_passes_def adminEnabled_def admin_validate_def dest!: adminPasswordHash_Inr split: option.splits if_splits)
  show ?thesis
    using True h d1 shut
    by (auto simp: adminAuthMiddleware_def split: sum.split option.split prod.split bool.split)
qed (simp add: adminAuthMiddleware_def)

lemma admin_table_post:
  "admin_table m segs = AdminAddDomain \<Longrightarrow> m = MethodPost" "admin_table m segs = AdminToggleDomain n \<Longrightarrow> m = MethodPost"
  by (auto simp: admin_table_def get_only_def post_only_def Let_def split: list.splits if_splits)

lemma root_table_admin: "root_table m segs = AdminArea ar \<Longrightarrow> \<exists>rest. ar = admin_table m rest"
  by (auto simp: root_table_def get_only_def post_only_def get_or_post_def Let_def split: list.splits if_splits)

lemma find_route_post:
  assumes "find_route r = AdminArea ar" "ar = AdminAddDomain \<or> (\<exists>n. ar = AdminToggleDomain n)"
  shows "rq_method r = MethodPost"
proof -
  have "\<exists>segs. root_table (rq_method r) segs = AdminArea ar"
    using assms(1) by (auto simp: find_route_def Let_def split: route.splits if_splits)
  then show ?thesis using assms(2) by (auto dest!: root_table_admin dest: admin_table_post)
qed

text \<open>The state after a request: the middleware lets it through, or it is unchanged.\<close>

lemma serve_fst:
  "\<exists>w. fst (serve x o1 dr r st) =
     (if rq_method r \<noteq> MethodPost then fst (root_handler x o1 dr st r w)
      else if maxPostBodyBytes < rq_content_length r \<or> \<not> isSameOriginRequest (x_uf x) (x_url_parse x) (r\<lparr>rq_body_limit := Some maxPostBodyBytes\<rparr>)
      then st else fst (root_handler x o1 dr st (r\<lparr>rq_body_limit := Some maxPostBodyBytes\<rparr>) w))"
  by (rule exI [of _ "header_Set ''Content-Security-Policy'' contentSecurityPolicy (header_Set ''Referrer-Policy'' ''no-referrer''
      (header_Set ''X-Frame-Options'' ''DENY'' (header_Set ''X-Content-Type-Options'' ''nosniff'' new_writer)))"])
     (simp add: serve_def wrapHTTP_def securityHeadersMiddleware_def postSecurityMiddleware_def Let_def case_prod_beta)

lemma limited_request:
  "find_route (r\<lparr>rq_body_limit := n\<rparr>) = find_route r" "isSameOriginRequest uf up (r\<lparr>rq_body_limit := n\<rparr>) = isSameOriginRequest uf up r"
  "admin_passes o1 now (r\<lparr>rq_body_limit := n\<rparr>) s d = admin_passes o1 now r s d"
  by (simp_all add: find_route_def isSameOriginRequest_def sameOriginURL_def header_Get_def admin_passes_def Cookie_def Let_def split: route.split option.split)

lemma root_handler_keeps_domains:
  assumes "\<And>ar. find_route r = AdminArea ar \<Longrightarrow> rq_method r = MethodPost \<Longrightarrow> \<not> admin_passes o1 (dr_now dr) r (site_admin st) (site_db st)"
  shows "db_domains (site_db (fst (root_handler x o1 dr st r w))) = db_domains (site_db st)"
proof -
  consider "find_route r = AdminSetup" | ar where "find_route r = AdminArea ar"
    | "find_route r \<noteq> AdminSetup" "\<And>ar. find_route r \<noteq> AdminArea ar" by blast
  then show ?thesis
  proof cases
    case 1
    then show ?thesis
      using domains_kept.HandleAdminSetup [OF refl] by (simp add: root_handler_def on_admin_def case_prod_beta)
  next
    case (2 ar)
    show ?thesis
    proof (cases "rq_method r = MethodPost")
      case True
      with 2 assms adminAuthMiddleware_closed show ?thesis
        by (simp add: root_handler_def on_admin_def case_prod_beta same_tablesD)
    next
      case False
      with 2 have "\<not> (ar = AdminAddDomain \<or> (\<exists>n. ar = AdminToggleDomain n))" using find_route_post by blast
      then have "db_domains (fst (admin_handler x dr ar r d w)) = db_domains d" for d w
        using domains_kept.admin_forms(4) [OF refl] by (cases ar) (auto simp: admin_handler_def)
      then show ?thesis
        using 2 domains_kept.adminAuthMiddleware [where d = "site_db st" and D = "db_domains (site_db st)"]
        by (simp add: root_handler_def on_admin_def case_prod_beta)
    qed
  next
    case 3
    then show ?thesis using domains_kept.root_handler_public [OF refl] by blast
  qed
qed

text \<open>
  C34. The domains change only behind the admin gate: a request that changes them is a
  same-origin POST to the admin area, the area is configured, its password is set, and the
  request carries the token of an admin session that has not expired.
\<close>
theorem domains_change_only_by_admin:
  assumes "db_domains (site_db (fst (serve x o1 dr r st))) \<noteq> db_domains (site_db st)"
  shows "(\<exists>ar. find_route r = AdminArea ar) \<and> rq_method r = MethodPost \<and> isSameOriginRequest (x_uf x) (x_url_parse x) r
    \<and> admin_passes o1 (dr_now dr) r (site_admin st) (site_db st)"
proof -
  let ?r = "r\<lparr>rq_body_limit := Some maxPostBodyBytes\<rparr>"
  obtain w where s: "fst (serve x o1 dr r st) =
     (if rq_method r \<noteq> MethodPost then fst (root_handler x o1 dr st r w)
      else if maxPostBodyBytes < rq_content_length r \<or> \<not> isSameOriginRequest (x_uf x) (x_url_parse x) ?r
      then st else fst (root_handler x o1 dr st ?r w))"
    using serve_fst by blast
  have post: "rq_method r = MethodPost"
  proof (rule ccontr)
    assume no: "rq_method r \<noteq> MethodPost"
    then have "db_domains (site_db (fst (root_handler x o1 dr st r w))) = db_domains (site_db st)" by (intro root_handler_keeps_domains) simp
    then show False using assms s no by simp
  qed
  with assms s have "isSameOriginRequest (x_uf x) (x_url_parse x) r" "db_domains (site_db (fst (root_handler x o1 dr st ?r w))) \<noteq> db_domains (site_db st)"
    by (auto simp: limited_request split: if_splits)
  moreover from this(2) obtain ar where "find_route ?r = AdminArea ar" "admin_passes o1 (dr_now dr) ?r (site_admin st) (site_db st)"
    using root_handler_keeps_domains [of ?r o1 dr st x w] by blast
  ultimately show ?thesis using post by (simp add: limited_request)
qed

lemma sample_toggle:
  "db_domains (site_db (fst (root_handler sample_ext sample_options sample_draws sample_admin_site
     (sample_request ''POST'' ''/admin/domains/x.test/toggle'' [(''admin_session'', ''a1'')]\<lparr>rq_headers := h, rq_body_limit := n\<rparr>) w)))
   \<noteq> db_domains (site_db sample_admin_site)"
proof -
  have "find_route (sample_request ''POST'' ''/admin/domains/x.test/toggle'' cs\<lparr>rq_headers := h, rq_body_limit := n\<rparr>)
      = AdminArea (AdminToggleDomain ''x.test'')" for cs
    by (simp add: find_route_def cleanPath_def join_segments_def root_table_def admin_table_def post_only_def
        get_or_post_def is_get_def MethodGet_def MethodHead_def MethodPost_def Let_def)
  moreover have "admin_validate (400 * time_Second) ''a1'' [''a1'' \<mapsto> 500 * time_Second]
      = (True, [''a1'' \<mapsto> 400 * time_Second + adminSessionTTL])"
    by (simp add: admin_validate_def)
  ultimately show ?thesis
    by (simp add: root_handler_def on_admin_def adminAuthMiddleware_def adminPasswordHash_ok adminEnabled_def adminCookieName_def
        Cookie_def admin_handler_def HandleAdminToggleDomain_def PathValue_def first_value_def GetDomain_def scan_one_def stmt_ok
        sample_words sample_names scanDomain_def SetDomainEnabled_def case_prod_beta update_rows_def boolToInt_def
        update_required_ok count_rows_def)
qed

lemma domains_change_only_by_admin_witness:
  "admin_passes sample_options (400 * time_Second) (sample_request ''POST'' ''/admin/domains/x.test/toggle'' [(''admin_session'', ''a1'')]
     \<lparr>rq_headers := [(''Sec-Fetch-Site'', ''same-origin'')]\<rparr>) (site_admin sample_admin_site) (site_db sample_admin_site)"
proof -
  let ?r = "sample_request ''POST'' ''/admin/domains/x.test/toggle'' [(''admin_session'', ''a1'')]\<lparr>rq_headers := [(''Sec-Fetch-Site'', ''same-origin'')]\<rparr>"
  have "TrimSpace ''same-origin'' = ''same-origin''"
    by (rule TrimSpace_no_space_ascii) (simp_all add: byte_def is_space_def)
  then have "isSameOriginRequest uf up (?r\<lparr>rq_body_limit := n\<rparr>)" for uf up n
    by (simp add: isSameOriginRequest_def header_Get_def first_value_def)
  moreover have "rq_method ?r = MethodPost" "rq_content_length ?r = 0"
    by (simp_all add: MethodPost_def sample_request_def plain_request_def)
  ultimately have "db_domains (site_db (fst (serve sample_ext sample_options sample_draws ?r sample_admin_site))) \<noteq> db_domains (site_db sample_admin_site)"
    using serve_fst [of sample_ext sample_options sample_draws ?r sample_admin_site] sample_toggle
    by (auto simp: maxPostBodyBytes_def)
  from domains_change_only_by_admin [OF this] show ?thesis by (simp add: MethodPost_def)
qed

section \<open>Logging in and out\<close>

lemma startAdminSession_stores:
  "startAdminSession o1 dr s w = (s(dr_uuid dr \<mapsto> dr_now dr + adminSessionTTL), setAdminCookie o1 (dr_uuid dr) w)"
  by (simp add: startAdminSession_def NewSessionToken_def admin_create_def Let_def)

definition admin_entered :: "Options \<Rightarrow> string \<Rightarrow> response_writer \<Rightarrow> bool" where
  "admin_entered o1 token w \<longleftrightarrow> resp_status w = 303 \<and> rh_headers (resp_head w) ''Location'' = Some ''/admin''
     \<and> has_cookie (adminCookieName (opt_CookieSecure o1)) token w"

lemma admin_entered_Redirect:
  "rw_sent w = None \<Longrightarrow> admin_entered o1 token (Redirect r ''/admin'' 303 (setAdminCookie o1 token w))"
  using Redirect_cookie [where w = w and r = r and url = "''/admin''" and c = "\<lparr>ck_Name = adminCookieName (opt_CookieSecure o1), ck_Value = token, ck_Path = ''/'', ck_HttpOnly = True,
     ck_SameSiteLax = True, ck_Secure = opt_CookieSecure o1, ck_MaxAge = int_Seconds adminSessionTTL\<rparr>"]
  by (simp add: admin_entered_def setAdminCookie_def)

text \<open>
  C35. On a working database the admin login lets in exactly the configured name with the
  stored password: it then starts a session and sends its cookie, which stays good for an hour
  after the last request that used it and not a moment longer, and is dead after the logout;
  any other attempt starts no session, and in every case the database is unchanged.
\<close>
theorem admin_login_by_password:
  assumes "db_faults d = []" "ParseForm (x_parse_form x) r = Inr form" "rw_sent w = None" "dr_uuid dr \<noteq> []"
  shows "case HandleAdminLogin x o1 dr r s d w of (s', d', w') \<Rightarrow> d' = d \<and>
    (if opt_AdminUsername o1 \<noteq> [] \<and> admin_hash d \<noteq> [] \<and> PostFormValue ''username'' form = opt_AdminUsername o1
        \<and> x_cmp x (admin_hash d) (PostFormValue ''password'' form)
     then admin_entered o1 (dr_uuid dr) w'
       \<and> (\<forall>t. fst (admin_validate t (dr_uuid dr) s') \<longleftrightarrow> t < dr_now dr + adminSessionTTL)
       \<and> (\<forall>u t. u < dr_now dr + adminSessionTTL \<longrightarrow>
            fst (admin_validate t (dr_uuid dr) (snd (admin_validate u (dr_uuid dr) s'))) = (t < u + adminSessionTTL))
       \<and> (\<forall>t r2 w2. Cookie (adminCookieName (opt_CookieSecure o1)) r2 = Some (dr_uuid dr) \<longrightarrow>
            \<not> fst (admin_validate t (dr_uuid dr) (fst (HandleAdminLogout o1 r2 s' w2))))
       \<and> (\<forall>t token. token \<noteq> dr_uuid dr \<longrightarrow> fst (admin_validate t token s') = fst (admin_validate t token s))
     else s' = s)"
proof (cases "opt_AdminUsername o1 \<noteq> [] \<and> admin_hash d \<noteq> [] \<and> PostFormValue ''username'' form = opt_AdminUsername o1
        \<and> x_cmp x (admin_hash d) (PostFormValue ''password'' form)")
  case True
  let ?k = "dr_uuid dr" and ?e = "dr_now dr + adminSessionTTL"
  let ?s = "admin_create ?k ?e s"
  have login: "HandleAdminLogin x o1 dr r s d w = (?s, d, Redirect r ''/admin'' 303 (setAdminCookie o1 ?k w))"
    using True assms(1,2)
    by (simp add: HandleAdminLogin_def adminEnabled_def adminPasswordHash_ok VerifyPassword_def startAdminSession_def NewSessionToken_def Let_def)
  have live: "fst (admin_validate t ?k ?s) \<longleftrightarrow> t < ?e" for t by (rule admin_sessions.live_put) simp
  moreover have "snd (admin_validate u ?k ?s) = admin_create ?k (u + adminSessionTTL) ?s" if "u < ?e" for u
    using that by (simp add: admin_validate_def admin_create_def)
  then have "fst (admin_validate t ?k (snd (admin_validate u ?k ?s))) = (t < u + adminSessionTTL)" if "u < ?e" for u t
    using that admin_sessions.live_put by simp
  moreover have "\<not> fst (admin_validate t ?k (fst (HandleAdminLogout o1 r2 ?s w2)))"
    if "Cookie (adminCookieName (opt_CookieSecure o1)) r2 = Some ?k" for t r2 w2
    using that assms(4) admin_revocations.revoked_dead by (simp add: HandleAdminLogout_def)
  moreover have "fst (admin_validate t k ?s) = fst (admin_validate t k s)" if "k \<noteq> ?k" for t k
    using that by (intro admin_sessions.live_put_other) simp_all
  ultimately show ?thesis
    unfolding login prod.case if_P [OF True] using admin_entered_Redirect [OF assms(3)] by blast
next
  case False
  then have "fst (HandleAdminLogin x o1 dr r s d w) = s \<and> fst (snd (HandleAdminLogin x o1 dr r s d w)) = d"
    using assms(1,2) by (auto simp: HandleAdminLogin_def adminEnabled_def adminPasswordHash_ok VerifyPassword_def Let_def)
  then show ?thesis unfolding if_not_P [OF False] case_prod_beta by simp
qed

text \<open>A site whose admin forms carry the name and a password that ends in the request body.\<close>

definition admin_form_ext :: ext where
  "admin_form_ext = sample_ext\<lparr>x_parse_form := (\<lambda>s. Inr [(''username'', ''root''), (''password'', ''correct horse'' @ s),
     (''confirm_password'', ''correct horse'' @ s)])\<rparr>"

lemma admin_form_fields [simp]:
  "x_gen admin_form_ext = toy_gen" "x_cmp admin_form_ext = toy_cmp"
  "x_parse_form admin_form_ext s = Inr [(''username'', ''root''), (''password'', ''correct horse'' @ s), (''confirm_password'', ''correct horse'' @ s)]"
  by (simp_all add: admin_form_ext_def sample_ext_def)

lemma admin_login_by_password_witness:
  "case HandleAdminLogin admin_form_ext sample_options sample_draws (sample_request ''POST'' ''/admin/login'' []) Map.empty
      (site_db sample_admin_site) new_writer of (s', d', w') \<Rightarrow>
     admin_entered sample_options ''u1'' w' \<and> fst (admin_validate (3999 * time_Second) ''u1'' s')"
proof -
  have f: "ParseForm (x_parse_form admin_form_ext) (sample_request ''POST'' ''/admin/login'' []) = Inr
      [(''username'', ''root''), (''password'', ''correct horse''), (''confirm_password'', ''correct horse'')]"
    by (simp add: ParseForm_def)
  show ?thesis
    using admin_login_by_password [OF _ f, of "site_db sample_admin_site" new_writer sample_draws sample_options Map.empty]
    by (simp add: new_writer_def PostFormValue_def first_value_def toy_cmp_def adminSessionTTL_def case_prod_beta)
qed

section \<open>The first setup\<close>

lemma setup_check_ok:
  assumes "db_faults d = []" "opt_AdminUsername o1 \<noteq> []" "admin_hash d = []" "ParseForm (x_parse_form x) r = Inr form"
    and "PostFormValue ''password'' form = pw" "PostFormValue ''confirm_password'' form = pw" "12 \<le> length pw"
  shows "setup_check x o1 r d w = (Inr pw, d)"
  using assms by (simp add: setup_check_def adminEnabled_def adminPasswordHash_ok minAdminPasswordLength_def Let_def)

lemma setup_commit_ok:
  assumes "db_faults d = []" "HashPassword (x_gen x) (dr_salt dr) pw (opt_BcryptCost o1) = Inr h"
  shows "setup_commit x o1 dr r pw s d w = (s(dr_uuid dr \<mapsto> dr_now dr + adminSessionTTL),
    d\<lparr>db_settings := upsert_setting (dr_now dr) AdminPasswordHashKey h (db_settings d)\<rparr>,
    Redirect r ''/admin'' 303 (setAdminCookie o1 (dr_uuid dr) w))"
  using assms by (simp add: setup_commit_def SetSetting_ok startAdminSession_stores)

lemma admin_hash_upsert:
  "admin_hash (d\<lparr>db_settings := upsert_setting t AdminPasswordHashKey h (db_settings d)\<rparr>) = h"
  by (simp add: admin_hash_def setting_view_upsert)

text \<open>
  C36. Two first setups: one after the other, the second is sent to the login and changes
  nothing; but when the second checks before the first has stored its hash, both succeed, both
  visitors are logged in as the admin, and the password that counts is the one stored last.
\<close>
theorem admin_setup_race:
  assumes "db_faults d = []" "opt_AdminUsername o1 \<noteq> []" "admin_hash d = []" "bcrypt_contract (x_gen x) (x_cmp x)"
    and "ParseForm (x_parse_form x) ra = Inr fa" "PostFormValue ''password'' fa = pwa" "PostFormValue ''confirm_password'' fa = pwa"
    and "ParseForm (x_parse_form x) rb = Inr fb" "PostFormValue ''password'' fb = pwb" "PostFormValue ''confirm_password'' fb = pwb"
    and "12 \<le> length pwa" "length pwa \<le> 72" "12 \<le> length pwb" "length pwb \<le> 72" "4 \<le> opt_BcryptCost o1" "opt_BcryptCost o1 \<le> 31"
    and "rw_sent wa = None" "rw_sent wb = None"
  shows "(case HandleAdminSetup x o1 dra ra s d wa of (s1, d1, va) \<Rightarrow>
      admin_entered o1 (dr_uuid dra) va \<and> x_cmp x (admin_hash d1) pwa
      \<and> HandleAdminSetup x o1 drb rb s1 d1 wb = (s1, d1, Redirect rb ''/admin/login'' 303 wb))
    \<and> setup_check x o1 ra d wa = (Inr pwa, d) \<and> setup_check x o1 rb d wb = (Inr pwb, d)
    \<and> (case setup_commit x o1 dra ra pwa s d wa of (s1, d1, va) \<Rightarrow> case setup_commit x o1 drb rb pwb s1 d1 wb of (s2, d2, vb) \<Rightarrow>
      admin_entered o1 (dr_uuid dra) va \<and> admin_entered o1 (dr_uuid drb) vb \<and> x_cmp x (admin_hash d2) pwb
      \<and> s2 = s(dr_uuid dra \<mapsto> dr_now dra + adminSessionTTL, dr_uuid drb \<mapsto> dr_now drb + adminSessionTTL))"
proof -
  obtain ha where ha: "HashPassword (x_gen x) (dr_salt dra) pwa (opt_BcryptCost o1) = Inr ha"
    using HashPassword_short [OF assms(4,12,15,16)] by blast
  obtain hb where hb: "HashPassword (x_gen x) (dr_salt drb) pwb (opt_BcryptCost o1) = Inr hb"
    using HashPassword_short [OF assms(4,14,15,16)] by blast
  have va: "ha \<noteq> []" "x_cmp x ha pwa" and vb: "x_cmp x hb pwb"
    using HashPassword_verifies [OF assms(4) ha] HashPassword_verifies [OF assms(4) hb] by (simp_all add: VerifyPassword_def)
  note check = setup_check_ok [OF assms(1-3,5-7,11)] setup_check_ok [OF assms(1-3,8-10,13)]
  let ?d1 = "d\<lparr>db_settings := upsert_setting (dr_now dra) AdminPasswordHashKey ha (db_settings d)\<rparr>"
  have f: "db_faults ?d1 = []" using assms(1) by simp
  have bounced: "setup_check x o1 rb ?d1 wb = (Inl (Redirect rb ''/admin/login'' 303 wb), ?d1)"
    using assms(2) va by (simp add: setup_check_def adminEnabled_def adminPasswordHash_ok [OF f] admin_hash_upsert)
  note commit = setup_commit_ok [OF assms(1) ha] setup_commit_ok [OF f hb]
  have "admin_hash (?d1\<lparr>db_settings := upsert_setting (dr_now drb) AdminPasswordHashKey hb (db_settings ?d1)\<rparr>) = hb"
    by (rule admin_hash_upsert)
  then show ?thesis
    using va vb admin_entered_Redirect [OF assms(17)] admin_entered_Redirect [OF assms(18)]
    by (simp add: HandleAdminSetup_def check commit bounced admin_hash_upsert)
qed

lemma admin_setup_race_witness:
  "case setup_commit admin_form_ext sample_options sample_draws (sample_request ''POST'' ''/admin/setup'' []) ''correct horse''
       Map.empty sample_db new_writer of (s1, d1, va) \<Rightarrow>
     case setup_commit admin_form_ext sample_options (sample_draws\<lparr>dr_uuid := ''u2''\<rparr>) (sample_request ''POST'' ''/admin/setup'' []\<lparr>rq_body := ''2''\<rparr>)
       ''correct horse2'' s1 d1 new_writer of (s2, d2, vb) \<Rightarrow>
     admin_entered sample_options ''u1'' va \<and> admin_entered sample_options ''u2'' vb \<and> admin_hash d2 \<noteq> [] \<and> toy_cmp (admin_hash d2) ''correct horse2''"
proof -
  have a: "ParseForm (x_parse_form admin_form_ext) (sample_request ''POST'' ''/admin/setup'' []) = Inr
      [(''username'', ''root''), (''password'', ''correct horse''), (''confirm_password'', ''correct horse'')]"
    and b: "ParseForm (x_parse_form admin_form_ext) (sample_request ''POST'' ''/admin/setup'' []\<lparr>rq_body := ''2''\<rparr>) = Inr
      [(''username'', ''root''), (''password'', ''correct horse2''), (''confirm_password'', ''correct horse2'')]"
    by (simp_all add: ParseForm_def)
  show ?thesis
    using admin_setup_race [OF _ _ _ _ a _ _ b, of sample_db sample_options "''correct horse''" "''correct horse2''" new_writer new_writer
        sample_draws "sample_draws\<lparr>dr_uuid := ''u2''\<rparr>" Map.empty]
    by (auto simp: new_writer_def PostFormValue_def first_value_def toy_contract toy_cmp_def admin_hash_def setting_view_def case_prod_beta)
qed

end
