(* ===== verification/Domain_Cache.thy ===== *)
theory Domain_Cache
  imports Interfaces
begin

text \<open>
  \<open>internal/smtp/domaincache.go\<close>: the short-lived cache of the enabled state of recipient
  domains. The clock \<open>c.now\<close> is the instant handed to each call.
\<close>

definition domainCacheTTL :: int where
  "domainCacheTTL = 30 * time_Second"

record domainCacheEntry =
  dce_enabled :: bool
  dce_expiresAt :: int

record domainCache =
  dc_ttl :: int
  dc_entries :: "string \<rightharpoonup> domainCacheEntry"

definition newDomainCache :: "int \<Rightarrow> domainCache" where
  "newDomainCache ttl = \<lparr>dc_ttl = ttl, dc_entries = Map.empty\<rparr>"

text \<open>\<open>get\<close> answers \<open>(enabled, ok)\<close>.\<close>

definition cache_get :: "int \<Rightarrow> string \<Rightarrow> domainCache \<Rightarrow> bool \<times> bool" where
  "cache_get now name c =
     (case dc_entries c name of
        None \<Rightarrow> (False, False)
      | Some e \<Rightarrow> if \<not> now < dce_expiresAt e then (False, False) else (dce_enabled e, True))"

definition cache_set :: "int \<Rightarrow> string \<Rightarrow> bool \<Rightarrow> domainCache \<Rightarrow> domainCache" where
  "cache_set now name enabled c =
     c\<lparr>dc_entries := (dc_entries c)(name \<mapsto> \<lparr>dce_enabled = enabled, dce_expiresAt = now + dc_ttl c\<rparr>)\<rparr>"

text \<open>The cache as a store with deadlines; \<open>set\<close> at instant \<open>now\<close> puts the deadline \<open>now + ttl\<close>.\<close>

definition cache_deadline :: "domainCache \<Rightarrow> string \<Rightarrow> int option" where
  "cache_deadline c name = map_option dce_expiresAt (dc_entries c name)"

interpretation cache: ttl_store cache_deadline "\<lambda>t k c. snd (cache_get t k c)" "\<lambda>_. True"
    "\<lambda>k v e c. cache_set (e - dc_ttl c) k v c"
  by unfold_locales
     (auto simp: cache_deadline_def cache_get_def cache_set_def fun_eq_iff split: option.splits if_splits)

lemma cache_get_set:
  "cache_get t name (cache_set now name b c) = (if t < now + dc_ttl c then (b, True) else (False, False))"
  by (simp add: cache_get_def cache_set_def)

lemma cache_get_set_other: "n \<noteq> name \<Longrightarrow> cache_get t n (cache_set now name b c) = cache_get t n c"
  by (simp add: cache_get_def cache_set_def)

lemma dc_ttl_cache_set [simp]: "dc_ttl (cache_set now name b c) = dc_ttl c"
  by (simp add: cache_set_def)

lemma cache_get_new [simp]: "cache_get t name (newDomainCache ttl) = (False, False)"
  by (simp add: cache_get_def newDomainCache_def)

text \<open>
  What the cache answers is at most its time to live old: an answer at instant \<open>t\<close>
  is the value of a \<open>set\<close> of that name less than \<open>ttl\<close> earlier, whatever sets of this and
  other names came before and after it.
\<close>
lemma cache_answer_is_recent:
  assumes "cache_get t name (fold (\<lambda>(now, n, b). cache_set now n b) h (newDomainCache ttl)) = (b, True)"
  shows "\<exists>now. (now, name, b) \<in> set h \<and> t < now + ttl"
proof -
  have ttl: "dc_ttl (fold (\<lambda>(now, n, b). cache_set now n b) h c) = dc_ttl c" for h c
    by (induction h arbitrary: c) auto
  have "cache_get t name (fold (\<lambda>(now, n, b). cache_set now n b) h c) = (b, True) \<Longrightarrow>
      cache_get t name c = (b, True) \<or> (\<exists>now. (now, name, b) \<in> set h \<and> t < now + dc_ttl c)" for c
  proof (induction h rule: rev_induct)
    case (snoc x h)
    obtain now n b' where x: "x = (now, n, b')" by (cases x)
    let ?c = "fold (\<lambda>(now, n, b). cache_set now n b) h c"
    show ?case
    proof (cases "n = name")
      case True
      with snoc.prems x have "b' = b \<and> t < now + dc_ttl c"
        by (auto simp: cache_get_set ttl split: if_splits)
      with True x show ?thesis by auto
    next
      case False
      with snoc x have "cache_get t name ?c = (b, True)" by (auto simp: cache_get_set_other)
      with snoc.IH show ?thesis by auto
    qed
  qed simp
  from this [OF assms] show ?thesis by (simp add: newDomainCache_def cache_get_def)
qed

lemma cache_answer_is_recent_witness:
  "\<exists>now. (now, ''x.test'', False) \<in> set [(0::int, ''x.test'', True), (5, ''x.test'', False)] \<and> 20 < now + 30"
  by (rule cache_answer_is_recent [of 20 "''x.test''"]) (simp add: cache_get_def cache_set_def newDomainCache_def)

end
