(* ===== verification/Smtp_Backend.thy ===== *)
theory Smtp_Backend
  imports Domain_Cache Rate_Limit Config Client_Ip Repository_Accounts
begin

text \<open>
  \<open>internal/smtp/backend.go\<close>: the backend shared by all SMTP sessions. The repository it
  points to is the database handed to and returned by each call; a call runs at one instant.
\<close>

text \<open>An error of package \<open>smtp\<close>: an SMTP reply, go-smtp's \<open>ErrDataTooLarge\<close>, or any other
  error of a reader.\<close>

datatype smtp_err = SMTPError (reply_code: int) (enhanced: "int \<times> int \<times> int") (reply_text: string)
  | ErrDataTooLarge
  | ReadError string

definition smtpError :: "int \<Rightarrow> int \<times> int \<times> int \<Rightarrow> string \<Rightarrow> smtp_err" where
  "smtpError c e message = SMTPError c e message"

record Backend =
  be_domains :: domainCache
  be_config :: Config
  be_connectionLimiter :: "FixedWindowLimiter option"

definition NewBackend :: "Config \<Rightarrow> FixedWindowLimiter option \<Rightarrow> Backend" where
  "NewBackend cfg limiter =
     \<lparr>be_domains = newDomainCache domainCacheTTL, be_config = cfg, be_connectionLimiter = limiter\<rparr>"

definition domainAllowed :: "(nat \<Rightarrow> nat) \<Rightarrow> int \<Rightarrow> string \<Rightarrow> Backend \<Rightarrow> db \<Rightarrow> bool result \<times> Backend \<times> db" where
  "domainAllowed ul now name0 b d =
     (let name = ToLower ul name0 in
      case cache_get now name (be_domains b) of
        (enabled, True) \<Rightarrow> (Inr enabled, b, d)
      | (_, False) \<Rightarrow>
          (case IsDomainEnabled name d of
             (Inl e, d1) \<Rightarrow> (Inl e, b, d1)
           | (Inr enabled, d1) \<Rightarrow> (Inr enabled, b\<lparr>be_domains := cache_set now name enabled (be_domains b)\<rparr>, d1)))"

text \<open>\<open>gosmtp.Server\<close>, as far as \<open>NewServer\<close> sets it.\<close>

record smtp_server =
  srv_backend :: Backend
  srv_Addr :: string
  srv_Domain :: string
  srv_MaxMessageBytes :: int
  srv_MaxRecipients :: int
  srv_AllowInsecureAuth :: bool
  srv_ReadTimeout :: int
  srv_WriteTimeout :: int

definition NewServer :: "Config \<Rightarrow> FixedWindowLimiter option \<Rightarrow> smtp_server" where
  "NewServer cfg limiter = \<lparr>srv_backend = NewBackend cfg limiter, srv_Addr = cfg_SMTPListenAddr cfg,
     srv_Domain = cfg_SMTPHostname cfg, srv_MaxMessageBytes = cfg_MaxEmailSize cfg, srv_MaxRecipients = 1,
     srv_AllowInsecureAuth = False, srv_ReadTimeout = 30 * time_Second, srv_WriteTimeout = 30 * time_Second\<rparr>"

text \<open>The state of one SMTP session, and its start on a connection.\<close>

record SmtpSession =
  ses_from :: string
  ses_rcpts :: "string list"
  ses_inbox :: "Inbox option"

definition fresh_session :: SmtpSession where
  "fresh_session = \<lparr>ses_from = [], ses_rcpts = [], ses_inbox = None\<rparr>"

definition NewSession :: "int \<Rightarrow> string option option option \<Rightarrow> Backend \<Rightarrow> (smtp_err + SmtpSession) \<times> Backend" where
  "NewSession now conn b =
     (case be_connectionLimiter b of
        None \<Rightarrow> (Inr fresh_session, b)
      | Some _ \<Rightarrow>
          (let (decision, limiter') = Allow now (FromSMTPConn conn) (be_connectionLimiter b);
               b' = b\<lparr>be_connectionLimiter := limiter'\<rparr> in
           if \<not> Allowed decision then (Inl (smtpError 421 (4, 7, 0) ''rate limit exceeded''), b')
           else (Inr fresh_session, b')))"

section \<open>The domain check\<close>

lemma domainAllowed_config [simp]:
  "be_config (fst (snd (domainAllowed ul now name b d))) = be_config b"
  "be_connectionLimiter (fst (snd (domainAllowed ul now name b d))) = be_connectionLimiter b"
  by (auto simp: domainAllowed_def Let_def split: prod.split bool.split sum.split)

lemma domainAllowed_same: "same_tables d (snd (snd (domainAllowed ul now name b d)))"
  using IsDomainEnabled_same [of d "ToLower ul name"]
  by (cases "IsDomainEnabled (ToLower ul name) d") (auto simp: domainAllowed_def Let_def split: prod.split bool.split sum.split)

text \<open>Without a cached answer the check reads the domain table.\<close>

lemma domainAllowed_fresh:
  assumes "db_wf d" "db_faults d = []" "snd (cache_get now (ToLower ul name) (be_domains b)) = False"
  shows "domainAllowed ul now name b d =
    (Inr (domain_view d (nocase (TrimSpace (ToLower ul name))) = Some True),
     b\<lparr>be_domains := cache_set now (ToLower ul name)
        (domain_view d (nocase (TrimSpace (ToLower ul name))) = Some True) (be_domains b)\<rparr>, d)"
  using assms domain_view_is_enabled [OF assms(1,2), of "ToLower ul name"]
  by (cases "cache_get now (ToLower ul name) (be_domains b)") (simp add: domainAllowed_def Let_def)

text \<open>A history of checks, each at its instant and on the database of that instant.\<close>

fun checks :: "(nat \<Rightarrow> nat) \<Rightarrow> (int \<times> string \<times> db) list \<Rightarrow> Backend \<Rightarrow> Backend" where
  "checks ul [] b = b"
| "checks ul ((now, name, d) # h) b = checks ul h (fst (snd (domainAllowed ul now name b d)))"

text \<open>No positive entry for \<open>name\<close> outlives instant \<open>T\<close>.\<close>

definition no_positive_after :: "int \<Rightarrow> string \<Rightarrow> Backend \<Rightarrow> bool" where
  "no_positive_after T name b \<longleftrightarrow>
     (\<forall>e. dc_entries (be_domains b) name = Some e \<longrightarrow> dce_enabled e \<longrightarrow> dce_expiresAt e \<le> T)"

lemma domainAllowed_no_positive:
  assumes "no_positive_after (T + domainCacheTTL) name b" "dc_ttl (be_domains b) = domainCacheTTL"
    and "now \<le> T \<or> (ToLower ul n = name \<longrightarrow> fst (IsDomainEnabled name d) \<noteq> Inr True)"
  shows "no_positive_after (T + domainCacheTTL) name (fst (snd (domainAllowed ul now n b d)))"
  using assms
  by (auto simp: domainAllowed_def no_positive_after_def cache_set_def Let_def split: prod.split bool.split sum.split)

lemma domainAllowed_ttl [simp]: "dc_ttl (be_domains (fst (snd (domainAllowed ul now n b d)))) = dc_ttl (be_domains b)"
  by (auto simp: domainAllowed_def Let_def split: prod.split bool.split sum.split)

lemma checks_no_positive:
  "no_positive_after (T + domainCacheTTL) name b \<Longrightarrow> dc_ttl (be_domains b) = domainCacheTTL \<Longrightarrow>
   \<forall>(now, n, d) \<in> set h. now \<le> T \<or> (ToLower ul n = name \<longrightarrow> fst (IsDomainEnabled name d) \<noteq> Inr True) \<Longrightarrow>
   no_positive_after (T + domainCacheTTL) name (checks ul h b)"
proof (induction ul h b rule: checks.induct)
  case (2 ul now n d h b)
  then show ?case by (simp add: domainAllowed_no_positive)
qed simp

text \<open>
  C27. Disabling a domain reaches inbound mail within the cache lifetime: whatever checks ran
  before instant \<open>T\<close>, if from \<open>T\<close> on the database never says the domain is enabled, then
  from 30 seconds after \<open>T\<close> no check of that domain answers that mail is allowed.
\<close>
theorem disabled_domain_rejected_within_ttl:
  assumes "\<forall>(now, n, d) \<in> set h. now \<le> T \<or> (ToLower ul n = ToLower ul name \<longrightarrow> fst (IsDomainEnabled (ToLower ul name) d) \<noteq> Inr True)"
    and "fst (IsDomainEnabled (ToLower ul name) d') \<noteq> Inr True" "T + 30 * time_Second \<le> t"
  shows "fst (domainAllowed ul t name (checks ul h (NewBackend cfg limiter)) d') \<noteq> Inr True"
proof -
  let ?b = "checks ul h (NewBackend cfg limiter)"
  have "no_positive_after (T + domainCacheTTL) (ToLower ul name) ?b"
    using assms(1) by (intro checks_no_positive)
      (auto simp: no_positive_after_def NewBackend_def newDomainCache_def)
  then have "cache_get t (ToLower ul name) (be_domains ?b) \<noteq> (True, True)"
    using assms(3) by (auto simp: no_positive_after_def cache_get_def domainCacheTTL_def split: option.split if_splits)
  then show ?thesis
    using assms(2) by (auto simp: domainAllowed_def Let_def split: prod.split bool.split sum.split)
qed

lemma disabled_domain_rejected_within_ttl_witness:
  "fst (domainAllowed (\<lambda>n. n) (30 * time_Second) ''old.test''
     (checks (\<lambda>n. n) [(0, ''old.test'', sample_db\<lparr>db_domains := [\<lparr>dr_id = 2, dr_name = ''old.test'', dr_enabled = 1, dr_created_at = 60\<rparr>]\<rparr>)]
        (NewBackend default_config None)) sample_db) \<noteq> Inr True"
proof (rule disabled_domain_rejected_within_ttl [where T = 0])
  have "domain_view sample_db (nocase (TrimSpace (ToLower (\<lambda>n. n) ''old.test''))) \<noteq> Some True"
  proof -
    have "ascii ''old.test''" by (simp add: byte_def)
    then have "ToLower (\<lambda>n. n) ''old.test'' = ''old.test''" by (simp add: ToLower_ascii sample_names)
    moreover have "TrimSpace ''old.test'' = ''old.test''"
      by (rule TrimSpace_no_space_ascii) (simp_all add: byte_def is_space_def)
    ultimately show ?thesis by (simp add: domain_view_def sample_names)
  qed
  then show "fst (IsDomainEnabled (ToLower (\<lambda>n. n) ''old.test'') sample_db) \<noteq> Inr True"
    by (simp add: domain_view_is_enabled [OF sample_db_wf])
qed auto

section \<open>New sessions\<close>

lemma NewSession_limited:
  "be_connectionLimiter b = Some l \<Longrightarrow> NewSession now conn b =
     (if Allowed (fst (allow now (FromSMTPConn conn) l)) then Inr fresh_session
      else Inl (SMTPError 421 (4, 7, 0) ''rate limit exceeded''),
      b\<lparr>be_connectionLimiter := Some (snd (allow now (FromSMTPConn conn) l))\<rparr>)"
  by (auto simp: NewSession_def Allow_def smtpError_def split: prod.split)

text \<open>A run of connections, and for each its instant, its client and whether it was accepted.\<close>

fun starts :: "Backend \<Rightarrow> (int \<times> string option option option) list \<Rightarrow> (int \<times> string \<times> bool) list" where
  "starts b [] = []"
| "starts b ((now, conn) # cs) =
     (now, FromSMTPConn conn, \<not> isl (fst (NewSession now conn b))) # starts (snd (NewSession now conn b)) cs"

lemma starts_decisions:
  "be_connectionLimiter b = Some l \<Longrightarrow>
   starts b cs = decisions l (map (\<lambda>(now, conn). (now, FromSMTPConn conn)) cs)"
  by (induction b cs arbitrary: l rule: starts.induct) (auto simp: NewSession_limited)

text \<open>
  C28. However its connections are spread over ports and mixed with those of others, a client
  opens at most twice the configured number of SMTP sessions in any minute.
\<close>
theorem smtp_sessions_per_minute:
  assumes "0 < lim" "sorted (map fst conns)" "zero_time \<notin> fst ` set conns"
  shows "admitted client a (a + time_Minute)
    (starts (NewBackend cfg (Some (NewFixedWindowLimiter lim time_Minute))) conns) \<le> 2 * lim"
proof -
  let ?l = "NewFixedWindowLimiter lim time_Minute"
  let ?calls = "map (\<lambda>(now, conn). (now, FromSMTPConn conn)) conns"
  have fst: "map fst ?calls = map fst conns" by (induction conns) auto
  then have z: "zero_time \<notin> fst ` set ?calls" using assms(3) by (metis image_set)
  have s: "sorted (map fst ?calls)" unfolding fst by (rule assms(2))
  have "admitted client a (a + window ?l) (decisions ?l ?calls) \<le> 2 * limit ?l"
    by (rule admitted_any [OF s _ _ _ limiter_ok_new z]) (use assms(1) in \<open>simp_all add: NewFixedWindowLimiter_def\<close>)
  then show ?thesis
    using starts_decisions [of "NewBackend cfg (Some ?l)" ?l conns] by (simp add: NewBackend_def NewFixedWindowLimiter_def)
qed

lemma smtp_sessions_per_minute_witness:
  "admitted ''c'' 0 (0 + time_Minute) (starts (NewBackend default_config (Some (NewFixedWindowLimiter 1 time_Minute)))
     [(1, Some (Some (Some ''c''))), (2, Some (Some (Some ''c'')))]) \<le> 2 * 1"
  by (rule smtp_sessions_per_minute) (simp_all add: zero_time_def)

end
