(* ===== verification/Smtp_Session.thy ===== *)
theory Smtp_Session
  imports Smtp_Backend
begin

text \<open>
  \<open>internal/smtp/session.go\<close>: one SMTP session, from the envelope to the stored message.

  A reader is what it will deliver: its bytes and, after them, the error it ends with if it
  does not end regularly; a limited reader stops at its limit without looking further.
  \<open>net/mail.ParseAddress\<close> and go-message are parameters: an address parses to its
  \<open>Address\<close> field or fails, and \<open>CreateReader\<close> on the raw bytes gives a possible error and a
  reader, of which the code uses the message id, the subject, the \<open>From\<close> addresses and the
  parts in the order \<open>NextPart\<close> delivers them.
\<close>

section \<open>Readers\<close>

type_synonym stream = "string \<times> smtp_err option"

definition ReadAll :: "stream \<Rightarrow> smtp_err + string" where
  "ReadAll r = (case snd r of None \<Rightarrow> Inr (fst r) | Some e \<Rightarrow> Inl e)"

definition LimitReader :: "stream \<Rightarrow> int \<Rightarrow> stream" where
  "LimitReader r n = (if n \<le> int (length (fst r)) then (take (nat n) (fst r), None) else r)"

definition readRawMessage :: "stream \<Rightarrow> int \<Rightarrow> smtp_err + string" where
  "readRawMessage r maxBytes =
     (case ReadAll (LimitReader r (wrap64 (maxBytes + 1))) of
        Inl e \<Rightarrow> Inl e
      | Inr raw \<Rightarrow> if maxBytes < int (length raw) then Inl ErrDataTooLarge else Inr raw)"

text \<open>The headers end at the first empty line with CRLF line ends, or else with LF.\<close>

definition CR :: char where "CR = CHR 0x0D"
definition LF :: char where "LF = CHR 0x0A"

fun cut_at :: "string list \<Rightarrow> string \<Rightarrow> string" where
  "cut_at [] raw = raw"
| "cut_at (sep # seps) raw = (case Index raw sep of Some i \<Rightarrow> take i raw | None \<Rightarrow> cut_at seps raw)"

definition extractRawHeaders :: "string \<Rightarrow> string" where
  "extractRawHeaders raw = cut_at [[CR, LF, CR, LF], [LF, LF]] raw"

section \<open>What go-message delivers\<close>

datatype mail_err = UnknownCharset | MailError string

definition IsUnknownCharset :: "mail_err \<Rightarrow> bool" where
  "IsUnknownCharset e \<longleftrightarrow> e = UnknownCharset"

datatype part_header =
    InlineHeader "mail_err + string"
  | AttachmentHeader "mail_err + string" "mail_err + string"
  | OtherHeader

record part =
  part_header :: part_header
  part_body :: stream

record mail_reader =
  mr_MessageID :: "mail_err + string"
  mr_Subject :: "string \<times> mail_err option"
  mr_From :: "mail_err + (string \<times> string) list"
  mr_parts :: "(mail_err option \<times> part) list"

type_synonym create_reader = "string \<Rightarrow> mail_err option \<times> mail_reader"

text \<open>\<open>err != nil && !message.IsUnknownCharset(err)\<close>.\<close>

definition fatal :: "mail_err option \<Rightarrow> bool" where
  "fatal err = (case err of None \<Rightarrow> False | Some e \<Rightarrow> \<not> IsUnknownCharset e)"

definition parse_failed :: smtp_err where
  "parse_failed = smtpError 554 (5, 6, 0) ''failed to parse message''"

definition bad_headers :: smtp_err where
  "bad_headers = smtpError 554 (5, 6, 0) ''invalid message headers''"

section \<open>Parsing\<close>

text \<open>\<open>parseSender\<close>: the first \<open>From\<close> address and its name, or the envelope sender.\<close>

definition parseSender :: "mail_reader \<Rightarrow> string \<Rightarrow> mail_err + (string \<times> string)" where
  "parseSender rd fallback =
     (case mr_From rd of
        Inl e \<Rightarrow> Inl e
      | Inr [] \<Rightarrow> Inr (fallback, [])
      | Inr ((address, name) # _) \<Rightarrow> Inr (address, name))"

definition readAttachment :: "int \<Rightarrow> mail_err + string \<Rightarrow> mail_err + string \<Rightarrow> stream \<Rightarrow> smtp_err + Attachment" where
  "readAttachment maxSize filename contentType body =
     (case filename of
        Inl e \<Rightarrow> Inl parse_failed
      | Inr name \<Rightarrow>
          (case contentType of
             Inl e \<Rightarrow> Inl parse_failed
           | Inr ct \<Rightarrow>
               (case ReadAll (LimitReader body (wrap64 (maxSize + 1))) of
                  Inl e \<Rightarrow> Inl parse_failed
                | Inr content \<Rightarrow>
                    if maxSize < int (length content) then Inl (smtpError 552 (5, 3, 4) ''attachment too large'')
                    else Inr \<lparr>Attachment_ID = 0, Attachment_EmailID = 0,
                      Attachment_Filename = defaultString name ''attachment'',
                      Attachment_ContentType = defaultString ct ''application/octet-stream'',
                      Attachment_SizeBytes = int (length content), Attachment_Content = content\<rparr>)))"

text \<open>The loop of \<open>parseParts\<close>: a body keeps the first part that is not empty.\<close>

definition keep_first :: "string \<Rightarrow> string \<Rightarrow> string" where
  "keep_first body content = (if body = [] \<and> 0 < length content then content else body)"

fun parse_parts :: "(nat \<Rightarrow> nat) \<Rightarrow> int \<Rightarrow> (mail_err option \<times> part) list \<Rightarrow> string \<Rightarrow> string \<Rightarrow> Attachment list
    \<Rightarrow> smtp_err + string \<times> string \<times> Attachment list" where
  "parse_parts ul maxSize [] bodyText bodyHTML attachments = Inr (bodyText, bodyHTML, attachments)"
| "parse_parts ul maxSize ((err, p) # ps) bodyText bodyHTML attachments =
     (if fatal err then Inl parse_failed
      else case part_header p of
        InlineHeader contentType \<Rightarrow>
          (case contentType of
             Inl e \<Rightarrow> Inl parse_failed
           | Inr ct \<Rightarrow>
               (case ReadAll (part_body p) of
                  Inl e \<Rightarrow> Inl parse_failed
                | Inr content \<Rightarrow>
                    let t = ToLower ul ct in
                    if t = ''text/plain'' then parse_parts ul maxSize ps (keep_first bodyText content) bodyHTML attachments
                    else if t = ''text/html'' then parse_parts ul maxSize ps bodyText (keep_first bodyHTML content) attachments
                    else parse_parts ul maxSize ps bodyText bodyHTML attachments))
      | AttachmentHeader filename contentType \<Rightarrow>
          (case readAttachment maxSize filename contentType (part_body p) of
             Inl e \<Rightarrow> Inl e
           | Inr attachment \<Rightarrow> parse_parts ul maxSize ps bodyText bodyHTML (attachments @ [attachment]))
      | OtherHeader \<Rightarrow>
          (case snd (part_body p) of
             Some e \<Rightarrow> Inl parse_failed
           | None \<Rightarrow> parse_parts ul maxSize ps bodyText bodyHTML attachments))"

definition parseParts :: "(nat \<Rightarrow> nat) \<Rightarrow> int \<Rightarrow> mail_reader \<Rightarrow> smtp_err + string \<times> string \<times> Attachment list" where
  "parseParts ul maxSize rd = parse_parts ul maxSize (mr_parts rd) [] [] []"

definition parseMessage :: "(nat \<Rightarrow> nat) \<Rightarrow> create_reader \<Rightarrow> int \<Rightarrow> Config \<Rightarrow> string \<Rightarrow> string \<Rightarrow> Inbox
    \<Rightarrow> smtp_err + Email \<times> Attachment list" where
  "parseMessage ul create now cfg from raw inbox =
     (let (err, rd) = create raw in
      if fatal err then Inl parse_failed
      else case mr_MessageID rd of
        Inl e \<Rightarrow> Inl bad_headers
      | Inr messageID \<Rightarrow>
          (let (subject, serr) = mr_Subject rd in
           if fatal serr then Inl bad_headers
           else case parseSender rd from of
             Inl e \<Rightarrow> Inl bad_headers
           | Inr (sender, senderName) \<Rightarrow>
               (case parseParts ul (cfg_MaxAttachmentSize cfg) rd of
                  Inl e \<Rightarrow> Inl e
                | Inr (bodyText, bodyHTML, attachments) \<Rightarrow>
                    Inr (\<lparr>Email_ID = 0, Email_InboxID = Inbox_ID inbox, Email_MessageID = messageID,
                          Email_Sender = sender, Email_SenderName = senderName, Email_Recipient = Inbox_Address inbox,
                          Email_Subject = defaultString subject ''(no subject)'',
                          Email_BodyHTML = bodyHTML, Email_BodyText = bodyText,
                          Email_RawHeaders = extractRawHeaders raw, Email_SizeBytes = int (length raw),
                          Email_HasAttachments = (0 < length attachments), Email_ReceivedAt = now,
                          Email_IsRead = False\<rparr>, attachments))))"

section \<open>The session commands\<close>

definition Mail :: "string \<Rightarrow> SmtpSession \<Rightarrow> SmtpSession" where
  "Mail from s = s\<lparr>ses_from := from\<rparr>"

definition bad_recipient :: smtp_err where
  "bad_recipient = smtpError 550 (5, 1, 3) ''invalid recipient address''"

definition Rcpt :: "(nat \<Rightarrow> nat) \<Rightarrow> (string \<Rightarrow> string option) \<Rightarrow> int \<Rightarrow> string \<Rightarrow> SmtpSession \<Rightarrow> Backend \<Rightarrow> db
    \<Rightarrow> smtp_err option \<times> SmtpSession \<times> Backend \<times> db" where
  "Rcpt ul parse_address now to s b d =
     (case parse_address to of
        None \<Rightarrow> (Some bad_recipient, s, b, d)
      | Some addr \<Rightarrow>
          (let parts = Split addr CHR ''@'' in
           if length parts \<noteq> 2 \<or> parts ! 1 = [] then (Some bad_recipient, s, b, d)
           else case domainAllowed ul now (parts ! 1) b d of
             (Inl e, b1, d1) \<Rightarrow> (Some (smtpError 451 (4, 3, 0) ''temporary domain lookup failure''), s, b1, d1)
           | (Inr allowed, b1, d1) \<Rightarrow>
               if \<not> allowed then (Some (smtpError 550 (5, 7, 1) ''relay not permitted''), s, b1, d1)
               else (case GetInboxByAddress addr d1 of
                  (Inl e, d2) \<Rightarrow>
                    (Some (if err_is e ErrNotFound then smtpError 550 (5, 1, 1) ''user not found''
                           else smtpError 451 (4, 3, 0) ''temporary mailbox lookup failure''), s, b1, d2)
                | (Inr inbox, d2) \<Rightarrow>
                    (None, s\<lparr>ses_inbox := Some inbox, ses_rcpts := ses_rcpts s @ [addr]\<rparr>, b1, d2))))"

definition Data :: "(nat \<Rightarrow> nat) \<Rightarrow> create_reader \<Rightarrow> int \<Rightarrow> stream \<Rightarrow> SmtpSession \<Rightarrow> Backend \<Rightarrow> db
    \<Rightarrow> smtp_err option \<times> db" where
  "Data ul create now r s b d =
     (case readRawMessage r (cfg_MaxEmailSize (be_config b)) of
        Inl e \<Rightarrow>
          (Some (if e = ErrDataTooLarge then ErrDataTooLarge else smtpError 451 (4, 3, 0) ''temporary read failure''), d)
      | Inr raw \<Rightarrow>
          (case ses_inbox s of
             None \<Rightarrow> (Some (smtpError 554 (5, 5, 1) ''no valid recipients''), d)
           | Some inbox \<Rightarrow>
               if length (ses_rcpts s) = 0 then (Some (smtpError 554 (5, 5, 1) ''no valid recipients''), d)
               else (case parseMessage ul create now (be_config b) (ses_from s) raw inbox of
                  Inl e \<Rightarrow> (Some e, d)
                | Inr (email, attachments) \<Rightarrow>
                    (case SaveInboundMessage ul now email attachments d of
                       (Inl e, d1) \<Rightarrow> (Some (smtpError 451 (4, 3, 0) ''temporary storage failure''), d1)
                     | (Inr _, d1) \<Rightarrow> (None, d1)))))"

definition Reset :: "SmtpSession \<Rightarrow> SmtpSession" where
  "Reset s = s\<lparr>ses_from := [], ses_rcpts := [], ses_inbox := None\<rparr>"

definition Logout :: "SmtpSession \<Rightarrow> smtp_err option" where
  "Logout s = None"

end
