(* ===== verification/Smtp_Spec.thy ===== *)
theory Smtp_Spec
  imports Smtp_Session Repository_Mailbox
begin

text \<open>
  What the SMTP side promises: which recipients are accepted, that a message is stored for the
  mailbox of the accepted recipient or not at all, and within which size bounds.
\<close>

section \<open>Recipients\<close>

definition allowed_by :: "(nat \<Rightarrow> nat) \<Rightarrow> int \<Rightarrow> string \<Rightarrow> Backend \<Rightarrow> db \<Rightarrow> bool" where
  "allowed_by ul now dm b d \<longleftrightarrow>
     cache_get now (ToLower ul dm) (be_domains b) = (True, True) \<or>
     (\<exists>r \<in> set (db_domains d). nocase (dr_name r) = nocase (TrimSpace (ToLower ul dm)) \<and> dr_enabled r = 1)"

lemma domainAllowed_True: "domainAllowed ul now dm b d = (Inr True, b', d') \<Longrightarrow> allowed_by ul now dm b d"
  by (auto simp: domainAllowed_def allowed_by_def Let_def dest!: IsDomainEnabled_True
      split: prod.splits bool.splits sum.splits)

lemma domainAllowed_eqD: "domainAllowed ul now dm b d = (res, b', d') \<Longrightarrow> same_tables d d'"
  using domainAllowed_same [of d ul now dm b] by simp

lemma Rcpt_accepted:
  assumes "Rcpt ul parse_address now to s b d = (None, s', b', d')"
  shows "\<exists>l m row. parse_address to = Some (l @ CHR ''@'' # m) \<and> CHR ''@'' \<notin> set l \<and> CHR ''@'' \<notin> set m \<and> m \<noteq> []
    \<and> allowed_by ul now m b d \<and> row \<in> set (db_inboxes d) \<and> nocase (ir_address row) = nocase (l @ CHR ''@'' # m)
    \<and> s' = s\<lparr>ses_inbox := Some (scanInbox row), ses_rcpts := ses_rcpts s @ [l @ CHR ''@'' # m]\<rparr>"
proof -
  obtain addr b1 d1 inbox where addr: "parse_address to = Some addr" and two: "length (Split addr CHR ''@'') = 2"
    and ne: "Split addr CHR ''@'' ! 1 \<noteq> []"
    and dm: "domainAllowed ul now (Split addr CHR ''@'' ! 1) b d = (Inr True, b1, d1)"
    and get: "GetInboxByAddress addr d1 = (Inr inbox, d')"
    and s': "s' = s\<lparr>ses_inbox := Some inbox, ses_rcpts := ses_rcpts s @ [addr]\<rparr>"
    using assms by (auto simp: Rcpt_def Let_def split: option.splits if_splits prod.splits sum.splits)
  from two obtain l m where split: "Split addr CHR ''@'' = [l, m]"
    by (auto simp: length_Suc_conv numeral_2_eq_2)
  have at: "addr = l @ CHR ''@'' # m \<and> CHR ''@'' \<notin> set l \<and> CHR ''@'' \<notin> set m" by (rule Split_two [OF split])
  obtain row where row: "row \<in> set (db_inboxes d1)" "nocase (ir_address row) = nocase addr" "inbox = scanInbox row"
    using GetInboxByAddress_Inr [OF get] by blast
  have "db_inboxes d1 = db_inboxes d" using domainAllowed_eqD [OF dm] by (simp add: same_tables_iff)
  moreover have "allowed_by ul now m b d" "m \<noteq> []" using domainAllowed_True [OF dm] ne split by simp_all
  ultimately show ?thesis
    using addr at row s' by (intro exI [of _ l] exI [of _ m] exI [of _ row]) simp
qed

lemma Rcpt_same: "same_tables d (snd (snd (snd (Rcpt ul parse_address now to s b d))))"
proof (cases "parse_address to")
  case (Some addr)
  obtain res b1 d1 where dm: "domainAllowed ul now (Split addr CHR ''@'' ! 1) b d = (res, b1, d1)" by (metis prod_cases3)
  obtain g d2 where get: "GetInboxByAddress addr d1 = (g, d2)" by fastforce
  have "same_tables d d1" "same_tables d d2"
    using domainAllowed_eqD [OF dm] reads_same(2) [of d1 addr] get same_tables_trans [of d d1 d2] by simp_all
  with Some dm get show ?thesis by (simp add: Rcpt_def Let_def split: sum.split)
qed (simp add: Rcpt_def)

lemma Rcpt_refused:
  "Rcpt ul parse_address now to s b d = (Some e, s', b', d') \<Longrightarrow> s' = s"
  by (auto simp: Rcpt_def Let_def split: option.splits if_splits prod.splits sum.splits)

text \<open>
  C23. The server relays nothing: a recipient it accepts has exactly one \<open>@\<close>, its domain was
  enabled in the database or in the cache, an inbox has its address up to case, and that
  inbox is the one the session delivers to; a refused recipient leaves the session alone, and
  no recipient changes a table.
\<close>
theorem rcpt_accepts_only_local_inboxes:
  "case Rcpt ul parse_address now to s b d of (err, s', b', d') \<Rightarrow>
     same_tables d d' \<and>
     (case err of
        Some e \<Rightarrow> s' = s
      | None \<Rightarrow> \<exists>local_part dm row. parse_address to = Some (local_part @ CHR ''@'' # dm)
          \<and> CHR ''@'' \<notin> set local_part \<and> CHR ''@'' \<notin> set dm \<and> dm \<noteq> [] \<and> allowed_by ul now dm b d
          \<and> row \<in> set (db_inboxes d) \<and> nocase (ir_address row) = nocase (local_part @ CHR ''@'' # dm)
          \<and> s' = s\<lparr>ses_inbox := Some (scanInbox row), ses_rcpts := ses_rcpts s @ [local_part @ CHR ''@'' # dm]\<rparr>)"
proof -
  obtain err s' b' d' where r: "Rcpt ul parse_address now to s b d = (err, s', b', d')" by (metis prod_cases4)
  have same: "same_tables d d'" using Rcpt_same [of d ul parse_address now to s b] r by simp
  show ?thesis
  proof (cases err)
    case None
    with r have "Rcpt ul parse_address now to s b d = (None, s', b', d')" by simp
    from Rcpt_accepted [OF this] same r None show ?thesis by simp
  next
    case (Some e)
    with r same Rcpt_refused show ?thesis by fastforce
  qed
qed

lemma Rcpt_uncached:
  assumes "db_wf d" "db_faults d = []" "parse_address to = Some (local_part @ CHR ''@'' # host)"
    and "CHR ''@'' \<notin> set local_part" "CHR ''@'' \<notin> set host" "host \<noteq> []"
    and "ascii host" "\<not> list_ex is_space (map byte host)" "cache_get now (nocase host) (be_domains b) = (False, False)"
  defines "b' \<equiv> b\<lparr>be_domains := cache_set now (nocase host) (domain_view d (nocase host) = Some True) (be_domains b)\<rparr>"
  shows "Rcpt ul parse_address now to s b d =
    (if domain_view d (nocase host) \<noteq> Some True then (Some (SMTPError 550 (5, 7, 1) ''relay not permitted''), s, b', d)
     else case filter (\<lambda>r. nocase (ir_address r) = nocase (local_part @ CHR ''@'' # host)) (db_inboxes d) of
       [] \<Rightarrow> (Some (SMTPError 550 (5, 1, 1) ''user not found''), s, b', d)
     | r # _ \<Rightarrow> (None, s\<lparr>ses_inbox := Some (scanInbox r),
         ses_rcpts := ses_rcpts s @ [local_part @ CHR ''@'' # host]\<rparr>, b', d))"
proof -
  let ?addr = "local_part @ CHR ''@'' # host"
  have split: "Split ?addr CHR ''@'' = [local_part, host]"
    using assms(4,5) by (simp add: Split_append Split_no_sep)
  have low: "ToLower ul host = nocase host" using assms(7) by (rule ToLower_ascii)
  have "TrimSpace (nocase host) = nocase host"
    using assms(7,8) nocase_no_space by (intro TrimSpace_no_space_ascii) auto
  then have allowed: "domainAllowed ul now host b d = (Inr (domain_view d (nocase host) = Some True), b', d)"
    using domainAllowed_fresh [OF assms(1,2), of now ul host b] low assms(9) by (simp add: b'_def)
  have get: "GetInboxByAddress ?addr d = ((case filter (\<lambda>r. nocase (ir_address r) = nocase ?addr) (db_inboxes d) of
       [] \<Rightarrow> Inl (Wrap ''get inbox by address'' ErrNotFound) | r # _ \<Rightarrow> Inr (scanInbox r)), d)"
    using assms(2) by (rule GetInboxByAddress_ok)
  show ?thesis
    using assms(3,6) split by (simp add: Rcpt_def allowed get smtpError_def split: list.split)
qed

text \<open>
  On a working database and without a cached answer the reply to a well-formed ASCII
  recipient is exact: relaying is refused for a domain that is not enabled, the user is
  unknown when no inbox has the address, and otherwise the recipient is accepted.
\<close>
lemma rcpt_replies:
  assumes "db_wf d" "db_faults d = []" "parse_address to = Some (local_part @ CHR ''@'' # host)"
    and "CHR ''@'' \<notin> set local_part" "CHR ''@'' \<notin> set host" "host \<noteq> []"
    and "ascii host" "\<not> list_ex is_space (map byte host)" "cache_get now (nocase host) (be_domains b) = (False, False)"
  shows "fst (Rcpt ul parse_address now to s b d) =
    (if domain_view d (nocase host) \<noteq> Some True then Some (SMTPError 550 (5, 7, 1) ''relay not permitted'')
     else if \<not> address_taken (local_part @ CHR ''@'' # host) d then Some (SMTPError 550 (5, 1, 1) ''user not found'')
     else None)"
proof -
  have "address_taken (local_part @ CHR ''@'' # host) d
      \<longleftrightarrow> filter (\<lambda>r. nocase (ir_address r) = nocase (local_part @ CHR ''@'' # host)) (db_inboxes d) \<noteq> []"
    by (auto simp: address_taken_def filter_empty_conv)
  then show ?thesis by (simp add: Rcpt_uncached [where parse_address = parse_address and to = to and local_part = local_part and host = host, OF assms] split: list.split)
qed

lemma rcpt_replies_witness:
  "fst (Rcpt (\<lambda>n. n) Some 0 ''bob@x.test'' fresh_session (NewBackend default_config None) sample_db) = None"
proof -
  have k: "nocase ''x.test'' = ''x.test''" "nocase ''bob@x.test'' = ''bob@x.test''" "nocase ''ann@x.test'' = ''ann@x.test''"
    by (rule sample_names)+
  have "''bob@x.test'' = ''bob'' @ CHR ''@'' # ''x.test''" by simp
  moreover have "domain_view sample_db ''x.test'' = Some True" by (simp add: domain_view_def k)
  moreover have "address_taken ''bob@x.test'' sample_db" by (simp add: address_taken_def k)
  ultimately show ?thesis
    using rcpt_replies [OF sample_db_wf sample_db_fields(7), of Some "''bob@x.test''" "''bob''" "''x.test''" 0
        "NewBackend default_config None" "\<lambda>n. n" fresh_session]
    by (simp add: byte_def is_space_def k NewBackend_def)
qed

section \<open>The envelope of a session\<close>

text \<open>
  The sessions that commands can lead to: \<open>MAIL\<close>, \<open>RCPT\<close> at any instant with any state of
  the backend and the database, \<open>RSET\<close>, and \<open>DATA\<close>, which does not change the session.
\<close>

inductive session_reach :: "(nat \<Rightarrow> nat) \<Rightarrow> (string \<Rightarrow> string option) \<Rightarrow> SmtpSession \<Rightarrow> bool"
  for ul parse_address where
  start: "session_reach ul parse_address fresh_session"
| mail: "session_reach ul parse_address s \<Longrightarrow> session_reach ul parse_address (Mail from s)"
| rcpt: "session_reach ul parse_address s \<Longrightarrow> Rcpt ul parse_address now to s b d = (err, s', b', d') \<Longrightarrow>
    session_reach ul parse_address s'"
| reset: "session_reach ul parse_address s \<Longrightarrow> session_reach ul parse_address (Reset s)"

definition envelope_ok :: "SmtpSession \<Rightarrow> bool" where
  "envelope_ok s \<longleftrightarrow> (case ses_inbox s of
     None \<Rightarrow> ses_rcpts s = []
   | Some inbox \<Rightarrow> ses_rcpts s \<noteq> [] \<and> nocase (Inbox_Address inbox) = nocase (last (ses_rcpts s)))"

lemma envelope_ok_reach: "session_reach ul parse_address s \<Longrightarrow> envelope_ok s"
proof (induction rule: session_reach.induct)
  case (rcpt s now to b d err s' b' d')
  show ?case
  proof (cases err)
    case None
    with rcpt have "Rcpt ul parse_address now to s b d = (None, s', b', d')" by simp
    from Rcpt_accepted [OF this] show ?thesis by (auto simp: envelope_ok_def scanInbox_def)
  next
    case (Some e)
    with rcpt Rcpt_refused show ?thesis by fastforce
  qed
qed (simp_all add: envelope_ok_def fresh_session_def Mail_def Reset_def split: option.splits)

section \<open>Message bodies\<close>

lemma length_LimitReader: "0 \<le> n \<Longrightarrow> int (length (fst (LimitReader r n))) \<le> n"
  by (auto simp: LimitReader_def)

text \<open>
  Reading a message keeps the size limit: with a limit that a \<open>MAX_EMAIL_SIZE_MB\<close> can
  give, a message longer than the limit is refused as too large, whatever error the rest of
  the stream would end with; a shorter one is taken whole, or fails with the stream's error.
\<close>
lemma raw_message_within_limit:
  assumes "0 \<le> maxBytes" "maxBytes < max_int64"
  shows "readRawMessage (content, err) maxBytes =
    (if maxBytes < int (length content) then Inl ErrDataTooLarge
     else case err of None \<Rightarrow> Inr content | Some e \<Rightarrow> Inl e)"
proof -
  have "wrap64 (maxBytes + 1) = maxBytes + 1" using assms by (intro wrap64_id) auto
  with assms show ?thesis
    by (auto simp: readRawMessage_def LimitReader_def ReadAll_def split: option.split)
qed

lemma raw_message_within_limit_witness:
  "readRawMessage (''abcd'', Some (ReadError ''reset'')) 3 = Inl ErrDataTooLarge"
  using raw_message_within_limit [of 3 "''abcd''"] by simp

text \<open>The attachments and bodies of the parts, as the parser should choose them.\<close>

definition attachment_ok :: "int \<Rightarrow> Attachment \<Rightarrow> bool" where
  "attachment_ok maxSize a \<longleftrightarrow> Attachment_SizeBytes a = int (length (Attachment_Content a)) \<and>
     Attachment_SizeBytes a \<le> maxSize \<and> Attachment_Filename a \<noteq> [] \<and> Attachment_ContentType a \<noteq> []"

lemma readAttachment_ok: "readAttachment maxSize fn ct body = Inr a \<Longrightarrow> attachment_ok maxSize a"
  by (auto simp: readAttachment_def attachment_ok_def defaultString_def split: sum.splits if_splits)

fun inline_contents :: "(nat \<Rightarrow> nat) \<Rightarrow> string \<Rightarrow> (mail_err option \<times> part) list \<Rightarrow> string list" where
  "inline_contents ul t [] = []"
| "inline_contents ul t ((err, p) # ps) =
     (case part_header p of
        InlineHeader (Inr ct) \<Rightarrow> if ToLower ul ct = t then fst (part_body p) # inline_contents ul t ps else inline_contents ul t ps
      | _ \<Rightarrow> inline_contents ul t ps)"

fun attachment_parts :: "(mail_err option \<times> part) list \<Rightarrow> string list" where
  "attachment_parts [] = []"
| "attachment_parts ((err, p) # ps) =
     (case part_header p of AttachmentHeader _ _ \<Rightarrow> fst (part_body p) # attachment_parts ps | _ \<Rightarrow> attachment_parts ps)"

definition first_nonempty :: "string list \<Rightarrow> string" where
  "first_nonempty cs = (case filter (\<lambda>c. c \<noteq> []) cs of [] \<Rightarrow> [] | c # _ \<Rightarrow> c)"

lemma first_nonempty_Cons: "first_nonempty (c # cs) = (if c = [] then first_nonempty cs else c)"
  by (simp add: first_nonempty_def)

lemma readAttachment_content:
  assumes "readAttachment maxSize fn ct body = Inr a" "0 \<le> maxSize" "maxSize < max_int64"
  shows "Attachment_Content a = fst body"
proof -
  have "wrap64 (maxSize + 1) = maxSize + 1" using assms by (intro wrap64_id) auto
  with assms show ?thesis
    by (auto simp: readAttachment_def LimitReader_def ReadAll_def split: sum.splits if_splits option.splits)
qed

lemma parse_parts_selects:
  assumes "parse_parts ul maxSize ps bt bh atts = Inr (bt', bh', atts')" "0 \<le> maxSize" "maxSize < max_int64"
  shows "bt' = first_nonempty (bt # inline_contents ul ''text/plain'' ps)
    \<and> bh' = first_nonempty (bh # inline_contents ul ''text/html'' ps)
    \<and> map Attachment_Content atts' = map Attachment_Content atts @ attachment_parts ps
    \<and> (list_all (attachment_ok maxSize) atts \<longrightarrow> list_all (attachment_ok maxSize) atts')"
  using assms
proof (induction ul maxSize ps bt bh atts rule: parse_parts.induct)
  case (1 ul maxSize bt bh atts)
  then show ?case by (auto simp: first_nonempty_def)
next
  case (2 ul maxSize err p ps bt bh atts)
  note run = "2.prems"(1) and bounds = "2.prems"(2,3)
  have ok: "\<not> fatal err" using run by (auto split: if_splits)
  show ?case
  proof (cases "part_header p")
    case (InlineHeader contentType)
    with run ok obtain ct content where c: "contentType = Inr ct" "ReadAll (part_body p) = Inr content"
      by (auto split: sum.splits)
    then have body: "fst (part_body p) = content" by (simp add: ReadAll_def split: option.splits)
    show ?thesis
      using run ok InlineHeader c body "2.IH"(1) [OF ok InlineHeader c refl] "2.IH"(2) [OF ok InlineHeader c refl]
        "2.IH"(3) [OF ok InlineHeader c refl] bounds
      by (auto simp: Let_def keep_first_def first_nonempty_Cons split: if_splits)
  next
    case (AttachmentHeader fn ct)
    with run ok obtain a where a: "readAttachment maxSize fn ct (part_body p) = Inr a"
      and rest: "parse_parts ul maxSize ps bt bh (atts @ [a]) = Inr (bt', bh', atts')"
      by (auto split: sum.splits)
    from "2.IH"(4) [OF ok AttachmentHeader a rest bounds] AttachmentHeader readAttachment_ok [OF a]
      readAttachment_content [OF a bounds]
    show ?thesis by simp
  next
    case OtherHeader
    with run ok have none: "snd (part_body p) = None" and rest: "parse_parts ul maxSize ps bt bh atts = Inr (bt', bh', atts')"
      by (auto split: option.splits)
    from "2.IH"(5) [OF ok OtherHeader none rest bounds] OtherHeader show ?thesis by simp
  qed
qed

lemma parse_parts_attachments:
  "parse_parts ul maxSize ps bt bh atts = Inr (bt', bh', atts') \<Longrightarrow> list_all (attachment_ok maxSize) atts \<Longrightarrow>
   list_all (attachment_ok maxSize) atts'"
proof (induction ul maxSize ps bt bh atts rule: parse_parts.induct)
  case (2 ul maxSize err p ps bt bh atts)
  then show ?case
    by (cases "part_header p") (auto simp: Let_def readAttachment_ok split: if_splits sum.splits option.splits)
qed simp

lemma parseMessage_Inr:
  assumes "parseMessage ul create now cfg from raw inbox = Inr (email, atts)"
  shows "parseParts ul (cfg_MaxAttachmentSize cfg) (snd (create raw)) = Inr (Email_BodyText email, Email_BodyHTML email, atts)
    \<and> Email_InboxID email = Inbox_ID inbox \<and> Email_Recipient email = Inbox_Address inbox
    \<and> Email_SizeBytes email = int (length raw) \<and> Email_HasAttachments email = (atts \<noteq> [])
    \<and> Email_Subject email \<noteq> [] \<and> Email_RawHeaders email = extractRawHeaders raw \<and> Email_ReceivedAt email = now
    \<and> \<not> Email_IsRead email \<and> \<not> fatal (fst (create raw))
    \<and> (\<exists>name. parseSender (snd (create raw)) from = Inr (Email_Sender email, name))"
  using assms
  by (auto simp: parseMessage_def Let_def defaultString_def split: prod.splits if_splits sum.splits)

text \<open>
  C29. A parsed message shows the first text and the first HTML part that are not empty, and
  keeps every attachment whole and in order, each within the attachment limit and with a name
  and a type; any attachment over the limit refuses the message.
\<close>
theorem message_bodies_and_attachments:
  assumes "parseMessage ul create now cfg from raw inbox = Inr (email, atts)"
    and "0 \<le> cfg_MaxAttachmentSize cfg" "cfg_MaxAttachmentSize cfg < max_int64"
  shows "Email_BodyText email = first_nonempty (inline_contents ul ''text/plain'' (mr_parts (snd (create raw))))
    \<and> Email_BodyHTML email = first_nonempty (inline_contents ul ''text/html'' (mr_parts (snd (create raw))))
    \<and> map Attachment_Content atts = attachment_parts (mr_parts (snd (create raw)))
    \<and> list_all (attachment_ok (cfg_MaxAttachmentSize cfg)) atts
    \<and> (\<forall>c \<in> set (attachment_parts (mr_parts (snd (create raw)))). int (length c) \<le> cfg_MaxAttachmentSize cfg)"
proof -
  have run: "parse_parts ul (cfg_MaxAttachmentSize cfg) (mr_parts (snd (create raw))) [] [] []
      = Inr (Email_BodyText email, Email_BodyHTML email, atts)"
    using parseMessage_Inr [OF assms(1)] by (simp add: parseParts_def)
  note sel = parse_parts_selects [OF run assms(2,3)]
  then have "map Attachment_Content atts = attachment_parts (mr_parts (snd (create raw)))"
    and ok: "list_all (attachment_ok (cfg_MaxAttachmentSize cfg)) atts" by simp_all
  moreover from this(1) ok have "\<forall>c \<in> set (attachment_parts (mr_parts (snd (create raw)))). int (length c) \<le> cfg_MaxAttachmentSize cfg"
    by (auto simp: list_all_iff attachment_ok_def simp flip: \<open>map Attachment_Content atts = _\<close>)
  ultimately show ?thesis using sel by (simp add: first_nonempty_Cons)
qed

definition sample_reader :: mail_reader where
  "sample_reader = \<lparr>mr_MessageID = Inr ''m1'', mr_Subject = ([], None), mr_From = Inr [(''eve@y.test'', ''Eve'')],
     mr_parts = [(None, \<lparr>part_header = InlineHeader (Inr ''text/plain''), part_body = ([], None)\<rparr>),
       (None, \<lparr>part_header = InlineHeader (Inr ''text/plain''), part_body = (''hello'', None)\<rparr>),
       (None, \<lparr>part_header = AttachmentHeader (Inr []) (Inr []), part_body = (''x'', None)\<rparr>)]\<rparr>"

lemma text_plain: "ToLower (\<lambda>n. n) ''text/plain'' = ''text/plain''"
proof -
  have "ascii ''text/plain''" by (simp add: byte_def)
  moreover have "nocase ''text/plain'' = ''text/plain''" by code_simp
  ultimately show ?thesis by (simp add: ToLower_ascii)
qed

lemma sample_parse:
  "\<exists>email atts. parseMessage (\<lambda>n. n) (\<lambda>raw. (None, sample_reader)) now default_config [] raw inbox = Inr (email, atts)"
proof -
  have w: "wrap64 (5242880 + 1) = 5242881" by (rule wrap64_id [THEN trans]) simp_all
  show ?thesis
    by (simp add: parseMessage_def fatal_def sample_reader_def parseSender_def parseParts_def default_config_def
      text_plain ReadAll_def LimitReader_def readAttachment_def keep_first_def w [simplified])
qed

lemma message_bodies_and_attachments_witness:
  "\<forall>now raw inbox. \<exists>email atts. parseMessage (\<lambda>n. n) (\<lambda>raw. (None, sample_reader)) now default_config [] raw inbox = Inr (email, atts)
    \<and> Email_BodyText email = ''hello'' \<and> map Attachment_Content atts = [''x'']"
proof (intro allI)
  fix now raw inbox
  obtain email atts where p: "parseMessage (\<lambda>n. n) (\<lambda>raw. (None, sample_reader)) now default_config [] raw inbox = Inr (email, atts)"
    using sample_parse by blast
  from message_bodies_and_attachments [OF p] p show "\<exists>email atts. parseMessage (\<lambda>n. n) (\<lambda>raw. (None, sample_reader)) now default_config [] raw inbox = Inr (email, atts)
    \<and> Email_BodyText email = ''hello'' \<and> map Attachment_Content atts = [''x'']"
    by (simp add: default_config_def sample_reader_def text_plain first_nonempty_def)
qed

section \<open>Storing\<close>

lemma Data_None:
  assumes "Data ul create now r s b d = (None, d')"
  shows "\<exists>raw inbox email atts e' atts'. readRawMessage r (cfg_MaxEmailSize (be_config b)) = Inr raw
    \<and> ses_inbox s = Some inbox \<and> ses_rcpts s \<noteq> []
    \<and> parseMessage ul create now (be_config b) (ses_from s) raw inbox = Inr (email, atts)
    \<and> SaveInboundMessage ul now email atts d = (Inr (e', atts'), d')"
  using assms by (auto simp: Data_def split: sum.splits option.splits if_splits prod.splits)

lemma Data_Some: "Data ul create now r s b d = (Some e, d') \<Longrightarrow> same_tables d d'"
  by (auto simp: Data_def dest: SaveInboundMessage_Inl split: sum.splits option.splits if_splits prod.splits)

lemma readRawMessage_bound: "readRawMessage r maxBytes = Inr raw \<Longrightarrow> int (length raw) \<le> maxBytes"
  by (auto simp: readRawMessage_def split: sum.splits if_splits)

lemma insert_attachments_ok:
  "db_faults d = [] \<Longrightarrow> e \<in> er_id ` set (db_emails d) \<Longrightarrow>
   \<exists>atts' d'. insert_attachments ul e atts d = (Inr atts', d') \<and> db_faults d' = []"
proof (induction ul e atts d rule: insert_attachments.induct)
  case (2 ul e att atts d)
  let ?d1 = "d\<lparr>db_attachments := db_attachments d @ [attachment_row_of (db_attachments_seq d + 1) e att],
      db_attachments_seq := db_attachments_seq d + 1\<rparr>"
  have ins: "insertAttachment ul (att\<lparr>Attachment_EmailID := e\<rparr>) d
      = (Inr (att\<lparr>Attachment_EmailID := e, Attachment_ID := db_attachments_seq d + 1\<rparr>), ?d1)"
    using "2.prems" by (simp add: insertAttachment_def stmt_ok insert_attachment_row_def Let_def attachment_row_of_def)
  from "2.IH" [OF ins [symmetric] refl] "2.prems" ins show ?case by (auto split: prod.split)
qed simp

lemma SaveInboundMessage_ok:
  assumes "db_faults d = []" "Email_InboxID email \<in> ir_id ` set (db_inboxes d)"
  shows "\<exists>e' atts' d'. SaveInboundMessage ul now email atts d = (Inr (e', atts'), d') \<and> db_faults d' = []"
proof -
  let ?t = "if IsZero (Email_ReceivedAt email) then now else Email_ReceivedAt email"
  let ?n = "db_emails_seq d + 1"
  let ?d1 = "d\<lparr>db_emails := db_emails d @ [email_row_of ?n ?t email], db_emails_seq := ?n\<rparr>"
  have ins: "insertEmail ul now email d = (Inr (email\<lparr>Email_ID := ?n, Email_ReceivedAt := ?t\<rparr>), ?d1)"
    using assms by (auto simp: insertEmail_def stmt_ok insert_email_row_def Let_def email_row_of_def)
  obtain atts' d' where "insert_attachments ul ?n atts ?d1 = (Inr atts', d')" "db_faults d' = []"
    using insert_attachments_ok [of ?d1 ?n ul atts] assms(1) by (auto simp: email_row_of_def)
  with ins assms(1) show ?thesis by (simp add: SaveInboundMessage_def tx_stmt_def stmt_ok)
qed

text \<open>
  C22. \<open>DATA\<close> stores the whole message or nothing, under every failure of the database: a
  refused message leaves every table as it was; an accepted one adds one unread email, for the
  inbox of the session, with the size of the raw message, which is within the limit, and all
  its attachments, each within theirs.
\<close>
theorem data_stores_message_or_nothing:
  "case Data ul create now r s b d of
     (Some e, d') \<Rightarrow> same_tables d d'
   | (None, d') \<Rightarrow> \<exists>raw inbox email atts n. readRawMessage r (cfg_MaxEmailSize (be_config b)) = Inr raw
       \<and> ses_inbox s = Some inbox \<and> parseMessage ul create now (be_config b) (ses_from s) raw inbox = Inr (email, atts)
       \<and> Email_InboxID email = Inbox_ID inbox \<and> Email_Recipient email = Inbox_Address inbox \<and> \<not> Email_IsRead email
       \<and> Email_SizeBytes email = int (length raw) \<and> Email_SizeBytes email \<le> cfg_MaxEmailSize (be_config b)
       \<and> Email_HasAttachments email = (atts \<noteq> []) \<and> list_all (attachment_ok (cfg_MaxAttachmentSize (be_config b))) atts
       \<and> same_tables (d\<lparr>db_emails := db_emails d @ [email_row_of n now email],
           db_emails_seq := n, db_attachments := db_attachments d @ attachment_rows (db_attachments_seq d) n atts,
           db_attachments_seq := db_attachments_seq d + int (length atts)\<rparr>) d'"
proof (cases "Data ul create now r s b d")
  case (Pair err d')
  show ?thesis
  proof (cases err)
    case (Some e)
    with Pair show ?thesis by (simp add: Data_Some)
  next
    case None
    then obtain raw inbox email atts e' atts' where d: "readRawMessage r (cfg_MaxEmailSize (be_config b)) = Inr raw"
      "ses_inbox s = Some inbox" "parseMessage ul create now (be_config b) (ses_from s) raw inbox = Inr (email, atts)"
      and save: "SaveInboundMessage ul now email atts d = (Inr (e', atts'), d')"
      using Data_None Pair by blast
    note p = parseMessage_Inr [OF d(3)] and st = SaveInboundMessage_Inr [OF save]
    have "Email_ReceivedAt e' = now" using st(2) p by auto
    with st(4) Pair None d p readRawMessage_bound [OF d(1)] parse_parts_attachments [of ul _ _ "[]" "[]" "[]"]
    show ?thesis by (auto simp: parseParts_def)
  qed
qed

text \<open>
  In every session that commands can lead to, accepted mail goes to the inbox of the last
  accepted recipient: without a recipient nothing is stored, and the stored email carries that
  recipient's address, up to case, and the id of an inbox that exists.
\<close>
lemma mail_goes_to_accepted_recipient:
  assumes "session_reach ul parse_address s"
  shows "case Data ul create now r s b d of
     (Some e, d') \<Rightarrow> db_emails d' = db_emails d
   | (None, d') \<Rightarrow> ses_rcpts s \<noteq> [] \<and> (\<exists>row. db_emails d' = db_emails d @ [row]
       \<and> nocase (er_recipient row) = nocase (last (ses_rcpts s)) \<and> er_inbox_id row \<in> ir_id ` set (db_inboxes d)
       \<and> map_option Inbox_ID (ses_inbox s) = Some (er_inbox_id row))"
proof (cases "Data ul create now r s b d")
  case (Pair err d')
  show ?thesis
  proof (cases err)
    case (Some e)
    with Pair Data_Some show ?thesis by (fastforce simp: same_tables_iff)
  next
    case None
    then obtain raw inbox email atts e' atts' where d: "ses_inbox s = Some inbox"
      "parseMessage ul create now (be_config b) (ses_from s) raw inbox = Inr (email, atts)"
      and save: "SaveInboundMessage ul now email atts d = (Inr (e', atts'), d')"
      using Data_None Pair by blast
    note p = parseMessage_Inr [OF d(2)] and st = SaveInboundMessage_Inr [OF save]
    have "nocase (Inbox_Address inbox) = nocase (last (ses_rcpts s))" "ses_rcpts s \<noteq> []"
      using envelope_ok_reach [OF assms] d(1) by (simp_all add: envelope_ok_def)
    with st(1,4) Pair None d p show ?thesis by (auto simp: same_tables_iff email_row_of_def)
  qed
qed

lemma sample_recipient:
  "\<exists>b' . Rcpt (\<lambda>n. n) Some 0 ''bob@x.test'' fresh_session (NewBackend default_config None) sample_db
    = (None, fresh_session\<lparr>ses_inbox := Some (scanInbox (sample_inbox 2 ''bob'' ''t2'' ''h2'')), ses_rcpts := [''bob@x.test'']\<rparr>,
       b', sample_db)"
proof -
  show ?thesis
    using Rcpt_uncached [where local_part = "''bob''" and host = "''x.test''" and parse_address = Some and to = "''bob@x.test''"
        and now = 0 and b = "NewBackend default_config None" and ul = "\<lambda>n. n" and s = fresh_session,
        OF sample_db_wf sample_db_fields(7)]
    by (simp add: byte_def is_space_def sample_names NewBackend_def domain_view_def fresh_session_def)
qed

lemma mail_goes_to_accepted_recipient_witness:
  "\<exists>s row. session_reach (\<lambda>n. n) Some s \<and> ses_rcpts s = [''bob@x.test'']
    \<and> db_emails (snd (Data (\<lambda>n. n) (\<lambda>raw. (None, sample_reader)) 0 (''raw'', None) s (NewBackend default_config None) sample_db))
      = [sample_email_row, row] \<and> er_inbox_id row = 2"
proof -
  define s where "s = fresh_session\<lparr>ses_inbox := Some (scanInbox (sample_inbox 2 ''bob'' ''t2'' ''h2'')), ses_rcpts := [''bob@x.test'']\<rparr>"
  have reach: "session_reach (\<lambda>n. n) Some s"
    using sample_recipient session_reach.rcpt [OF session_reach.start] unfolding s_def by blast
  let ?data = "Data (\<lambda>n. n) (\<lambda>raw. (None, sample_reader)) 0 (''raw'', None) s (NewBackend default_config None) sample_db"
  have "0 \<le> (10485760::int)" by simp
  have raw: "readRawMessage (''raw'', None) (cfg_MaxEmailSize (be_config (NewBackend default_config None))) = Inr ''raw''"
  proof -
    have "wrap64 (10485760 + 1) = 10485761" by (rule wrap64_id [THEN trans]) simp_all
    then show ?thesis by (simp add: readRawMessage_def ReadAll_def LimitReader_def NewBackend_def default_config_def)
  qed
  obtain email atts where p: "parseMessage (\<lambda>n. n) (\<lambda>raw. (None, sample_reader)) 0 default_config [] ''raw''
      (scanInbox (sample_inbox 2 ''bob'' ''t2'' ''h2'')) = Inr (email, atts)"
    using sample_parse by blast
  then have "Email_InboxID email = 2" using parseMessage_Inr by (fastforce simp: scanInbox_def)
  then obtain e' atts' d' where "SaveInboundMessage (\<lambda>n. n) 0 email atts sample_db = (Inr (e', atts'), d')"
    using SaveInboundMessage_ok [of sample_db email "\<lambda>n. n" 0 atts] by auto
  with p raw have "fst ?data = None" by (simp add: Data_def s_def NewBackend_def fresh_session_def)
  with mail_goes_to_accepted_recipient [OF reach, where create = "\<lambda>raw. (None, sample_reader)" and now = 0
      and r = "(''raw'', None)" and b = "NewBackend default_config None" and d = sample_db]
  obtain row where "db_emails (snd ?data) = [sample_email_row, row]" "er_inbox_id row = 2"
    by (auto simp: s_def scanInbox_def split: prod.splits)
  with reach show ?thesis by (auto simp: s_def)
qed

end
