(* ===== verification/Worker.thy ===== *)
theory Worker
  imports Repository_Accounts Config
begin

text \<open>
  \<open>internal/worker/cleanup.go\<close>: the cleanup goroutine and those who stop it. The channel \<open>done\<close> is
  nil (\<open>None\<close>), open or closed, the channel of the ticker holds at most one tick, and the
  \<open>select\<close> of the loop takes any of its cases that is ready. What the goroutine, the ticker, the
  context and the callers of \<open>Stop\<close> do are events in any order; an event that cannot happen in
  a state is \<open>None\<close>. Logging is kept as the outcome of a run. A cleanup under a cancelled context
  is one whose statements fail, which the fault schedule of the database covers.
\<close>

record CleanupWorker =
  w_interval :: int
  w_done :: "bool option"

definition NewCleanupWorker :: "int \<Rightarrow> CleanupWorker" where
  "NewCleanupWorker interval = \<lparr>w_interval = interval, w_done = Some False\<rparr>"

datatype cleanup_outcome =
    CleanupFailed go_err
  | SessionCleanupFailed go_err
  | CleanupComplete nat nat
  | NothingToClean

definition runCleanup :: "int \<Rightarrow> db \<Rightarrow> cleanup_outcome \<times> db" where
  "runCleanup now d =
     (case DeleteExpiredInboxes now d of
        (Inl e, d1) \<Rightarrow> (CleanupFailed e, d1)
      | (Inr deletedInboxes, d1) \<Rightarrow>
          (case DeleteExpiredSessions now d1 of
             (Inl e, d2) \<Rightarrow> (SessionCleanupFailed e, d2)
           | (Inr deletedSessions, d2) \<Rightarrow>
               (if 0 < deletedInboxes \<or> 0 < deletedSessions then CleanupComplete deletedInboxes deletedSessions
                else NothingToClean, d2)))"

datatype worker_phase = NotStarted | Selecting | Returned | Panicked

record worker_state =
  wk_worker :: CleanupWorker
  wk_cancelled :: bool
  wk_tick :: bool
  wk_phase :: worker_phase
  wk_db :: db

text \<open>\<open>Start\<close> up to its loop. \<open>time.NewTicker\<close> panics on an interval that is not positive.\<close>

definition Start :: "int \<Rightarrow> worker_state \<Rightarrow> worker_state" where
  "Start now s =
     (let w = wk_worker s;
          w' = (case w_done w of None \<Rightarrow> w\<lparr>w_done := Some False\<rparr> | Some _ \<Rightarrow> w) in
      s\<lparr>wk_worker := w', wk_db := snd (runCleanup now (wk_db s)),
        wk_phase := (if w_interval w' \<le> 0 then Panicked else Selecting)\<rparr>)"

definition Stop :: "CleanupWorker \<Rightarrow> CleanupWorker" where
  "Stop w =
     (case w_done w of
        None \<Rightarrow> w
      | Some closed \<Rightarrow> if closed then w else w\<lparr>w_done := Some True\<rparr>)"

datatype worker_event =
    StartCalled int
  | Ticked
  | Cancelled
  | StopCalled
  | PickCtx
  | PickDone
  | PickTick int

text \<open>The loop of \<open>Start\<close>: one round takes a case that is ready.\<close>

fun select_round :: "worker_event \<Rightarrow> worker_state \<Rightarrow> worker_state option" where
  "select_round PickCtx s = (if wk_cancelled s then Some (s\<lparr>wk_phase := Returned\<rparr>) else None)"
| "select_round PickDone s = (if w_done (wk_worker s) = Some True then Some (s\<lparr>wk_phase := Returned\<rparr>) else None)"
| "select_round (PickTick now) s =
     (if wk_tick s then Some (s\<lparr>wk_tick := False, wk_db := snd (runCleanup now (wk_db s))\<rparr>) else None)"
| "select_round ev s = None"

fun worker_next :: "worker_event \<Rightarrow> worker_state \<Rightarrow> worker_state option" where
  "worker_next (StartCalled now) s = (if wk_phase s = NotStarted then Some (Start now s) else None)"
| "worker_next Ticked s = (if wk_phase s = Selecting then Some (s\<lparr>wk_tick := True\<rparr>) else None)"
| "worker_next Cancelled s = Some (s\<lparr>wk_cancelled := True\<rparr>)"
| "worker_next StopCalled s = Some (s\<lparr>wk_worker := Stop (wk_worker s)\<rparr>)"
| "worker_next ev s = (if wk_phase s = Selecting then select_round ev s else None)"

fun worker_run :: "worker_event list \<Rightarrow> worker_state \<Rightarrow> worker_state option" where
  "worker_run [] s = Some s"
| "worker_run (ev # evs) s = (case worker_next ev s of None \<Rightarrow> None | Some s' \<Rightarrow> worker_run evs s')"

definition new_worker :: "int \<Rightarrow> db \<Rightarrow> worker_state" where
  "new_worker interval d = \<lparr>wk_worker = NewCleanupWorker interval, wk_cancelled = False, wk_tick = False,
     wk_phase = NotStarted, wk_db = d\<rparr>"

section \<open>One run\<close>

lemma DeleteExpiredInboxes_cases:
  "\<exists>fs. snd (DeleteExpiredInboxes now d) = d\<lparr>db_faults := fs\<rparr>
     \<or> snd (DeleteExpiredInboxes now d) = delete_inboxes (expired now) (d\<lparr>db_faults := fs\<rparr>)"
  unfolding DeleteExpiredInboxes_def snd_delete_count exec_count_def expired_def [abs_def]
  by (rule run_stmt_cases [of "\<lambda>d. (Inr (count_rows (\<lambda>r. ir_expires_at r \<le> toUnix now) (db_inboxes d)),
        delete_inboxes (\<lambda>r. ir_expires_at r \<le> toUnix now) d)" d]) auto

lemma DeleteExpiredSessions_cases:
  "\<exists>fs. snd (DeleteExpiredSessions now d) = d\<lparr>db_faults := fs\<rparr>
     \<or> snd (DeleteExpiredSessions now d) = d\<lparr>db_faults := fs,
          db_sessions := filter (\<lambda>r. \<not> sr_expires_at r \<le> toUnix now) (db_sessions d)\<rparr>"
  unfolding DeleteExpiredSessions_def snd_delete_count exec_count_def
  by (rule run_stmt_cases [of "\<lambda>d. (Inr (count_rows (\<lambda>r. sr_expires_at r \<le> toUnix now) (db_sessions d)),
        d\<lparr>db_sessions := filter (\<lambda>r. \<not> sr_expires_at r \<le> toUnix now) (db_sessions d)\<rparr>)" d]) auto

context expiry_store
begin

lemma runCleanup: "I d \<Longrightarrow> I (snd (runCleanup now d))"
  using DeleteExpiredInboxes DeleteExpiredSessions
  by (auto simp: runCleanup_def split: prod.split sum.split) (metis snd_conv)+

end

text \<open>What one run keeps of an inbox that has not expired: its row, messages and attachments.\<close>

definition mailbox_kept :: "inbox_row \<Rightarrow> db \<Rightarrow> db \<Rightarrow> bool" where
  "mailbox_kept r d d' \<longleftrightarrow> r \<in> set (db_inboxes d')
     \<and> filter (\<lambda>e. er_inbox_id e = ir_id r) (db_emails d') = filter (\<lambda>e. er_inbox_id e = ir_id r) (db_emails d)
     \<and> (\<forall>e \<in> set (db_emails d). er_inbox_id e = ir_id r \<longrightarrow>
          filter (\<lambda>a. ar_email_id a = er_id e) (db_attachments d') = filter (\<lambda>a. ar_email_id a = er_id e) (db_attachments d))"

lemma mailbox_kept_trans: "mailbox_kept r d d' \<Longrightarrow> mailbox_kept r d' d'' \<Longrightarrow> mailbox_kept r d d''"
proof -
  assume one: "mailbox_kept r d d'" and two: "mailbox_kept r d' d''"
  have "e \<in> set (db_emails d')" if "e \<in> set (db_emails d)" "er_inbox_id e = ir_id r" for e
  proof -
    have "e \<in> set (filter (\<lambda>e. er_inbox_id e = ir_id r) (db_emails d'))"
      using one that by (simp add: mailbox_kept_def del: set_filter) simp
    then show ?thesis by simp
  qed
  with one two show "mailbox_kept r d d''" by (simp add: mailbox_kept_def)
qed

lemma delete_inboxes_keeps:
  assumes "db_wf d" "r \<in> set (db_inboxes d)" "\<not> P r"
  shows "mailbox_kept r d (delete_inboxes P d)"
proof -
  define gone where "gone = ir_id ` set (filter P (db_inboxes d))"
  define gone_emails where "gone_emails = er_id ` set (filter (\<lambda>e. er_inbox_id e \<in> gone) (db_emails d))"
  have inj: "inj_on ir_id (set (db_inboxes d))" "inj_on er_id (set (db_emails d))"
    using assms(1) by (simp_all add: db_wf_def ids_wf_def keys_ok_def distinct_map)
  have alive: "ir_id r \<notin> gone" using inj(1) assms(2,3) by (auto simp: gone_def inj_on_def)
  then have emails: "er_id e \<notin> gone_emails" if "e \<in> set (db_emails d)" "er_inbox_id e = ir_id r" for e
    using inj(2) that by (auto simp: gone_emails_def inj_on_def)
  have "delete_inboxes P d = d\<lparr>db_emails := filter (\<lambda>e. er_inbox_id e \<notin> gone) (db_emails d),
      db_attachments := filter (\<lambda>a. ar_email_id a \<notin> gone_emails) (db_attachments d),
      db_inboxes := filter (\<lambda>r. \<not> P r) (db_inboxes d),
      db_sessions := filter (\<lambda>s. sr_inbox_id s \<notin> gone) (db_sessions d)\<rparr>"
    by (simp add: delete_inboxes_def delete_emails_def Let_def gone_def gone_emails_def)
  then show ?thesis
    using assms(2,3) alive emails by (auto simp: mailbox_kept_def intro!: filter_cong)
qed

lemma runCleanup_keeps:
  assumes "db_wf d" "r \<in> set (db_inboxes d)" "\<not> expired now r"
  shows "mailbox_kept r d (snd (runCleanup now d))"
proof -
  have refl: "mailbox_kept r d (d\<lparr>db_faults := fs\<rparr>)" for fs using assms(2) by (simp add: mailbox_kept_def)
  have drop: "mailbox_kept r d (delete_inboxes (expired now) (d\<lparr>db_faults := fs\<rparr>))" for fs
    using delete_inboxes_keeps [of "d\<lparr>db_faults := fs\<rparr>" r "expired now"] assms by (simp add: faults_wf mailbox_kept_def)
  have one: "mailbox_kept r d (snd (DeleteExpiredInboxes now d))"
    using DeleteExpiredInboxes_cases [of now d] refl drop by auto
  have two: "mailbox_kept r d (snd (DeleteExpiredSessions now d'))" if "mailbox_kept r d d'" for d'
    using DeleteExpiredSessions_cases [of now d'] that by (auto simp: mailbox_kept_def)
  show ?thesis
    using one two [OF one] by (auto simp: runCleanup_def split: prod.split sum.split)
qed

section \<open>The goroutine\<close>

text \<open>The instants of the cleanups of a run, and how many ticks it fires and receives.\<close>

fun cleanup_time :: "worker_event \<Rightarrow> int option" where
  "cleanup_time (StartCalled now) = Some now"
| "cleanup_time (PickTick now) = Some now"
| "cleanup_time ev = None"

definition cleanup_times :: "worker_event list \<Rightarrow> int list" where
  "cleanup_times = List.map_filter cleanup_time"

definition fired :: "worker_event list \<Rightarrow> nat" where
  "fired evs = length (filter (\<lambda>ev. ev = Ticked) evs)"

fun receives_tick :: "worker_event \<Rightarrow> bool" where
  "receives_tick (PickTick now) = True"
| "receives_tick ev = False"

definition received :: "worker_event list \<Rightarrow> nat" where
  "received evs = length (filter receives_tick evs)"

definition rounds :: "worker_event list \<Rightarrow> nat" where
  "rounds evs = length (filter (\<lambda>ev. ev = PickCtx \<or> ev = PickDone \<or> receives_tick ev) evs)"

lemma event_counts [simp]:
  "cleanup_times [] = []" "fired [] = 0" "received [] = 0" "rounds [] = 0"
  "cleanup_times (ev # evs) = (case cleanup_time ev of None \<Rightarrow> cleanup_times evs | Some t \<Rightarrow> t # cleanup_times evs)"
  "fired (ev # evs) = (if ev = Ticked then Suc (fired evs) else fired evs)"
  "received (ev # evs) = (if receives_tick ev then Suc (received evs) else received evs)"
  "rounds (ev # evs) = (if ev = PickCtx \<or> ev = PickDone \<or> receives_tick ev then Suc (rounds evs) else rounds evs)"
  by (simp_all add: cleanup_times_def fired_def received_def rounds_def List.map_filter_simps split: option.split)

lemma worker_run_append:
  "worker_run (xs @ ys) s = (case worker_run xs s of None \<Rightarrow> None | Some s' \<Rightarrow> worker_run ys s')"
  by (induction xs arbitrary: s) (auto split: option.split)

lemma Stop_closes: "w_done w \<noteq> None \<Longrightarrow> w_done (Stop w) = Some True"
  by (auto simp: Stop_def)

lemma Stop_idle: "w_done w = None \<Longrightarrow> Stop w = w"
  by (simp add: Stop_def)

lemma Stop_fields [simp]: "w_interval (Stop w) = w_interval w" "(w_done (Stop w) = None) = (w_done w = None)"
  by (auto simp: Stop_def split: option.split)

lemma Stop_Stop: "Stop (Stop w) = Stop w"
  by (cases "w_done w") (auto simp: Stop_def)

text \<open>What holds of a state after the events of a run.\<close>

definition worker_inv :: "int \<Rightarrow> worker_event list \<Rightarrow> worker_state \<Rightarrow> bool" where
  "worker_inv interval evs s \<longleftrightarrow> w_interval (wk_worker s) = interval
     \<and> w_done (wk_worker s) = Some (StopCalled \<in> set evs) \<and> wk_cancelled s = (Cancelled \<in> set evs)
     \<and> (wk_phase s = NotStarted \<longleftrightarrow> (\<forall>now. StartCalled now \<notin> set evs))
     \<and> (wk_phase s = Panicked \<longleftrightarrow> interval \<le> 0 \<and> (\<exists>now. StartCalled now \<in> set evs))
     \<and> (wk_phase s = Returned \<longrightarrow> Cancelled \<in> set evs \<or> StopCalled \<in> set evs)"

lemma worker_inv_new: "worker_inv interval [] (new_worker interval d)"
  by (simp add: worker_inv_def new_worker_def NewCleanupWorker_def)

lemma worker_inv_next: "worker_next ev s = Some s' \<Longrightarrow> worker_inv interval evs s \<Longrightarrow> worker_inv interval (evs @ [ev]) s'"
  by (cases ev) (auto simp: worker_inv_def Start_def Stop_def Let_def split: if_splits)

lemma worker_inv_run:
  "worker_run evs s = Some s' \<Longrightarrow> worker_inv interval before s \<Longrightarrow> worker_inv interval (before @ evs) s'"
proof (induction evs arbitrary: before s)
  case (Cons ev evs)
  then obtain s1 where "worker_next ev s = Some s1" "worker_run evs s1 = Some s'" by (auto split: option.splits)
  with Cons.IH [of s1 "before @ [ev]"] Cons.prems(2) show ?case by (simp add: worker_inv_next)
qed simp

lemma worker_run_db: "worker_run evs s = Some s' \<Longrightarrow> wk_db s' = fold (\<lambda>t d. snd (runCleanup t d)) (cleanup_times evs) (wk_db s)"
proof (induction evs arbitrary: s)
  case (Cons ev evs)
  then obtain s1 where "worker_next ev s = Some s1" "worker_run evs s1 = Some s'" by (auto split: option.splits)
  with Cons.IH [of s1] show ?case by (cases ev) (auto simp: Start_def Let_def split: if_splits)
qed simp

text \<open>A tick that is received was fired before; the channel holds one.\<close>

lemma worker_run_ticks:
  "worker_run evs s = Some s' \<Longrightarrow> received evs + of_bool (wk_tick s') \<le> fired evs + of_bool (wk_tick s)"
proof (induction evs arbitrary: s)
  case (Cons ev evs)
  then obtain s1 where "worker_next ev s = Some s1" "worker_run evs s1 = Some s'" by (auto split: option.splits)
  with Cons.IH [of s1] show ?case by (cases ev) (auto simp: Start_def Let_def split: if_splits)
qed simp

text \<open>A round that receives no tick ends the loop.\<close>

lemma worker_run_rounds:
  "worker_run evs s = Some s' \<Longrightarrow> received evs < rounds evs \<Longrightarrow> wk_phase s' = Returned"
proof -
  have stays: "worker_run es t = Some t' \<Longrightarrow> wk_phase t = Returned \<Longrightarrow> wk_phase t' = Returned" for es t t'
  proof (induction es arbitrary: t)
    case (Cons e es)
    then obtain t1 where "worker_next e t = Some t1" "worker_run es t1 = Some t'" by (auto split: option.splits)
    with Cons show ?case by (cases e) (auto split: if_splits)
  qed simp
  show "worker_run evs s = Some s' \<Longrightarrow> received evs < rounds evs \<Longrightarrow> wk_phase s' = Returned"
  proof (induction evs arbitrary: s)
    case (Cons ev evs)
    then obtain s1 where s1: "worker_next ev s = Some s1" "worker_run evs s1 = Some s'" by (auto split: option.splits)
    with Cons stays [OF s1(2)] show ?case by (cases ev) (auto split: if_splits)
  qed simp
qed

lemma cleanups_keep:
  "db_wf d \<Longrightarrow> r \<in> set (db_inboxes d) \<Longrightarrow> list_all (\<lambda>t. \<not> expired t r) ts \<Longrightarrow>
   mailbox_kept r d (fold (\<lambda>t d. snd (runCleanup t d)) ts d)"
proof (induction ts arbitrary: d)
  case (Cons t ts)
  then have k: "mailbox_kept r d (snd (runCleanup t d))" by (intro runCleanup_keeps) simp_all
  with Cons have "mailbox_kept r (snd (runCleanup t d)) (fold (\<lambda>t d. snd (runCleanup t d)) ts (snd (runCleanup t d)))"
    by (intro Cons.IH) (auto simp: mailbox_kept_def wf.runCleanup)
  with k show ?case by (auto intro: mailbox_kept_trans)
qed (simp add: mailbox_kept_def)

text \<open>
  The goroutine never touches a mailbox that has not expired: whatever statements fail and
  however often it runs, an inbox whose expiry lies after every cleanup keeps its row, all its
  messages and all their attachments.
\<close>
lemma cleanup_keeps_live_mailboxes:
  assumes "worker_run evs s = Some s'" "db_wf (wk_db s)" "r \<in> set (db_inboxes (wk_db s))"
    and "list_all (\<lambda>t. \<not> expired t r) (cleanup_times evs)"
  shows "mailbox_kept r (wk_db s) (wk_db s')"
  using cleanups_keep [OF assms(2-4)] worker_run_db [OF assms(1)] by simp

text \<open>
  C26. The worker stops when it is told to, and only then. For every order of the start, the
  ticks, the calls of \<open>Stop\<close>, the cancellation and the rounds of the loop: it cleans at the start
  and at every tick it receives, and at no other time; it returns only after a cancellation or a
  \<open>Stop\<close>; once there was one - before the start or in the loop, once or several times - the loop
  never blocks again, a round that ends it is always ready, and it can put off its return only by
  one tick that was waiting and those that fire later, so that after that many rounds and one more
  it has returned. Until then, with no tick to receive, no round is ready: it does not spin.
  With an interval that is not positive it panics at the start, after the first cleanup.
\<close>
theorem worker_runs_until_stopped:
  assumes "worker_run evs (new_worker interval d) = Some s"
  shows "wk_db s = fold (\<lambda>t d. snd (runCleanup t d)) (cleanup_times evs) d
    \<and> (wk_phase s = Returned \<longrightarrow> Cancelled \<in> set evs \<or> StopCalled \<in> set evs)
    \<and> (wk_phase s = Selecting \<and> (Cancelled \<in> set evs \<or> StopCalled \<in> set evs) \<longrightarrow>
         (\<exists>ev \<in> {PickCtx, PickDone}. map_option wk_phase (worker_next ev s) = Some Returned))
    \<and> (\<forall>before after. evs = before @ after \<and> (Cancelled \<in> set before \<or> StopCalled \<in> set before) \<longrightarrow>
         received after \<le> Suc (fired after) \<and> (Suc (fired after) < rounds after \<longrightarrow> wk_phase s = Returned))
    \<and> (Cancelled \<notin> set evs \<and> StopCalled \<notin> set evs \<and> \<not> wk_tick s \<longrightarrow> (\<forall>ev. select_round ev s = None))
    \<and> (wk_phase s = Panicked \<longleftrightarrow> interval \<le> 0 \<and> (\<exists>now. StartCalled now \<in> set evs))"
proof -
  have inv: "worker_inv interval evs s" using worker_inv_run [OF assms worker_inv_new] by simp
  have late: "received after \<le> Suc (fired after) \<and> (Suc (fired after) < rounds after \<longrightarrow> wk_phase s = Returned)"
    if evs: "evs = before @ after" for before after
  proof -
    obtain t where t: "worker_run after t = Some s" using assms evs by (auto simp: worker_run_append split: option.splits)
    have "received after \<le> Suc (fired after)" using worker_run_ticks [OF t] by (cases "wk_tick t") simp_all
    with worker_run_rounds [OF t] show ?thesis by simp
  qed
  have blocked: "select_round ev s = None" if "Cancelled \<notin> set evs" "StopCalled \<notin> set evs" "\<not> wk_tick s" for ev
    using inv that by (cases ev) (simp_all add: worker_inv_def)
  have "wk_db s = fold (\<lambda>t d. snd (runCleanup t d)) (cleanup_times evs) d"
    using worker_run_db [OF assms] by (simp add: new_worker_def)
  then show ?thesis using inv late blocked by (auto simp: worker_inv_def)
qed

lemma worker_runs_until_stopped_witness:
  "\<exists>s. worker_run [StartCalled 0, Ticked, StopCalled, Ticked, PickTick (5 * time_Second)] (new_worker time_Second sample_db) = Some s
     \<and> wk_phase s = Selecting \<and> (\<exists>ev \<in> {PickCtx, PickDone}. map_option wk_phase (worker_next ev s) = Some Returned)"
proof -
  obtain s where s: "worker_run [StartCalled 0, Ticked, StopCalled, Ticked, PickTick (5 * time_Second)] (new_worker time_Second sample_db) = Some s"
    and p: "wk_phase s = Selecting"
    by (simp add: Start_def new_worker_def NewCleanupWorker_def Let_def)
  from worker_runs_until_stopped [OF s] p have "\<exists>ev \<in> {PickCtx, PickDone}. map_option wk_phase (worker_next ev s) = Some Returned"
    by (meson list.set_intros)
  with s p show ?thesis by blast
qed

end
