(* ===== verification/Server_Main.thy ===== *)
theory Server_Main
  imports Admin_Spec Smtp_Spec Worker
begin

text \<open>
  \<open>cmd/server\<close>: how the process starts and how it ends. Opening the database file is a
  parameter, as are the operations on file names and template files; log lines are the
  outcomes of \<open>seedDomain\<close> and \<open>logAdminStatus\<close>. The two server goroutines are what they
  deliver on the channel of server errors, and receiving from a channel on which nothing more
  comes never returns, which is the value \<open>None\<close>.
\<close>

section \<open>Start\<close>

datatype seed_outcome = Seeded | NoEnabledDomain | DomainsPresent

definition seedDomain :: "(nat \<Rightarrow> nat) \<Rightarrow> int \<Rightarrow> string \<Rightarrow> db \<Rightarrow> seed_outcome result \<times> db" where
  "seedDomain ul now seed d =
     (case ListDomains False d of
        (Inl e, d1) \<Rightarrow> (Inl e, d1)
      | (Inr domains, d1) \<Rightarrow>
          if domains = [] \<and> seed \<noteq> [] then
            (case CreateDomain ul now seed d1 of
               (Inl e, d2) \<Rightarrow> (if \<not> err_is e ErrConflict then Inl e else Inr Seeded, d2)
             | (Inr _, d2) \<Rightarrow> (Inr Seeded, d2))
          else (case ListDomains True d1 of
               (Inl e, d2) \<Rightarrow> (Inl e, d2)
             | (Inr enabled, d2) \<Rightarrow> (Inr (if enabled = [] then NoEnabledDomain else DomainsPresent), d2)))"

datatype admin_status = AdminDisabled | AdminPasswordNotSet | AdminReadFailed go_err | AdminConfigured

definition logAdminStatus :: "string \<Rightarrow> db \<Rightarrow> admin_status \<times> db" where
  "logAdminStatus adminUsername d =
     (if adminUsername = [] then (AdminDisabled, d)
      else case GetSetting AdminPasswordHashKey d of
        (Inl e, d1) \<Rightarrow> (if err_is e ErrNotFound then AdminPasswordNotSet else AdminReadFailed e, d1)
      | (Inr _, d1) \<Rightarrow> (AdminConfigured, d1))"

definition web_options :: "Config \<Rightarrow> Options" where
  "web_options cfg = \<lparr>opt_DefaultDomain = cfg_Domain cfg, opt_CookieSecure = cfg_CookieSecure cfg,
     opt_SessionTTL = cfg_SessionTTL cfg, opt_BcryptCost = cfg_BcryptCost cfg, opt_AdminUsername = cfg_AdminUsername cfg\<rparr>"

record running =
  run_options :: Options
  run_site :: site
  run_smtp :: smtp_server
  run_worker :: CleanupWorker

datatype start_error = ConfigErrors "go_err list" | StartError go_err

text \<open>\<open>run\<close> up to the start of the goroutines.\<close>

definition start_server :: "(nat \<Rightarrow> nat) \<Rightarrow> (string \<Rightarrow> string \<Rightarrow> db result) \<Rightarrow> (string \<Rightarrow> string \<Rightarrow> string) \<Rightarrow> (string \<Rightarrow> string)
    \<Rightarrow> (string list \<Rightarrow> 'a result) \<Rightarrow> int \<Rightarrow> env \<Rightarrow> start_error + running" where
  "start_server ul open_repo join dirname parse now env =
     (case Load ul env of
        Inl errs \<Rightarrow> Inl (ConfigErrors errs)
      | Inr cfg \<Rightarrow>
          let inboxCreateLimiter = NewFixedWindowLimiter (cfg_InboxCreateLimitPerHour cfg) time_Hour;
              smtpConnectionLimiter = NewFixedWindowLimiter (cfg_SMTPConnectionLimitPerMin cfg) time_Minute in
          case open_repo (cfg_DatabasePath cfg) (cfg_MigrationsDir cfg) of
            Inl e \<Rightarrow> Inl (StartError e)
          | Inr d \<Rightarrow>
              (case seedDomain ul now (cfg_Domain cfg) d of
                 (Inl e, d1) \<Rightarrow> Inl (StartError e)
               | (Inr _, d1) \<Rightarrow>
                   let d2 = snd (logAdminStatus (cfg_AdminUsername cfg) d1) in
                   case RegisterRoutes join dirname parse ''templates'' (Some inboxCreateLimiter) d2 of
                     Inl e \<Rightarrow> Inl (StartError e)
                   | Inr (_, _, st) \<Rightarrow> Inr \<lparr>run_options = web_options cfg, run_site = st,
                       run_smtp = NewServer cfg (Some smtpConnectionLimiter),
                       run_worker = NewCleanupWorker (cfg_CleanupInterval cfg)\<rparr>))"

section \<open>End\<close>

text \<open>What the goroutine of a server delivers on the channel when \<open>ListenAndServe\<close> returns \<open>err\<close>: an error,
  unless it only says that the server was closed.\<close>

definition server_outcome :: "go_err \<Rightarrow> go_err option \<Rightarrow> go_err option" where
  "server_outcome closed err =
     (case err of None \<Rightarrow> None | Some e \<Rightarrow> if \<not> err_is e closed then Some e else None)"

text \<open>The status of the process: \<open>main\<close> exits with 1 on an error of \<open>run\<close>.\<close>

definition exit_status :: "go_err option \<Rightarrow> int" where
  "exit_status err = (if err \<noteq> None then 1 else 0)"

text \<open>The select of \<open>run\<close>: a signal, or the first value on the channel of server errors.\<close>

datatype ending = SignalReceived | ServerEnded "go_err option"

datatype shutdown_call = StopSignals | ShutdownSmtp | ShutdownHttp | StopWorker

text \<open>The last loop of \<open>run\<close>: \<open>n\<close> receives from a channel that will deliver \<open>ch\<close>.\<close>

fun collect :: "nat \<Rightarrow> go_err option list \<Rightarrow> go_err option \<Rightarrow> go_err option option" where
  "collect 0 ch firstErr = Some firstErr"
| "collect (Suc n) [] firstErr = None"
| "collect (Suc n) (e # ch) firstErr = collect n ch (if e \<noteq> None \<and> firstErr = None then e else firstErr)"

definition shutdownServers :: "go_err \<Rightarrow> shutdown_call list \<times> go_err" where
  "shutdownServers cause = ([ShutdownSmtp, ShutdownHttp], cause)"

text \<open>\<open>smtp\<close> and \<open>http\<close> are the errors of the two \<open>Shutdown\<close> calls, with the error for a
  server that is already closed left out. The result is the calls made and what \<open>run\<close> returns.\<close>

definition finish_run :: "ending \<Rightarrow> go_err option \<Rightarrow> go_err option \<Rightarrow> go_err option list
    \<Rightarrow> shutdown_call list \<times> go_err option option" where
  "finish_run e smtp http ch =
     (let first = (case e of SignalReceived \<Rightarrow> [] | ServerEnded _ \<Rightarrow> [StopSignals]) in
      case e of
        ServerEnded (Some err) \<Rightarrow> (case shutdownServers err of (calls, cause) \<Rightarrow> (first @ calls, Some (Some cause)))
      | _ \<Rightarrow>
          if smtp \<noteq> None then (first @ [ShutdownSmtp], Some smtp)
          else if http \<noteq> None then (first @ [ShutdownSmtp, ShutdownHttp], Some http)
          else (first @ [ShutdownSmtp, ShutdownHttp, StopWorker], collect 2 ch None))"

lemmas start_defs = start_server_def web_options_def NewServer_def NewBackend_def NewCleanupWorker_def

section \<open>Seeding\<close>

lemma ListDomains_ok:
  "db_faults d = [] \<Longrightarrow> ListDomains enabled d = (Inr (map scanDomain (sort_key (\<lambda>r. (dr_created_at r, dr_id r))
     (filter (\<lambda>r. enabled \<longrightarrow> dr_enabled r = 1) (db_domains d)))), d)"
  by (simp add: ListDomains_def query_def stmt_ok)

lemma sort_key_Nil: "sort_key f xs = [] \<longleftrightarrow> xs = []"
  by (metis length_0_conv length_sort)

lemma seedDomain_rows:
  "db_faults d = [] \<Longrightarrow> db_domains d \<noteq> [] \<or> seed = [] \<Longrightarrow>
   seedDomain ul now seed d = (Inr (if filter (\<lambda>r. dr_enabled r = 1) (db_domains d) = [] then NoEnabledDomain else DomainsPresent), d)"
  by (auto simp: seedDomain_def ListDomains_ok sort_key_Nil)

lemma CreateDomain_faults: "db_faults d = [] \<Longrightarrow> db_faults (snd (CreateDomain ul now name d)) = []"
  by (auto simp: CreateDomain_def stmt_ok insert_domain_def Let_def scan_one_def split: prod.split sum.split list.split)

text \<open>
  C38. Seeding happens once: on a database without domains the configured domain becomes the
  only one, enabled, in lower case and without surrounding white space; when there are domains,
  or none is configured, nothing changes, so a restart never brings back or enables a domain
  that the admin removed from service.
\<close>
theorem seeding_happens_once:
  assumes "db_wf d" "db_faults d = []" "ascii seed"
  shows "case seedDomain ul now seed d of (res, d') \<Rightarrow>
    (if db_domains d = [] \<and> seed \<noteq> [] then res = Inr Seeded \<and> domain_view d' = [nocase (TrimSpace seed) \<mapsto> True]
     else d' = d \<and> res = Inr (if filter (\<lambda>r. dr_enabled r = 1) (db_domains d) = [] then NoEnabledDomain else DomainsPresent))
    \<and> (\<forall>later. snd (seedDomain ul later seed d') = d')"
proof (cases "db_domains d = [] \<and> seed \<noteq> []")
  case True
  let ?k = "nocase (TrimSpace seed)"
  obtain res d' where c: "CreateDomain ul now seed d = (res, d')" by fastforce
  have empty: "domain_view d = Map.empty" using True by (auto simp: domain_view_def)
  with domain_view_create [OF assms, of ul now] c obtain dom where
    dom: "res = Inr dom" "domain_view d' = [?k \<mapsto> True]" by auto
  then have "db_domains d' \<noteq> []" by (auto simp: domain_view_def fun_eq_iff split: if_splits)
  moreover have "db_faults d' = []" using CreateDomain_faults [OF assms(2), of ul now seed] c by simp
  ultimately have "snd (seedDomain ul later seed d') = d'" for later by (simp add: seedDomain_rows)
  moreover have "seedDomain ul now seed d = (Inr Seeded, d')"
    using True assms(2) c dom by (simp add: seedDomain_def ListDomains_ok)
  ultimately show ?thesis using True dom by simp
next
  case False
  then show ?thesis using seedDomain_rows [OF assms(2), of seed] by auto
qed

lemma seeding_happens_once_witness:
  "snd (seedDomain (\<lambda>n. n) 9 ''new.test'' sample_db) = sample_db"
  using seeding_happens_once [OF sample_db_wf, of "''new.test''" "\<lambda>n. n" 9]
  by (simp add: case_prod_beta byte_def)

section \<open>Shutting down\<close>

text \<open>
  C39. The process ends, with one exception. Each server delivers one value when it ends, so
  after a signal two are still to come and after a server has ended by itself one. After a signal
  and two orderly shutdowns the worker is stopped and the status is 0 unless a server had failed
  for another reason than being closed; a server that failed by itself brings the process down
  with its error and status 1; but when a server ended by itself without an error and both
  shutdowns succeed, the last loop waits for a second value that never comes.
\<close>
theorem run_ends_but_for_one_case:
  fixes e :: ending and smtp http :: "go_err option" and closed :: go_err and errs :: "go_err option list"
  assumes "length errs = (case e of SignalReceived \<Rightarrow> 2 | ServerEnded _ \<Rightarrow> 1)"
  defines "res \<equiv> finish_run e smtp http (map (server_outcome closed) errs)"
  shows "(snd res = None \<longleftrightarrow> e = ServerEnded None \<and> smtp = None \<and> http = None)
    \<and> (e = SignalReceived \<and> smtp = None \<and> http = None \<longrightarrow> fst res = [ShutdownSmtp, ShutdownHttp, StopWorker]
         \<and> map_option exit_status (snd res) = Some (if \<exists>err \<in> set errs. \<exists>x. err = Some x \<and> \<not> err_is x closed then 1 else 0))
    \<and> (\<forall>err. e = ServerEnded (Some err) \<longrightarrow> res = ([StopSignals, ShutdownSmtp, ShutdownHttp], Some (Some err))
         \<and> map_option exit_status (snd res) = Some 1)"
proof (cases e)
  case SignalReceived
  with assms obtain a b where "errs = [a, b]" by (auto simp: length_Suc_conv numeral_2_eq_2)
  with SignalReceived show ?thesis
    by (cases a; cases b) (auto simp: res_def finish_run_def numeral_2_eq_2 server_outcome_def exit_status_def)
next
  case (ServerEnded r)
  with assms obtain a where "errs = [a]" by (auto simp: length_Suc_conv)
  with ServerEnded show ?thesis
    by (cases r) (auto simp: res_def finish_run_def shutdownServers_def numeral_2_eq_2 Let_def exit_status_def)
qed

lemma run_ends_but_for_one_case_witness:
  "snd (finish_run (ServerEnded None) None None (map (server_outcome (ErrText ''closed'')) [None])) = None
   \<and> map_option exit_status (snd (finish_run SignalReceived None None
       (map (server_outcome (ErrText ''closed'')) [Some (ErrText ''closed''), Some (ErrText ''e'')]))) = Some 1"
  using run_ends_but_for_one_case [of "[None]" "ServerEnded None" None None "ErrText ''closed''"]
    run_ends_but_for_one_case [of "[Some (ErrText ''closed''), Some (ErrText ''e'')]" SignalReceived None None "ErrText ''closed''"]
  by simp

section \<open>The state after the start\<close>

lemma logAdminStatus_same: "same_tables d (snd (logAdminStatus name d))"
proof -
  obtain g d1 where "GetSetting AdminPasswordHashKey d = (g, d1)" by fastforce
  then show ?thesis using reads_same(7) [of d AdminPasswordHashKey] by (auto simp: logAdminStatus_def split: sum.split)
qed

context domain_store
begin

lemma ListDomains_eq: "ListDomains enabled d = (res, d') \<Longrightarrow> I d' = I d"
  using reads(8) [of enabled d] by simp

lemma seedDomain: "I d \<Longrightarrow> I (snd (seedDomain ul now seed d))"
  by (auto simp: seedDomain_def dest!: ListDomains_eq domain_updates_eq(1) split: prod.split sum.split)

end

text \<open>What a server that started has: its site on a well-formed database, no admin session, and one
  configuration for both servers, which is valid.\<close>

lemma start_server_Inr:
  assumes "start_server ul open_repo join dirname parse now env = Inr r" "\<forall>p m d. open_repo p m = Inr d \<longrightarrow> db_wf d"
  shows "db_wf (site_db (run_site r))" "site_admin (run_site r) = Map.empty"
    "\<exists>cfg. Load ul env = Inr cfg \<and> run_options r = web_options cfg \<and> run_smtp r = NewServer cfg
       (Some (NewFixedWindowLimiter (cfg_SMTPConnectionLimitPerMin cfg) time_Minute))
       \<and> site_limiter (run_site r) = Some (NewFixedWindowLimiter (cfg_InboxCreateLimitPerHour cfg) time_Hour)
       \<and> run_worker r = NewCleanupWorker (cfg_CleanupInterval cfg)"
proof -
  obtain cfg d d1 sd ts dir st where start: "Load ul env = Inr cfg" "open_repo (cfg_DatabasePath cfg) (cfg_MigrationsDir cfg) = Inr d"
    "seedDomain ul now (cfg_Domain cfg) d = (Inr sd, d1)"
    "RegisterRoutes join dirname parse ''templates'' (Some (NewFixedWindowLimiter (cfg_InboxCreateLimitPerHour cfg) time_Hour))
       (snd (logAdminStatus (cfg_AdminUsername cfg) d1)) = Inr (ts, dir, st)"
    "r = \<lparr>run_options = web_options cfg, run_site = st, run_smtp = NewServer cfg
       (Some (NewFixedWindowLimiter (cfg_SMTPConnectionLimitPerMin cfg) time_Minute)), run_worker = NewCleanupWorker (cfg_CleanupInterval cfg)\<rparr>"
    using assms(1) by (auto simp: start_server_def Let_def split: sum.splits prod.splits)
  have "db_wf d1" using wf.seedDomain [of d ul now "cfg_Domain cfg"] start(2,3) assms(2) by simp
  then have wf: "db_wf (snd (logAdminStatus (cfg_AdminUsername cfg) d1))"
    using wf.same [OF logAdminStatus_same] by blast
  have st: "st = \<lparr>site_db = snd (logAdminStatus (cfg_AdminUsername cfg) d1),
      site_limiter = Some (NewFixedWindowLimiter (cfg_InboxCreateLimitPerHour cfg) time_Hour), site_admin = newAdminSessionStore\<rparr>"
    using start(4) by (auto simp: RegisterRoutes_def split: sum.splits)
  show "db_wf (site_db (run_site r))" "site_admin (run_site r) = Map.empty"
    using wf st start(5) by (simp_all add: newAdminSessionStore_def)
  show "\<exists>cfg. Load ul env = Inr cfg \<and> run_options r = web_options cfg \<and> run_smtp r = NewServer cfg
       (Some (NewFixedWindowLimiter (cfg_SMTPConnectionLimitPerMin cfg) time_Minute))
       \<and> site_limiter (run_site r) = Some (NewFixedWindowLimiter (cfg_InboxCreateLimitPerHour cfg) time_Hour)
       \<and> run_worker r = NewCleanupWorker (cfg_CleanupInterval cfg)"
    using start(1,5) st by (intro exI [of _ cfg]) simp
qed

end
