(* ===== verification/System.thy ===== *)
theory System
  imports Server_Main
begin

text \<open>
  The running service: the process that \<open>run\<close> starts, its open SMTP sessions, and the events
  that reach it. A request, an SMTP command and a run of the cleanup are one step each, so
  steps of different goroutines follow each other in any order but do not overlap, with one
  exception: a first setup of the admin password, which hashes for a long time between its check
  and its store, can also be two steps with anything between them, other setups included. What a
  failing database does is a change of the fault schedule between two steps. A restart ends all
  sessions and half-done setups and starts again on the same tables. The SMTP commands come in any order, whatever
  order go-smtp would enforce.
\<close>

section \<open>States and events\<close>

record outside =
  o_ext :: ext
  o_parse_address :: "string \<Rightarrow> string option"
  o_create :: create_reader
  o_join :: "string \<Rightarrow> string \<Rightarrow> string"
  o_dirname :: "string \<Rightarrow> string"
  o_parse :: "string list \<Rightarrow> unit result"

record system =
  sys_run :: running
  sys_sessions :: "nat \<Rightarrow> SmtpSession option"
  sys_setups :: "nat \<Rightarrow> (request \<times> response_writer \<times> string) option"

abbreviation sys_site :: "system \<Rightarrow> site" where "sys_site s \<equiv> run_site (sys_run s)"
abbreviation sys_db :: "system \<Rightarrow> db" where "sys_db s \<equiv> site_db (sys_site s)"
abbreviation sys_backend :: "system \<Rightarrow> Backend" where "sys_backend s \<equiv> srv_backend (run_smtp (sys_run s))"
abbreviation sys_options :: "system \<Rightarrow> Options" where "sys_options s \<equiv> run_options (sys_run s)"

definition with_site :: "site \<Rightarrow> system \<Rightarrow> system" where
  "with_site st s = s\<lparr>sys_run := (sys_run s)\<lparr>run_site := st\<rparr>\<rparr>"

definition with_db :: "db \<Rightarrow> system \<Rightarrow> system" where
  "with_db d s = with_site ((sys_site s)\<lparr>site_db := d\<rparr>) s"

definition with_backend :: "Backend \<Rightarrow> system \<Rightarrow> system" where
  "with_backend b s = s\<lparr>sys_run := (sys_run s)\<lparr>run_smtp := (run_smtp (sys_run s))\<lparr>srv_backend := b\<rparr>\<rparr>\<rparr>"

definition with_session :: "nat \<Rightarrow> SmtpSession option \<Rightarrow> system \<Rightarrow> system" where
  "with_session n ses s = s\<lparr>sys_sessions := (sys_sessions s)(n := ses)\<rparr>"

definition with_setup :: "nat \<Rightarrow> (request \<times> response_writer \<times> string) option \<Rightarrow> system \<Rightarrow> system" where
  "with_setup n p s = s\<lparr>sys_setups := (sys_setups s)(n := p)\<rparr>"

text \<open>The request and the response as the handler of a route gets them, when no middleware has answered.\<close>

definition reaches_handler :: "ext \<Rightarrow> request \<Rightarrow> (request \<times> response_writer) option" where
  "reaches_handler x r = fst (wrapHTTP (x_uf x) (x_url_parse x) None (\<lambda>r' w. (Some (r', w), w)) r new_writer)"

lemma with_simps [simp]:
  "sys_site (with_site st s) = st" "sys_backend (with_site st s) = sys_backend s" "sys_options (with_site st s) = sys_options s"
  "sys_sessions (with_site st s) = sys_sessions s"
  "sys_site (with_db d s) = (sys_site s)\<lparr>site_db := d\<rparr>" "sys_backend (with_db d s) = sys_backend s"
  "sys_options (with_db d s) = sys_options s" "sys_sessions (with_db d s) = sys_sessions s"
  "sys_site (with_backend b s) = sys_site s" "sys_backend (with_backend b s) = b" "sys_options (with_backend b s) = sys_options s"
  "sys_sessions (with_backend b s) = sys_sessions s"
  "sys_run (with_session n ses s) = sys_run s" "sys_sessions (with_session n ses s) = (sys_sessions s)(n := ses)"
  "sys_setups (with_site st s) = sys_setups s" "sys_setups (with_db d s) = sys_setups s"
  "sys_setups (with_backend b s) = sys_setups s" "sys_setups (with_session n ses s) = sys_setups s"
  "sys_run (with_setup n p s) = sys_run s" "sys_sessions (with_setup n p s) = sys_sessions s"
  "sys_setups (with_setup n p s) = (sys_setups s)(n := p)"
  by (simp_all add: with_site_def with_db_def with_backend_def with_session_def with_setup_def)

text \<open>An event carries the instant and the draws it uses, and the answer it got.\<close>

datatype event =
    HttpRequest draws request response_writer
  | SmtpConnect nat int "string option option option" "smtp_err option"
  | SmtpMail nat string
  | SmtpRcpt nat int string "smtp_err option"
  | SmtpData nat int stream "smtp_err option"
  | SmtpReset nat
  | SmtpQuit nat
  | SetupChecked nat request
  | SetupStored nat draws response_writer
  | CleanupRun int cleanup_outcome
  | Faults "string option list"
  | Restart int env

inductive sys_step :: "outside \<Rightarrow> event \<Rightarrow> system \<Rightarrow> system \<Rightarrow> bool" for out where
  http: "serve (o_ext out) (sys_options s) dr r (sys_site s) = (st, w) \<Longrightarrow>
    sys_step out (HttpRequest dr r w) s (with_site st s)"
| connect: "sys_sessions s n = None \<Longrightarrow> NewSession now conn (sys_backend s) = (Inr ses, b) \<Longrightarrow>
    sys_step out (SmtpConnect n now conn None) s (with_session n (Some ses) (with_backend b s))"
| turned_away: "sys_sessions s n = None \<Longrightarrow> NewSession now conn (sys_backend s) = (Inl e, b) \<Longrightarrow>
    sys_step out (SmtpConnect n now conn (Some e)) s (with_backend b s)"
| mail: "sys_sessions s n = Some ses \<Longrightarrow> sys_step out (SmtpMail n from) s (with_session n (Some (Mail from ses)) s)"
| rcpt: "sys_sessions s n = Some ses \<Longrightarrow>
    Rcpt (x_ul (o_ext out)) (o_parse_address out) now to ses (sys_backend s) (sys_db s) = (err, ses', b, d) \<Longrightarrow>
    sys_step out (SmtpRcpt n now to err) s (with_session n (Some ses') (with_backend b (with_db d s)))"
| data: "sys_sessions s n = Some ses \<Longrightarrow>
    Data (x_ul (o_ext out)) (o_create out) now r ses (sys_backend s) (sys_db s) = (err, d) \<Longrightarrow>
    sys_step out (SmtpData n now r err) s (with_db d s)"
| reset: "sys_sessions s n = Some ses \<Longrightarrow> sys_step out (SmtpReset n) s (with_session n (Some (Reset ses)) s)"
| quit: "sys_sessions s n = Some ses \<Longrightarrow> Logout ses = None \<Longrightarrow> sys_step out (SmtpQuit n) s (with_session n None s)"
| checked: "sys_setups s n = None \<Longrightarrow> reaches_handler (o_ext out) r = Some (r', w) \<Longrightarrow> find_route r' = AdminSetup \<Longrightarrow>
    setup_check (o_ext out) (sys_options s) r' (sys_db s) w = (Inr password, d) \<Longrightarrow>
    sys_step out (SetupChecked n r) s (with_setup n (Some (r', w, password)) (with_db d s))"
| stored: "sys_setups s n = Some (r', w, password) \<Longrightarrow>
    setup_commit (o_ext out) (sys_options s) dr r' password (site_admin (sys_site s)) (sys_db s) w = (adm, d, w') \<Longrightarrow>
    sys_step out (SetupStored n dr (finish w')) s
      (with_setup n None (with_site ((sys_site s)\<lparr>site_db := d, site_admin := adm\<rparr>) s))"
| cleanup: "runCleanup now (sys_db s) = (res, d) \<Longrightarrow> sys_step out (CleanupRun now res) s (with_db d s)"
| faults: "sys_step out (Faults fs) s (with_db ((sys_db s)\<lparr>db_faults := fs\<rparr>) s)"
| restart: "same_tables (sys_db s) d \<Longrightarrow>
    start_server (x_ul (o_ext out)) (\<lambda>_ _. Inr d) (o_join out) (o_dirname out) (o_parse out) now env = Inr R \<Longrightarrow>
    sys_step out (Restart now env) s \<lparr>sys_run = R, sys_sessions = Map.empty, sys_setups = Map.empty\<rparr>"

inductive_cases sys_step_http: "sys_step out (HttpRequest dr r w) s s'"
inductive_cases sys_step_data: "sys_step out (SmtpData n now r err) s s'"
inductive_cases sys_step_cleanup: "sys_step out (CleanupRun now res) s s'"

text \<open>Runs, with their events in order.\<close>

inductive sys_run_to :: "outside \<Rightarrow> system \<Rightarrow> event list \<Rightarrow> system \<Rightarrow> bool" for out where
  none: "sys_run_to out s [] s"
| more: "sys_step out ev s s' \<Longrightarrow> sys_run_to out s' evs s'' \<Longrightarrow> sys_run_to out s (ev # evs) s''"

inductive_simps sys_run_to_simps: "sys_run_to out s [] s'" "sys_run_to out s (ev # evs) s'"

text \<open>A process that has just started on a well-formed database.\<close>

definition booted :: "outside \<Rightarrow> system \<Rightarrow> bool" where
  "booted out s \<longleftrightarrow> (\<exists>d now env R. db_wf d
     \<and> start_server (x_ul (o_ext out)) (\<lambda>_ _. Inr d) (o_join out) (o_dirname out) (o_parse out) now env = Inr R
     \<and> s = \<lparr>sys_run = R, sys_sessions = Map.empty, sys_setups = Map.empty\<rparr>)"

lemma sys_run_induct:
  assumes "sys_run_to out s evs s'" "Q s" "\<And>ev s s'. ev \<in> set evs \<Longrightarrow> sys_step out ev s s' \<Longrightarrow> Q s \<Longrightarrow> Q s'"
  shows "Q s'"
  using assms by (induction rule: sys_run_to.induct) auto

section \<open>What the steps keep of the database\<close>

text \<open>The tables after a start are those of the database file, but for the seed.\<close>

lemma start_server_db:
  assumes "start_server ul (\<lambda>_ _. Inr d) join dirname parse now env = Inr R"
  shows "\<exists>seed sd d1. seedDomain ul now seed d = (Inr sd, d1) \<and> same_tables d1 (site_db (run_site R))"
  using assms logAdminStatus_same
  by (auto simp: start_server_def Let_def RegisterRoutes_def split: sum.splits prod.splits) blast

context store_frame
begin

lemma Rcpt_keeps: "Rcpt ul pa now to ses b d = (err, ses', b', d') \<Longrightarrow> I d' = I d"
  using same [OF Rcpt_same [of d ul pa now to ses b]] by simp

end

context delivery_store
begin

lemma Data_keeps: "Data ul create now r ses b d = (err, d') \<Longrightarrow> I d \<Longrightarrow> I d'"
  using SaveInboundMessage [of d]
  by (auto simp: Data_def split: sum.splits option.splits prod.splits if_splits) (metis snd_conv)+

end

context domain_store
begin

lemma start_keeps:
  "start_server ul (\<lambda>_ _. Inr d) join dirname parse now env = Inr R \<Longrightarrow> I d \<Longrightarrow> I (site_db (run_site R))"
  using seedDomain [of d ul now] by (auto dest!: start_server_db) (metis same snd_conv)

end

text \<open>
  An invariant of the tables goes through every step once each of the four kinds of steps that
  change tables in their own way keeps it: requests, half-done setups, deliveries and the cleanup.
\<close>

locale service = domain_store +
  fixes out :: outside and allowed :: "event \<Rightarrow> bool"
  assumes request: "\<And>s dr r w. I (sys_db s) \<Longrightarrow> allowed (HttpRequest dr r w) \<Longrightarrow>
      I (site_db (fst (serve (o_ext out) (sys_options s) dr r (sys_site s))))"
    and storing: "\<And>n dr r o1 password adm w w' d. I d \<Longrightarrow> allowed (SetupStored n dr w') \<Longrightarrow>
      I (fst (snd (setup_commit (o_ext out) o1 dr r password adm d w)))"
    and delivery: "\<And>n now r err ses b d d'. I d \<Longrightarrow> allowed (SmtpData n now r err) \<Longrightarrow>
      Data (x_ul (o_ext out)) (o_create out) now r ses b d = (err, d') \<Longrightarrow> I d'"
    and removal: "\<And>d now res. I d \<Longrightarrow> allowed (CleanupRun now res) \<Longrightarrow> I (snd (runCleanup now d))"
begin

lemma step_keeps: "sys_step out ev s s' \<Longrightarrow> allowed ev \<Longrightarrow> I (sys_db s) \<Longrightarrow> I (sys_db s')"
proof (induction rule: sys_step.cases)
  case (http s dr r st w)
  then show ?case using request [of s dr r w] by simp
next
  case (rcpt s n ses now to err ses' b d)
  then show ?case using Rcpt_keeps by simp
next
  case (data s n ses now r err d)
  then show ?case using delivery by auto
next
  case (checked s n r r' w password d)
  then show ?case using setup_check_same by simp
next
  case (stored s n r' w password dr adm d w')
  then show ?case
    using storing [of "sys_db s" n dr "finish w'" "sys_options s" r' password "site_admin (sys_site s)" w] by simp
next
  case (cleanup now s res d)
  then show ?case using removal [of "sys_db s" now res] by simp
next
  case (restart s d now env R)
  then show ?case using start_keeps same by simp blast
qed (simp_all add: faults)

lemma run_keeps:
  "sys_run_to out s evs s' \<Longrightarrow> list_all allowed evs \<Longrightarrow> I (sys_db s) \<Longrightarrow> I (sys_db s')"
  by (induction rule: sys_run_to.induct) (auto intro: step_keeps)

end

end
