(* ===== verification/System_Spec.thy ===== *)
theory System_Spec
  imports System
begin

text \<open>
  What holds of the running service along all its events, restarts included: the state stays
  well formed, accounts and the admin password stay, and messages come and go in one way each.
\<close>

section \<open>The invariant of the state\<close>

definition system_ok :: "outside \<Rightarrow> system \<Rightarrow> bool" where
  "system_ok out s \<longleftrightarrow> db_wf (sys_db s)
     \<and> (\<forall>n ses. sys_sessions s n = Some ses \<longrightarrow> session_reach (x_ul (o_ext out)) (o_parse_address out) ses)
     \<and> (\<exists>env. Load (x_ul (o_ext out)) env = Inr (be_config (sys_backend s)))
     \<and> sys_options s = web_options (be_config (sys_backend s))"

lemma domainAllowed_config_eq: "domainAllowed ul now name b d = (res, b', d') \<Longrightarrow> be_config b' = be_config b"
  using domainAllowed_config(1) [of ul now name b d] by simp

lemma Rcpt_config: "Rcpt ul pa now to ses b d = (err, ses', b', d') \<Longrightarrow> be_config b' = be_config b"
  by (auto simp: Rcpt_def Let_def dest!: domainAllowed_config_eq split: option.splits if_splits prod.splits sum.splits)

lemma NewSession_config: "NewSession now conn b = (res, b') \<Longrightarrow> be_config b' = be_config b"
  by (auto simp: NewSession_def Let_def split: option.splits prod.splits if_splits)

lemma NewSession_Inr: "NewSession now conn b = (Inr ses, b') \<Longrightarrow> ses = fresh_session"
  by (auto simp: NewSession_def Let_def split: option.splits prod.splits if_splits)

interpretation whole: service db_wf out "\<lambda>_. True" for out
proof unfold_locales
  fix s dr r w
  assume "db_wf (sys_db s)"
  then show "db_wf (site_db (fst (serve (o_ext out) (sys_options s) dr r (sys_site s))))"
    by (intro serve_state [where Q = "\<lambda>st. db_wf (site_db st)"] wf.root_handler)
qed (auto intro: wf.setup_commit wf.Data_keeps wf.runCleanup)

lemma start_server_ok:
  assumes "start_server (x_ul (o_ext out)) (\<lambda>_ _. Inr d) join dirname parse now env = Inr R" "db_wf d"
  shows "system_ok out \<lparr>sys_run = R, sys_sessions = Map.empty, sys_setups = Map.empty\<rparr>"
  using start_server_Inr [OF assms(1)] assms(2)
  by (auto simp: system_ok_def NewServer_def NewBackend_def)

lemma system_ok_step: "sys_step out ev s s' \<Longrightarrow> system_ok out s \<Longrightarrow> system_ok out s'"
proof -
  assume step: "sys_step out ev s s'" and ok: "system_ok out s"
  have wf: "db_wf (sys_db s')" using whole.step_keeps [OF step] ok by (simp add: system_ok_def)
  from step ok wf show ?thesis
  proof (induction rule: sys_step.cases)
    case (connect s n now conn ses b)
    then show ?case
      by (auto simp: system_ok_def NewSession_config dest: NewSession_Inr intro: session_reach.start)
  next
    case (turned_away s n now conn e b)
    then show ?case by (simp add: system_ok_def NewSession_config)
  next
    case (rcpt s n ses now to err ses' b d)
    then show ?case by (auto simp: system_ok_def Rcpt_config intro: session_reach.rcpt)
  next
    case (restart s d now env R)
    then show ?case using start_server_ok wf.same by (simp add: system_ok_def) blast
  qed (auto simp: system_ok_def intro: session_reach.intros)
qed

lemma system_ok_run: "booted out s0 \<Longrightarrow> sys_run_to out s0 evs s \<Longrightarrow> system_ok out s"
  by (erule sys_run_induct) (auto simp: booted_def intro: start_server_ok system_ok_step)

text \<open>
  C1. Whatever happens to a service that started on a well-formed database - requests, mail,
  cleanups, failing statements and restarts in any order - the database stays well formed,
  every open SMTP session delivers to the last recipient it accepted, and the web and the mail
  side run on one configuration that the environment gave and that is valid.
\<close>
theorem service_stays_consistent:
  assumes "booted out s0" "sys_run_to out s0 evs s"
  shows "db_wf (sys_db s) \<and> (\<forall>n. pred_option envelope_ok (sys_sessions s n))
    \<and> (\<exists>env. Load (x_ul (o_ext out)) env = Inr (be_config (sys_backend s)))
    \<and> sys_options s = web_options (be_config (sys_backend s))"
  using system_ok_run [OF assms] by (auto simp: system_ok_def option.pred_set elem_set intro: envelope_ok_reach)


text \<open>A service started with an empty environment on the sample database.\<close>

definition sample_outside :: "ext \<Rightarrow> outside" where
  "sample_outside x = \<lparr>o_ext = x, o_parse_address = Some, o_create = (\<lambda>raw. (None, sample_reader)),
     o_join = (@), o_dirname = (\<lambda>p. p), o_parse = (\<lambda>_. Inr ())\<rparr>"

definition sample_system :: "db \<Rightarrow> system" where
  "sample_system d = \<lparr>sys_run = \<lparr>run_options = web_options default_config,
       run_site = \<lparr>site_db = d, site_limiter = Some (NewFixedWindowLimiter (cfg_InboxCreateLimitPerHour default_config) time_Hour),
         site_admin = newAdminSessionStore\<rparr>,
       run_smtp = NewServer default_config (Some (NewFixedWindowLimiter (cfg_SMTPConnectionLimitPerMin default_config) time_Minute)),
       run_worker = NewCleanupWorker (cfg_CleanupInterval default_config)\<rparr>, sys_sessions = Map.empty, sys_setups = Map.empty\<rparr>"

lemma sample_system_fields [simp]:
  "sys_db (sample_system d) = d" "sys_sessions (sample_system d) = Map.empty" "sys_setups (sample_system d) = Map.empty" "sys_options (sample_system d) = web_options default_config"
  "o_ext (sample_outside x) = x" "o_parse_address (sample_outside x) = Some" "o_create (sample_outside x) = (\<lambda>raw. (None, sample_reader))"
  by (simp_all add: sample_system_def sample_outside_def)

lemma sample_start:
  assumes "db_faults d = []"
  shows "start_server (x_ul x) (\<lambda>_ _. Inr d) (o_join (sample_outside x)) (o_dirname (sample_outside x))
    (o_parse (sample_outside x)) now Map.empty = Inr (sys_run (sample_system d))"
  using assms seedDomain_rows [of d "[]"]
  by (simp add: start_server_def Load_defaults Let_def RegisterRoutes_def parseTemplates_def sample_outside_def
      sample_system_def default_config_def logAdminStatus_def)

lemma sample_booted: "db_wf d \<Longrightarrow> db_faults d = [] \<Longrightarrow> booted (sample_outside x) (sample_system d)"
  using sample_start [of d x 0]
  by (simp add: booted_def) (metis sample_system_def system.select_convs(1))

lemma sample_restart:
  "db_faults d = [] \<Longrightarrow> sys_step (sample_outside x) (Restart now Map.empty) (sample_system d) (sample_system d)"
  using sys_step.restart [where out = "sample_outside x" and s = "sample_system d" and d = d and now = now
      and env = Map.empty and R = "sys_run (sample_system d)"] sample_start [of d x now]
  by (simp add: sample_system_def)

definition sample_connected :: "db \<Rightarrow> system" where
  "sample_connected d = with_session 1 (Some fresh_session)
     (with_backend (snd (NewSession 0 None (sys_backend (sample_system d)))) (sample_system d))"

lemma sample_session: "sys_step out (SmtpConnect 1 0 None None) (sample_system d) (sample_connected d)"
proof -
  have "fst (NewSession 0 None (sys_backend (sample_system d))) = Inr fresh_session"
    by (simp add: NewSession_limited sample_system_def NewServer_def NewBackend_def default_config_def NewFixedWindowLimiter_def
        allow_Allowed FromSMTPConn_def current_entry_def lookup_entry_def zero_entry_def)
  then show ?thesis unfolding sample_connected_def by (intro sys_step.connect) (auto intro: prod_eqI)
qed

lemma service_stays_consistent_witness:
  "\<exists>s. sys_run_to (sample_outside sample_ext) (sample_system sample_db) [Restart 7 Map.empty, SmtpConnect 1 0 None None] s
     \<and> sys_sessions s 1 = Some fresh_session \<and> db_wf (sys_db s)"
proof -
  have run: "sys_run_to (sample_outside sample_ext) (sample_system sample_db) [Restart 7 Map.empty, SmtpConnect 1 0 None None]
      (sample_connected sample_db)"
    by (rule sys_run_to.intros sample_restart sample_session sample_db_fields)+
  then show ?thesis
    using service_stays_consistent [OF sample_booted run] sample_db_wf by (intro exI [of _ "sample_connected sample_db"]) (simp add: sample_connected_def)
qed

section \<open>Accounts stay\<close>

definition has_account :: "inbox_row \<Rightarrow> db \<Rightarrow> bool" where
  "has_account r d \<longleftrightarrow> (\<exists>t. r\<lparr>ir_last_accessed_at := t\<rparr> \<in> set (db_inboxes d))"

lemma has_account_self: "r \<in> set (db_inboxes d) \<Longrightarrow> has_account r d"
  unfolding has_account_def by (rule exI [of _ "ir_last_accessed_at r"]) simp

lemma has_account_touch:
  "has_account r d \<Longrightarrow> has_account r (d\<lparr>db_inboxes := update_rows P (\<lambda>r. r\<lparr>ir_last_accessed_at := t\<rparr>) (db_inboxes d)\<rparr>)"
proof -
  assume "has_account r d"
  then obtain u where u: "r\<lparr>ir_last_accessed_at := u\<rparr> \<in> set (db_inboxes d)" by (auto simp: has_account_def)
  show ?thesis
    using u unfolding has_account_def
    by (intro exI [of _ "if P (r\<lparr>ir_last_accessed_at := u\<rparr>) then t else u"]) (auto simp: set_update_rows intro!: bexI [OF _ u])
qed

interpretation account: site_store "has_account r" for r
  by unfold_locales
     (auto simp: has_account_touch, auto simp: has_account_def insert_inbox_def insert_session_def insert_domain_def
       delete_emails_def Let_def)

interpretation account: delivery_store "has_account r" for r
  by unfold_locales (auto simp: has_account_def insert_email_row_def insert_attachment_row_def Let_def)

definition spares :: "inbox_row \<Rightarrow> event \<Rightarrow> bool" where
  "spares r ev = (case ev of CleanupRun now res \<Rightarrow> toUnix now < ir_expires_at r | _ \<Rightarrow> True)"

interpretation accounts: service "\<lambda>d. db_wf d \<and> has_account r d" out "spares r" for r out
proof unfold_locales
  fix s dr q w
  assume "db_wf (sys_db s) \<and> has_account r (sys_db s)"
  then show "db_wf (site_db (fst (serve (o_ext out) (sys_options s) dr q (sys_site s))))
      \<and> has_account r (site_db (fst (serve (o_ext out) (sys_options s) dr q (sys_site s))))"
    by (intro serve_state [where Q = "\<lambda>st. db_wf (site_db st) \<and> has_account r (site_db st)"] conjI wf.root_handler account.root_handler)
       simp_all
next
  fix d now res
  assume a: "db_wf d \<and> has_account r d" "spares r (CleanupRun now res)"
  then obtain t where "r\<lparr>ir_last_accessed_at := t\<rparr> \<in> set (db_inboxes d)" by (auto simp: has_account_def)
  with a have "mailbox_kept (r\<lparr>ir_last_accessed_at := t\<rparr>) d (snd (runCleanup now d))"
    by (intro runCleanup_keeps) (simp_all add: expired_def spares_def)
  with a show "db_wf (snd (runCleanup now d)) \<and> has_account r (snd (runCleanup now d))"
    by (auto simp: has_account_def mailbox_kept_def wf.runCleanup)
qed (auto simp: wf.faults account.faults wf.insert_domain wf.set_domain account.insert_domain account.set_domain
      intro: wf.setup_commit account.setup_commit wf.Data_keeps account.Data_keeps)

text \<open>
  C7. An account is never lost: as long as no cleanup runs at or after its expiry - which for
  a registered mailbox is the year 9999 - its owner can log in after any requests, mail,
  failures and restarts, with the same address and the same password, and opens that mailbox.
\<close>
theorem account_survives_and_opens:
  assumes "booted out s0" "sys_run_to out s0 evs s" "r \<in> set (db_inboxes (sys_db s))"
    and "sys_run_to out s later s'" "list_all (spares r) later"
    and "db_faults (sys_db s') = []" "session_of (dr_uuid dr) (sys_db s') = None" "dr_uuid dr \<noteq> []" "rw_sent w = None"
    and "ParseForm (x_parse_form (o_ext out)) q = Inr form" "x_cmp (o_ext out) (ir_password_hash r) (PostFormValue ''password'' form)"
    and "nocase (ir_address r) = nocase (ToLower (x_ul (o_ext out)) (TrimSpace (PostFormValue ''address'' form)))"
  shows "\<exists>t. logged_into (sys_options s') dr (r\<lparr>ir_last_accessed_at := t\<rparr>) (HandleLogin (o_ext out) (sys_options s') dr q (sys_db s') w)"
proof -
  have "db_wf (sys_db s)" using system_ok_run [OF assms(1,2)] by (simp add: system_ok_def)
  then have "db_wf (sys_db s') \<and> has_account r (sys_db s')"
    using accounts.run_keeps [OF assms(4,5)] has_account_self [OF assms(3)] by blast
  then obtain t where "db_wf (sys_db s')" "r\<lparr>ir_last_accessed_at := t\<rparr> \<in> set (db_inboxes (sys_db s'))"
    by (auto simp: has_account_def)
  then show ?thesis using assms(6-12) by (intro exI [of _ t] HandleLogin_ok [where form = form]) simp_all
qed

definition sample_account_db :: db where
  "sample_account_db = sample_db\<lparr>db_inboxes := [sample_inbox 1 ''ann'' ''t1'' ''h1'',
     sample_inbox 2 ''cat'' ''t2'' (CHR ''$'' # replicate 32 (CHR ''a''))]\<rparr>"

lemma sample_account_wf: "db_wf sample_account_db" "db_faults sample_account_db = []"
  by (simp_all add: sample_account_db_def db_wf_def ids_wf_def unique_wf_def links_wf_def flags_wf_def keys_ok_def sample_names sample_words)

lemma account_survives_and_opens_witness:
  "\<exists>t. logged_into (web_options default_config) sample_draws
     (sample_inbox 2 ''cat'' ''t2'' (CHR ''$'' # replicate 32 (CHR ''a''))\<lparr>ir_last_accessed_at := t\<rparr>)
     (HandleLogin form_ext (web_options default_config) sample_draws (sample_request ''POST'' ''/login'' []) sample_account_db new_writer)"
proof -
  let ?r = "sample_inbox 2 ''cat'' ''t2'' (CHR ''$'' # replicate 32 (CHR ''a''))" and ?s = "sample_system sample_account_db"
  have run: "sys_run_to (sample_outside form_ext) ?s [Restart 7 Map.empty] ?s"
    by (rule sys_run_to.intros sample_restart sample_account_wf)+
  have "\<exists>t. logged_into (sys_options ?s) sample_draws (?r\<lparr>ir_last_accessed_at := t\<rparr>)
      (HandleLogin (o_ext (sample_outside form_ext)) (sys_options ?s) sample_draws (sample_request ''POST'' ''/login'' []) (sys_db ?s) new_writer)"
    by (rule account_survives_and_opens [where form = "[(''local_part'', ''cat''), (''domain'', ''x.test''),
        (''address'', ''cat@x.test''), (''password'', replicate 32 (CHR ''a''))]",
        OF sample_booted [OF sample_account_wf] sys_run_to.none _ run])
       (simp_all add: sample_account_db_def spares_def session_of_def new_writer_def ParseForm_def PostFormValue_def
        first_value_def toy_cmp_def sample_words)
  then show ?thesis by simp
qed

section \<open>The admin password stays\<close>

interpretation settings_kept: delivery_store "\<lambda>d. db_settings d = S" for S
  by unfold_locales (auto simp: insert_email_row_def insert_attachment_row_def Let_def)

interpretation settings_kept: expiry_store "\<lambda>d. db_settings d = S" for S
  by unfold_locales (auto simp: delete_inboxes_def delete_emails_def Let_def)

lemma admin_hash_settings: "db_settings d = db_settings d' \<Longrightarrow> admin_hash d = admin_hash d'"
  by (simp add: admin_hash_def setting_view_def)

definition stores_setup :: "event \<Rightarrow> bool" where
  "stores_setup ev = (case ev of SetupStored n dr w \<Rightarrow> True | _ \<Rightarrow> False)"

interpretation password: service "\<lambda>d. db_settings d = db_settings d0 \<and> admin_hash d0 \<noteq> []" out "\<lambda>ev. \<not> stores_setup ev" for d0 out
proof unfold_locales
  fix s dr r w
  assume a: "db_settings (sys_db s) = db_settings d0 \<and> admin_hash d0 \<noteq> []"
  then have "admin_hash (sys_db s) \<noteq> []" using admin_hash_settings by metis
  from admin_password_is_set_once [OF this] a
  show "db_settings (site_db (fst (serve (o_ext out) (sys_options s) dr r (sys_site s)))) = db_settings d0 \<and> admin_hash d0 \<noteq> []" by simp
qed (auto simp: settings_kept.runCleanup insert_domain_def Let_def stores_setup_def intro: settings_kept.Data_keeps)

text \<open>When a hash is stored, no setup passes its check any more.\<close>

definition setup_over :: "setting_row list \<Rightarrow> system \<Rightarrow> bool" where
  "setup_over S s \<longleftrightarrow> db_settings (sys_db s) = S \<and> admin_hash (sys_db s) \<noteq> [] \<and> sys_setups s = Map.empty"

lemma setup_over_step:
  assumes "sys_step out ev s s'" "setup_over S s"
  shows "setup_over S s'"
proof -
  have hash: "admin_hash (sys_db s) \<noteq> []" and none: "sys_setups s = Map.empty" using assms(2) by (simp_all add: setup_over_def)
  have "\<not> stores_setup ev \<and> sys_setups s' = Map.empty"
    using assms(1) hash none by (induction rule: sys_step.cases) (auto simp: stores_setup_def dest: setup_check_Inr)
  moreover from this have "db_settings (sys_db s') = db_settings (sys_db s)"
    using password.step_keeps [OF assms(1), of "sys_db s"] hash by simp
  ultimately show ?thesis using assms(2) admin_hash_settings [of "sys_db s'" "sys_db s"] by (simp add: setup_over_def)
qed

text \<open>
  C8. The admin password is chosen once for the life of the database: when a hash is stored and no
  first setup is half done - between its check that there is none and its store - no event changes
  a setting any more: no request by anyone, no setup in one step or in two, no restart with
  another environment, no failing statement. Both conditions are needed: a setup that has checked
  stores its hash over the one that came first (\<open>setup_race_run\<close>).
\<close>
theorem admin_password_survives:
  assumes "admin_hash (sys_db s) \<noteq> []" "sys_setups s = Map.empty" "sys_run_to out s evs s'"
  shows "db_settings (sys_db s') = db_settings (sys_db s) \<and> sys_setups s' = Map.empty"
proof -
  have "setup_over (db_settings (sys_db s)) s'"
    by (rule sys_run_induct [OF assms(3)]) (use assms(1,2) in \<open>auto simp: setup_over_def [of _ s] intro: setup_over_step\<close>)
  then show ?thesis by (simp add: setup_over_def)
qed

text \<open>The run that the second condition excludes: two setups check, then each stores its hash.\<close>

lemma setup_race_run:
  assumes "db_faults (sys_db s) = []" "opt_AdminUsername (sys_options s) \<noteq> []" "admin_hash (sys_db s) = []" "sys_setups s = Map.empty"
    and "reaches_handler (o_ext out) ra = Some (ra', wa)" "find_route ra' = AdminSetup" "ParseForm (x_parse_form (o_ext out)) ra' = Inr fa"
    and "PostFormValue ''password'' fa = pwa" "PostFormValue ''confirm_password'' fa = pwa" "12 \<le> length pwa"
    and "reaches_handler (o_ext out) rb = Some (rb', wb)" "find_route rb' = AdminSetup" "ParseForm (x_parse_form (o_ext out)) rb' = Inr fb"
    and "PostFormValue ''password'' fb = pwb" "PostFormValue ''confirm_password'' fb = pwb" "12 \<le> length pwb"
    and "HashPassword (x_gen (o_ext out)) (dr_salt dra) pwa (opt_BcryptCost (sys_options s)) = Inr ha"
    and "HashPassword (x_gen (o_ext out)) (dr_salt drb) pwb (opt_BcryptCost (sys_options s)) = Inr hb"
  shows "\<exists>va vb s1 s2. sys_run_to out s [SetupChecked 1 ra, SetupChecked 2 rb, SetupStored 1 dra va] s1 \<and> admin_hash (sys_db s1) = ha
    \<and> sys_step out (SetupStored 2 drb vb) s1 s2 \<and> admin_hash (sys_db s2) = hb"
proof -
  let ?c1 = "with_setup 1 (Some (ra', wa, pwa)) (with_db (sys_db s) s)"
  let ?c2 = "with_setup 2 (Some (rb', wb, pwb)) (with_db (sys_db s) ?c1)"
  obtain adm d wa' where a: "setup_commit (o_ext out) (sys_options ?c2) dra ra' pwa (site_admin (sys_site ?c2)) (sys_db ?c2) wa = (adm, d, wa')"
    and d: "db_faults d = []" "admin_hash d = ha"
    using setup_commit_ok [OF _ assms(17)] assms(1) by (simp add: admin_hash_upsert)
  let ?s1 = "with_setup 1 None (with_site ((sys_site ?c2)\<lparr>site_db := d, site_admin := adm\<rparr>) ?c2)"
  obtain adm' d' wb' where b: "setup_commit (o_ext out) (sys_options ?s1) drb rb' pwb (site_admin (sys_site ?s1)) (sys_db ?s1) wb = (adm', d', wb')"
    and d': "admin_hash d' = hb"
    using setup_commit_ok [OF d(1) assms(18)] by (simp add: admin_hash_upsert)
  have "sys_step out (SetupChecked 1 ra) s ?c1"
    by (rule sys_step.checked [OF _ assms(5,6)]) (simp_all add: assms(4) setup_check_ok [OF assms(1-3,7-10)])
  moreover have "sys_step out (SetupChecked 2 rb) ?c1 ?c2"
    by (rule sys_step.checked [OF _ assms(11,12)]) (simp_all add: assms(4) setup_check_ok [OF assms(1-3,13-16)])
  moreover have "sys_step out (SetupStored 1 dra (finish wa')) ?c2 ?s1" by (rule sys_step.stored [OF _ a]) simp
  moreover have "sys_step out (SetupStored 2 drb (finish wb')) ?s1 (with_setup 2 None (with_site ((sys_site ?s1)\<lparr>site_db := d', site_admin := adm'\<rparr>) ?s1))"
    by (rule sys_step.stored [OF _ b]) simp
  ultimately show ?thesis using d(2) d'
    by (intro exI conjI) (rule sys_run_to.intros | assumption | simp)+
qed

lemma admin_password_survives_witness:
  "\<exists>s'. sys_run_to (sample_outside sample_ext) (sample_system (site_db sample_admin_site)) [Restart 7 Map.empty, Faults [None]] s'
     \<and> db_settings (sys_db s') = db_settings (site_db sample_admin_site)"
proof -
  let ?s = "sample_system (site_db sample_admin_site)"
  have run: "sys_run_to (sample_outside sample_ext) ?s [Restart 7 Map.empty, Faults [None]]
      (with_db ((sys_db ?s)\<lparr>db_faults := [None]\<rparr>) ?s)"
    by (rule sys_run_to.intros sample_restart sys_step.faults | simp)+
  from admin_password_survives [OF _ _ run] run show ?thesis by auto
qed

section \<open>How messages come\<close>

definition messages :: "db \<Rightarrow> email_row set" where
  "messages d = (\<lambda>e. e\<lparr>er_is_read := 1\<rparr>) ` set (db_emails d)"

lemma messages_same: "db_emails d' = db_emails d \<Longrightarrow> messages d' = messages d"
  by (simp add: messages_def)

interpretation old_mail: site_store "\<lambda>d. messages d \<subseteq> M" for M
  by unfold_locales
     (auto simp: messages_def insert_inbox_def insert_session_def insert_domain_def delete_emails_def Let_def set_update_rows image_subset_iff)

interpretation old_mail: expiry_store "\<lambda>d. messages d \<subseteq> M" for M
  by unfold_locales (auto simp: messages_def delete_inboxes_def delete_emails_def Let_def)

definition delivers :: "event \<Rightarrow> bool" where
  "delivers ev = (case ev of SmtpData n now r err \<Rightarrow> err = None | _ \<Rightarrow> False)"

interpretation old_mail: service "\<lambda>d. messages d \<subseteq> M" out "\<lambda>ev. \<not> delivers ev" for M out
proof unfold_locales
  fix s dr r w
  assume "messages (sys_db s) \<subseteq> M"
  then show "messages (site_db (fst (serve (o_ext out) (sys_options s) dr r (sys_site s)))) \<subseteq> M"
    by (intro serve_state [where Q = "\<lambda>st. messages (site_db st) \<subseteq> M"] old_mail.root_handler)
next
  fix n now r err ses b d d'
  assume "messages d \<subseteq> M" "\<not> delivers (SmtpData n now r err)"
    "Data (x_ul (o_ext out)) (o_create out) now r ses b d = (err, d')"
  then show "messages d' \<subseteq> M" by (cases err) (auto simp: delivers_def messages_def same_tables_iff dest!: Data_Some)
qed (auto simp: old_mail.runCleanup old_mail.setup_commit)

text \<open>
  C2. There is one way in for a message: only an accepted \<open>DATA\<close> of an open SMTP session adds
  one, exactly one, unread, addressed to the last recipient the session accepted and stored for
  its inbox, which exists; every other event - any request, other mail command, cleanup,
  failure or restart - adds no message and changes none but for its read flag.
\<close>
theorem messages_arrive_by_accepted_data:
  assumes "booted out s0" "sys_run_to out s0 evs s" "sys_step out ev s s'"
  shows "case ev of
     SmtpData n now r None \<Rightarrow> \<exists>ses inbox row. sys_sessions s n = Some ses \<and> ses_inbox ses = Some inbox \<and> ses_rcpts ses \<noteq> []
       \<and> db_emails (sys_db s') = db_emails (sys_db s) @ [row] \<and> er_is_read row = 0
       \<and> nocase (er_recipient row) = nocase (last (ses_rcpts ses))
       \<and> er_inbox_id row = Inbox_ID inbox \<and> er_inbox_id row \<in> ir_id ` set (db_inboxes (sys_db s))
   | _ \<Rightarrow> messages (sys_db s') \<subseteq> messages (sys_db s)"
proof (cases "delivers ev")
  case False
  then have "messages (sys_db s') \<subseteq> messages (sys_db s)"
    using old_mail.step_keeps [OF assms(3)] by blast
  with False show ?thesis by (auto simp: delivers_def split: event.split option.split)
next
  case True
  then obtain n now r where ev: "ev = SmtpData n now r None" by (auto simp: delivers_def split: event.splits)
  from assms(3)[unfolded ev] obtain ses d where ses: "sys_sessions s n = Some ses" and s': "s' = with_db d s"
    and data: "Data (x_ul (o_ext out)) (o_create out) now r ses (sys_backend s) (sys_db s) = (None, d)"
    by (auto elim: sys_step_data)
  from ses have "envelope_ok ses"
    using system_ok_run [OF assms(1,2)] by (auto simp: system_ok_def intro: envelope_ok_reach)
  with Data_None [OF data] obtain raw inbox email atts e' atts' where d: "ses_inbox ses = Some inbox" "ses_rcpts ses \<noteq> []"
    "nocase (Inbox_Address inbox) = nocase (last (ses_rcpts ses))"
    "parseMessage (x_ul (o_ext out)) (o_create out) now (be_config (sys_backend s)) (ses_from ses) raw inbox = Inr (email, atts)"
    and save: "SaveInboundMessage (x_ul (o_ext out)) now email atts (sys_db s) = (Inr (e', atts'), d)"
    by (auto simp: envelope_ok_def)
  note p = parseMessage_Inr [OF d(4)] and st = SaveInboundMessage_Inr [OF save]
  have "db_emails d = db_emails (sys_db s) @ [email_row_of (Email_ID e') (Email_ReceivedAt e') email]"
    using st(4) by (simp add: same_tables_iff)
  then show ?thesis using ses d(1-3) p st(1) by (simp add: ev s' email_row_of_def)
qed

section \<open>How messages go\<close>

interpretation message: keeping_store "\<lambda>d. k \<in> er_id ` set (db_emails d)" for k
  by unfold_locales (auto simp: insert_inbox_def insert_session_def insert_domain_def Let_def row_simps)

lemma HandleDeleteEmail_removes:
  assumes "e \<in> set (db_emails d)" "er_id e \<notin> er_id ` set (db_emails (fst (HandleDeleteEmail (r\<lparr>rq_path_values := [(''id'', i)]\<rparr>) d w)))"
    and "rq_inbox r = Some inbox"
  shows "ParseInt i = Some (er_id e) \<and> er_inbox_id e = Inbox_ID inbox"
proof -
  obtain p w1 where p: "pathID ''id'' (r\<lparr>rq_path_values := [(''id'', i)]\<rparr>) w = (p, w1)" by fastforce
  obtain k where k: "p = Some k" "ParseInt i = Some k"
    using assms p by (auto simp: HandleDeleteEmail_def GetInboxFromContext_def pathID_def PathValue_def first_value_def split: option.splits if_splits)
  obtain res d1 where del: "DeleteEmail (Inbox_ID inbox) k d = (res, d1)" by fastforce
  have "er_id e \<notin> er_id ` set (db_emails d1)"
    using assms p k del by (auto simp: HandleDeleteEmail_def GetInboxFromContext_def split: sum.splits)
  moreover from del have "db_emails d1 = db_emails d \<or> db_emails d1 = filter (\<lambda>x. \<not> (er_inbox_id x = Inbox_ID inbox \<and> er_id x = k)) (db_emails d)"
    using DeleteEmail_cases [of "Inbox_ID inbox" k d] by (auto simp: delete_emails_def Let_def)
  ultimately show ?thesis using assms(1) k(2) by auto
qed

lemma find_route_delete: "find_route r = AppArea (AppDelete i) \<Longrightarrow> rq_method r = MethodPost"
proof -
  assume a: "find_route r = AppArea (AppDelete i)"
  have app: "app_table m segs = AppDelete i \<Longrightarrow> m = MethodPost" for m segs
    by (auto simp: app_table_def get_only_def post_only_def Let_def split: list.splits if_splits)
  have "root_table m segs = AppArea ar \<Longrightarrow> \<exists>rest. ar = app_table m rest" for m segs ar
    by (auto simp: root_table_def get_only_def post_only_def get_or_post_def Let_def split: list.splits if_splits)
  moreover have "\<exists>segs. root_table (rq_method r) segs = AppArea (AppDelete i)"
    using a by (auto simp: find_route_def Let_def split: route.splits if_splits)
  ultimately show ?thesis using app by metis
qed

lemma root_handler_removes:
  assumes "e \<in> set (db_emails (site_db st))" "er_id e \<notin> er_id ` set (db_emails (site_db (fst (root_handler x o1 dr st r w))))"
  shows "\<exists>i inbox. find_route r = AppArea (AppDelete i) \<and> ParseInt i = Some (er_id e)
    \<and> logged_in o1 (dr_now dr) r (site_db st) = Some inbox \<and> Inbox_ID inbox = er_inbox_id e"
proof -
  obtain i where i: "find_route r = AppArea (AppDelete i)"
    using message.root_handler_keeping [of "er_id e" st r x o1 dr w] assms by blast
  let ?gate = "MailboxAuthMiddleware o1 (dr_now dr) (app_handler x (AppDelete i)) r (site_db st) w"
  have gone: "er_id e \<notin> er_id ` set (db_emails (fst ?gate))"
    using assms(2) i by (simp add: root_handler_def on_db_def case_prod_beta)
  have "er_id e \<in> er_id ` set (db_emails (fst ?gate))" if "logged_in o1 (dr_now dr) r (site_db st) = None"
    using same_tablesD(2) [OF gate_shut [OF that, of "app_handler x (AppDelete i)" w]] assms(1) by simp
  with gone obtain inbox where log: "logged_in o1 (dr_now dr) r (site_db st) = Some inbox" by fastforce
  from gate_open [OF log, of "app_handler x (AppDelete i)" w] obtain d3 w1 where
    "?gate = app_handler x (AppDelete i) (withInbox r inbox) d3 w1" "db_emails d3 = db_emails (site_db st)" by blast
  with HandleDeleteEmail_removes [where e = e and d = d3 and r = "withInbox r inbox" and i = i and w = w1 and inbox = inbox] gone assms(1) log i show ?thesis
    by (simp add: app_handler_def withInbox_def)
qed

lemma request_removes:
  assumes "e \<in> set (db_emails (site_db st))" "er_id e \<notin> er_id ` set (db_emails (site_db (fst (serve x o1 dr r st))))"
  shows "isSameOriginRequest (x_uf x) (x_url_parse x) r \<and> (\<exists>i inbox. find_route r = AppArea (AppDelete i)
    \<and> rq_method r = MethodPost \<and> ParseInt i = Some (er_id e)
    \<and> logged_in o1 (dr_now dr) r (site_db st) = Some inbox \<and> Inbox_ID inbox = er_inbox_id e)"
proof -
  let ?r = "r\<lparr>rq_body_limit := Some maxPostBodyBytes\<rparr>"
  obtain w where w: "fst (serve x o1 dr r st) =
     (if rq_method r \<noteq> MethodPost then fst (root_handler x o1 dr st r w)
      else if maxPostBodyBytes < rq_content_length r \<or> \<not> isSameOriginRequest (x_uf x) (x_url_parse x) ?r
      then st else fst (root_handler x o1 dr st ?r w))"
    using serve_fst by blast
  have "rq_method r = MethodPost"
    using assms w root_handler_removes [OF assms(1), of x o1 dr r w] by (auto split: if_splits dest: find_route_delete)
  moreover from this have "isSameOriginRequest (x_uf x) (x_url_parse x) r"
    "er_id e \<notin> er_id ` set (db_emails (site_db (fst (root_handler x o1 dr st ?r w))))"
    using assms w by (auto simp: limited_request split: if_splits)
  moreover have "logged_in o1 now ?r d = logged_in o1 now r d" for now d by (simp add: logged_in_def Cookie_def)
  ultimately show ?thesis
    using root_handler_removes [OF assms(1), of x o1 dr ?r w] by (simp add: limited_request)
qed

text \<open>
  C3. There are two ways out for a message: its owner deletes it, by a same-origin POST that
  names it under a live session of its mailbox, or the cleanup removes its mailbox at or after
  the mailbox's expiry. No other event, by anyone, takes it away.
\<close>
theorem messages_leave_by_owner_or_expiry:
  assumes "booted out s0" "sys_run_to out s0 evs s" "sys_step out ev s s'"
    and "e \<in> set (db_emails (sys_db s))" "er_id e \<notin> er_id ` set (db_emails (sys_db s'))"
  shows "(\<exists>dr r w i inbox. ev = HttpRequest dr r w \<and> find_route r = AppArea (AppDelete i) \<and> rq_method r = MethodPost
      \<and> isSameOriginRequest (x_uf (o_ext out)) (x_url_parse (o_ext out)) r \<and> ParseInt i = Some (er_id e)
      \<and> logged_in (sys_options s) (dr_now dr) r (sys_db s) = Some inbox \<and> Inbox_ID inbox = er_inbox_id e)
    \<or> (\<exists>now res row. ev = CleanupRun now res \<and> row \<in> set (db_inboxes (sys_db s)) \<and> ir_id row = er_inbox_id e
      \<and> ir_expires_at row \<le> toUnix now)"
  using assms(3)
proof (cases rule: sys_step.cases)
  case (http dr r st w)
  then show ?thesis
    using request_removes [OF assms(4), of "o_ext out" "sys_options s" dr r] assms(5) by auto
next
  case (rcpt n ses now to err ses' b d)
  then show ?thesis using message.Rcpt_keeps assms(4,5) by auto
next
  case (checked n r r' w password d)
  then show ?thesis using message.setup_check_same assms(4,5) by auto
next
  case (stored n r' w password dr adm d w')
  have "er_id e \<in> er_id ` set (db_emails d)"
    using message.setup_commit [of "er_id e" "sys_db s" "o_ext out" "sys_options s" dr r' password "site_admin (sys_site s)" w] stored assms(4)
    by simp
  then show ?thesis using stored assms(5) by simp
next
  case (data n ses now r err d)
  then have "same_tables (sys_db s) d \<or> (\<exists>row. db_emails d = db_emails (sys_db s) @ [row])"
    by (cases err) (auto dest!: Data_None SaveInboundMessage_Inr(4) Data_Some simp: same_tables_iff)
  then show ?thesis using data assms(4,5) by (auto simp: same_tables_iff)
next
  case (cleanup now res d)
  have wf: "db_wf (sys_db s)" using system_ok_run [OF assms(1,2)] by (simp add: system_ok_def)
  then obtain row where row: "row \<in> set (db_inboxes (sys_db s))" "ir_id row = er_inbox_id e"
    using assms(4) by (auto simp: db_wf_def links_wf_def)
  have "e \<in> set (filter (\<lambda>x. er_inbox_id x = ir_id row) (db_emails (sys_db s)))" using assms(4) row(2) by simp
  then have "\<not> mailbox_kept row (sys_db s) d"
    using assms(5) cleanup unfolding mailbox_kept_def by (metis filter_is_subset imageI subsetD with_simps(5) site.select_convs(1) site.surjective site.update_convs(1))
  then show ?thesis using runCleanup_keeps [OF wf row(1), where now = now] cleanup row by (auto simp: expired_def)
next
  case (restart d now env R)
  have "er_id e \<in> er_id ` set (db_emails d)" using message.same [OF restart(3)] assms(4) by simp
  then show ?thesis using message.start_keeps [OF restart(4)] restart(2) assms(5) by simp
qed (use assms(4,5) in auto)

end
