(* ===== verification/End_To_End.thy ===== *)
theory End_To_End
  imports System_Spec
begin

text \<open>
  From the sender to the reader: what it takes for a message to be accepted and to show up in
  its mailbox, what happens to an account at a domain that is not enabled, and what a configured
  session lifetime does to logins.
\<close>

section \<open>Acceptance\<close>

lemma domainAllowed_True_if:
  assumes "db_wf d" "db_faults d = []" "plain host" "domain_view d (nocase host) = Some True"
    and "cache_get now (nocase host) (be_domains b) \<noteq> (False, True)"
  shows "\<exists>b'. domainAllowed ul now host b d = (Inr True, b', d)"
proof -
  have low: "ToLower ul host = nocase host" using assms(3) by (simp add: plain_def ToLower_ascii)
  have t: "TrimSpace (nocase host) = nocase host"
    using assms(3) nocase_no_space by (intro TrimSpace_no_space_ascii) (auto simp: plain_def)
  obtain e ok where c: "cache_get now (nocase host) (be_domains b) = (e, ok)" by fastforce
  show ?thesis
  proof (cases ok)
    case True
    with c assms(5) show ?thesis by (simp add: domainAllowed_def Let_def low)
  next
    case False
    with c domainAllowed_fresh [OF assms(1,2), of now ul host b] show ?thesis by (simp add: low t assms(4))
  qed
qed

lemma Rcpt_local:
  assumes "db_wf d" "db_faults d = []" "plain host" "domain_view d (nocase host) = Some True"
    and "cache_get now (nocase host) (be_domains b) \<noteq> (False, True)"
    and "pa to = Some (local_part @ CHR ''@'' # host)" "CHR ''@'' \<notin> set local_part" "CHR ''@'' \<notin> set host" "host \<noteq> []"
    and "r \<in> set (db_inboxes d)" "nocase (ir_address r) = nocase (local_part @ CHR ''@'' # host)"
  shows "\<exists>b'. Rcpt ul pa now to s b d = (None, s\<lparr>ses_inbox := Some (scanInbox r),
    ses_rcpts := ses_rcpts s @ [local_part @ CHR ''@'' # host]\<rparr>, b', d)"
proof -
  have "Split (local_part @ CHR ''@'' # host) CHR ''@'' = [local_part, host]"
    using assms(7,8) by (simp add: Split_append Split_no_sep)
  moreover obtain b' where "domainAllowed ul now host b d = (Inr True, b', d)"
    using domainAllowed_True_if [OF assms(1-5)] by blast
  ultimately show ?thesis
    using assms(6,9) GetInboxByAddress_found [OF assms(1,2,10,11)] by (simp add: Rcpt_def)
qed

lemma Data_accepted:
  assumes "db_faults d = []" "ses_inbox s = Some inbox" "ses_rcpts s \<noteq> []" "Inbox_ID inbox \<in> ir_id ` set (db_inboxes d)"
    and "readRawMessage stream (cfg_MaxEmailSize (be_config b)) = Inr raw"
    and "parseMessage ul create now (be_config b) (ses_from s) raw inbox = Inr (email, atts)"
  shows "\<exists>d' e' atts'. Data ul create now stream s b d = (None, d')
    \<and> SaveInboundMessage ul now email atts d = (Inr (e', atts'), d') \<and> db_faults d' = []"
proof -
  have "Email_InboxID email \<in> ir_id ` set (db_inboxes d)" using parseMessage_Inr [OF assms(6)] assms(4) by simp
  with assms(1) obtain e' atts' d' where "SaveInboundMessage ul now email atts d = (Inr (e', atts'), d')" "db_faults d' = []"
    using SaveInboundMessage_ok by blast
  with assms show ?thesis by (simp add: Data_def)
qed

section \<open>The newest message\<close>

lemma sort_key_snoc_first:
  assumes "\<forall>y \<in> set xs. f x < f y"
  shows "sort_key f (xs @ [x]) = x # sort_key f xs"
proof (rule properties_for_sort_key)
  fix k
  have "filter (\<lambda>y. f k = f y) (sort_key f xs) = filter (\<lambda>y. f k = f y) xs"
    using sort_key_stable [of f "f k" xs] by (simp add: eq_commute)
  moreover have "f k = f x \<Longrightarrow> filter (\<lambda>y. f k = f y) xs = []" using assms by (force simp: filter_empty_conv)
  ultimately show "filter (\<lambda>y. f k = f y) (x # sort_key f xs) = filter (\<lambda>y. f k = f y) (xs @ [x])"
    by (cases "f k = f x") auto
next
  show "sorted (map f (x # sort_key f xs))" using assms by (auto simp: less_imp_le)
qed simp

lemma mailbox_after_delivery:
  assumes "db_wf d" "SaveInboundMessage ul now email atts d = (Inr (e', atts'), d')"
    and "\<forall>x \<in> set (db_emails d). er_received_at x \<le> toUnix (Email_ReceivedAt e')"
  shows "mailbox (Email_InboxID email) d' = stored_email e' # mailbox (Email_InboxID email) d"
proof -
  note st = SaveInboundMessage_Inr [OF assms(2)]
  let ?row = "email_row_of (Email_ID e') (Email_ReceivedAt e') email"
  have d': "db_emails d' = db_emails d @ [?row]" using st(4) by (simp add: same_tables_iff)
  have "\<forall>x \<in> set (db_emails d). er_id x < Email_ID e'"
    using assms(1) st(2) by (auto simp: db_wf_def ids_wf_def keys_ok_def)
  with assms(3) have "\<forall>y \<in> set (filter (\<lambda>r. er_inbox_id r = Email_InboxID email) (db_emails d)).
      (- er_received_at ?row, - er_id ?row) < (- er_received_at y, - er_id y)"
    by (auto simp: email_row_of_def order_less_le)
  from sort_key_snoc_first [OF this]
  have "mailbox_rows (Email_InboxID email) d' = ?row # mailbox_rows (Email_InboxID email) d"
    by (simp add: mailbox_rows_def d' email_row_of_def)
  moreover have "email\<lparr>Email_ID := Email_ID e', Email_ReceivedAt := Email_ReceivedAt e'\<rparr> = e'" using st(2) by simp
  ultimately show ?thesis by (simp add: mailbox_def scan_email_row_of)
qed

section \<open>The owner's page\<close>

lemma logged_in_same:
  assumes "db_sessions d' = db_sessions d" "db_inboxes d' = db_inboxes d" "db_faults d = []" "db_faults d' = []"
  shows "logged_in o1 t r d' = logged_in o1 t r d"
proof -
  have "fst (GetSession t tok d') = fst (GetSession t tok d)" for tok
    using assms by (simp add: GetSession_def scan_one_def stmt_ok session_join_def split: list.split)
  then show ?thesis by (simp add: logged_in_def split: option.split)
qed

lemma index_page:
  assumes "db_faults d = []" "rq_inbox r = Some inbox" "clean_writer w"
    and "\<And>p. x_render x p = Rendered"
  shows "\<exists>n. Page (indexData \<lparr>Title = ''Inbox'', cd_Inbox = Some inbox\<rparr> n (take 50 (mailbox (Inbox_ID inbox) d)))
    \<in> set (rw_body (snd (HandleIndex x r d w)))"
  using assms
  by (simp add: HandleIndex_def GetInboxFromContext_def GetEmailsByInboxID_page GetUnreadCount_def stmt_ok render_page_def
      ExecuteTemplate_def body_simps clean_writer_def)

lemma serve_index:
  assumes "db_faults (site_db st) = []" "find_route q = AppArea AppIndex" "rq_method q \<noteq> MethodPost"
    and "logged_in o1 (dr_now dr) q (site_db st) = Some inbox" "\<And>p. x_render x p = Rendered"
  shows "\<exists>n. Page (indexData \<lparr>Title = ''Inbox'', cd_Inbox = Some inbox\<rparr> n (take 50 (mailbox (Inbox_ID inbox) (site_db st))))
    \<in> set (rw_body (snd (serve x o1 dr q st)))"
proof -
  let ?w = "header_Set ''Content-Security-Policy'' contentSecurityPolicy (header_Set ''Referrer-Policy'' ''no-referrer''
      (header_Set ''X-Frame-Options'' ''DENY'' (header_Set ''X-Content-Type-Options'' ''nosniff'' new_writer)))"
  have w: "rw_sent ?w = None" "rw_body ?w = []" by (simp_all add: header_Set_def new_writer_def)
  from gate_open [OF assms(4), of "app_handler x AppIndex" ?w] obtain d3 w1 where
    gate: "MailboxAuthMiddleware o1 (dr_now dr) (app_handler x AppIndex) q (site_db st) ?w = HandleIndex x (withInbox q inbox) d3 w1"
    and d3: "db_emails d3 = db_emails (site_db st)" "db_faults d3 = []" and w1: "clean_writer w1"
    using assms(1) w by (auto simp: app_handler_def clean_writer_def)
  have "mailbox (Inbox_ID inbox) d3 = mailbox (Inbox_ID inbox) (site_db st)" using d3(1) by (simp add: mailbox_def mailbox_rows_def)
  then obtain n where n: "Page (indexData \<lparr>Title = ''Inbox'', cd_Inbox = Some inbox\<rparr> n (take 50 (mailbox (Inbox_ID inbox) (site_db st))))
      \<in> set (rw_body (snd (HandleIndex x (withInbox q inbox) d3 w1)))"
    using index_page [OF d3(2) _ w1, of "withInbox q inbox" inbox x] assms(5) by (auto simp: withInbox_def)
  have fin: "rw_body (finish v) = rw_body v" for v by (simp add: finish_def WriteHeader_def split: option.split)
  have "rw_body (snd (serve x o1 dr q st)) = rw_body (snd (HandleIndex x (withInbox q inbox) d3 w1))"
    using assms(2,3) gate
    by (simp add: serve_def wrapHTTP_def securityHeadersMiddleware_def postSecurityMiddleware_def root_handler_def on_db_def
        case_prod_beta fin)
  with n show ?thesis by (intro exI [of _ n]) simp
qed

section \<open>From the sender to the reader\<close>

lemma delivery_steps:
  assumes "db_wf (sys_db s)" "db_faults (sys_db s) = []"
    and "r \<in> set (db_inboxes (sys_db s))" "nocase (ir_address r) = nocase (local_part @ CHR ''@'' # host)"
    and "o_parse_address out to = Some (local_part @ CHR ''@'' # host)" "CHR ''@'' \<notin> set local_part"
      "CHR ''@'' \<notin> set host" "host \<noteq> []" "plain host"
    and "domain_view (sys_db s) (nocase host) = Some True"
      "cache_get now (nocase host) (be_domains (sys_backend s)) \<noteq> (False, True)"
    and "sys_sessions s n = Some ses"
    and "readRawMessage stream (cfg_MaxEmailSize (be_config (sys_backend s))) = Inr raw"
      "parseMessage (x_ul (o_ext out)) (o_create out) t (be_config (sys_backend s)) (ses_from ses) raw (scanInbox r) = Inr (email, atts)"
  shows "\<exists>s1 d e' as. sys_step out (SmtpRcpt n now to None) s s1 \<and> sys_step out (SmtpData n t stream None) s1 (with_db d s1)
    \<and> SaveInboundMessage (x_ul (o_ext out)) t email atts (sys_db s) = (Inr (e', as), d) \<and> db_faults d = []
    \<and> sys_db s1 = sys_db s \<and> sys_options s1 = sys_options s"
proof -
  let ?ses = "ses\<lparr>ses_inbox := Some (scanInbox r), ses_rcpts := ses_rcpts ses @ [local_part @ CHR ''@'' # host]\<rparr>"
  obtain b where rcpt: "Rcpt (x_ul (o_ext out)) (o_parse_address out) now to ses (sys_backend s) (sys_db s) = (None, ?ses, b, sys_db s)"
    using Rcpt_local [where pa = "o_parse_address out" and to = to and local_part = local_part and host = host,
      OF assms(1,2,9-11,5-8,3,4)] by blast
  let ?s1 = "with_session n (Some ?ses) (with_backend b (with_db (sys_db s) s))"
  have "be_config b = be_config (sys_backend s)" by (rule Rcpt_config [OF rcpt])
  moreover have "Inbox_ID (scanInbox r) \<in> ir_id ` set (db_inboxes (sys_db s))" using assms(3) by (simp add: scanInbox_def)
  ultimately obtain d e' as where data: "Data (x_ul (o_ext out)) (o_create out) t stream ?ses b (sys_db s) = (None, d)"
    and save: "SaveInboundMessage (x_ul (o_ext out)) t email atts (sys_db s) = (Inr (e', as), d)" "db_faults d = []"
    using Data_accepted [where s = ?ses and inbox = "scanInbox r" and b = b and stream = stream and raw = raw and now = t and email = email
        and atts = atts and ul = "x_ul (o_ext out)" and create = "o_create out", OF assms(2)] assms(13,14) by auto
  have "sys_step out (SmtpData n t stream None) ?s1 (with_db d ?s1)" by (rule sys_step.data [where ses = ?ses]) (simp_all add: data)
  with sys_step.rcpt [OF assms(12) rcpt] save show ?thesis by (intro exI [of _ ?s1] exI [of _ d]) auto
qed

text \<open>
  C6. Mail reaches its reader: when the database works, the recipient's domain is enabled and
  not cached as disabled, and the address belongs to a mailbox up to case, any open SMTP session
  has the recipient accepted, has the message accepted if it is within the size limit and parses,
  and then the inbox page of a visitor who was logged into that mailbox shows the message first,
  with its subject and text, before all older ones, and its attachments are stored with it.
\<close>
theorem mail_reaches_its_reader:
  assumes run: "booted out s0" "sys_run_to out s0 evs s" "db_faults (sys_db s) = []"
    and owner: "r \<in> set (db_inboxes (sys_db s))" "nocase (ir_address r) = nocase (local_part @ CHR ''@'' # host)"
    and address: "o_parse_address out to = Some (local_part @ CHR ''@'' # host)" "CHR ''@'' \<notin> set local_part"
      "CHR ''@'' \<notin> set host" "host \<noteq> []" "plain host"
    and enabled: "domain_view (sys_db s) (nocase host) = Some True"
      "cache_get now (nocase host) (be_domains (sys_backend s)) \<noteq> (False, True)"
    and session: "sys_sessions s n = Some ses"
    and content: "readRawMessage stream (cfg_MaxEmailSize (be_config (sys_backend s))) = Inr raw"
      "parseMessage (x_ul (o_ext out)) (o_create out) t (be_config (sys_backend s)) (ses_from ses) raw (scanInbox r) = Inr (email, atts)"
      "\<forall>x \<in> set (db_emails (sys_db s)). er_received_at x \<le> toUnix t"
    and reader: "find_route q = AppArea AppIndex" "rq_method q \<noteq> MethodPost"
      "logged_in (sys_options s) (dr_now dr) q (sys_db s) = Some (scanInbox r)" "\<And>p. x_render (o_ext out) p = Rendered"
  shows "\<exists>s2 e rest unread. sys_run_to out s [SmtpRcpt n now to None, SmtpData n t stream None] s2
    \<and> Page (indexData \<lparr>Title = ''Inbox'', cd_Inbox = Some (scanInbox r)\<rparr> unread (e # rest))
        \<in> set (rw_body (snd (serve (o_ext out) (sys_options s2) dr q (sys_site s2))))
    \<and> rest = take 49 (mailbox (ir_id r) (sys_db s)) \<and> Email_Sender e = Email_Sender email
    \<and> Email_Subject e = Email_Subject email \<and> Email_BodyText e = Email_BodyText email \<and> Email_BodyHTML e = Email_BodyHTML email
    \<and> (\<exists>as. fst (GetAttachmentsByEmailID (Email_ID e) (sys_db s2)) = Inr as \<and> map Attachment_Content as = map Attachment_Content atts)"
proof -
  have wf: "db_wf (sys_db s)" using system_ok_run [OF run(1,2)] by (simp add: system_ok_def)
  obtain s1 d e' as where steps: "sys_step out (SmtpRcpt n now to None) s s1" "sys_step out (SmtpData n t stream None) s1 (with_db d s1)"
    and save: "SaveInboundMessage (x_ul (o_ext out)) t email atts (sys_db s) = (Inr (e', as), d)"
    and d: "db_faults d = []" "sys_db s1 = sys_db s" "sys_options s1 = sys_options s"
    using delivery_steps [where local_part = local_part and out = out and to = to, OF wf run(3) owner address enabled session content(1,2)] by blast
  let ?s2 = "with_db d s1" and ?rest = "take 49 (mailbox (ir_id r) (sys_db s))"
  note st = SaveInboundMessage_Inr [OF save] and p = parseMessage_Inr [OF content(2)]
  have id: "Email_InboxID email = ir_id r" using p by (simp add: scanInbox_def)
  have "Email_ReceivedAt e' = t" using st(2) p by simp
  with mailbox_after_delivery [OF wf save] content(3)
  have box: "mailbox (ir_id r) d = stored_email e' # mailbox (ir_id r) (sys_db s)" by (simp add: id)
  have "db_sessions d = db_sessions (sys_db s)" "db_inboxes d = db_inboxes (sys_db s)" using st(4) by (simp_all add: same_tables_iff)
  from logged_in_same [OF this run(3) d(1)] reader(3) d(3)
  have "logged_in (sys_options ?s2) (dr_now dr) q (site_db (sys_site ?s2)) = Some (scanInbox r)" by simp
  with serve_index [OF _ reader(1,2), of "sys_site ?s2" "sys_options ?s2" dr "scanInbox r" "o_ext out"] reader(4) d(1) box
  obtain unread where "Page (indexData \<lparr>Title = ''Inbox'', cd_Inbox = Some (scanInbox r)\<rparr> unread (stored_email e' # ?rest))
      \<in> set (rw_body (snd (serve (o_ext out) (sys_options ?s2) dr q (sys_site ?s2))))"
    by (auto simp: scanInbox_def)
  moreover have "fst (GetAttachmentsByEmailID (Email_ID e') d) = Inr as"
    using d(1) st(3) delivered_attachment_rows [OF wf save] by (simp add: GetAttachmentsByEmailID_def stmt_ok scan_attachment_rows)
  moreover have "map Attachment_Content (stored_attachments k i atts) = map Attachment_Content atts" for k i
    by (induction k i atts rule: stored_attachments.induct) (simp_all add: stored_attachment_def)
  moreover have "sys_run_to out s [SmtpRcpt n now to None, SmtpData n t stream None] ?s2"
    by (rule sys_run_to.intros steps)+
  moreover have "Email_Subject email \<noteq> []" using p by simp
  ultimately show ?thesis
    using st(2,3)
    by (intro exI [of _ ?s2] exI [of _ "stored_email e'"] exI [of _ ?rest] exI [of _ unread])
       (simp add: stored_email_def defaultString_def)
qed

section \<open>An account nobody can write to\<close>

lemma no_domain_enabled:
  assumes "list_all (\<lambda>r. dr_enabled r = 0) (db_domains d)"
  shows "domain_view d name \<noteq> Some True"
  using assms by (auto simp: domain_view_def list_all_iff find_Some_iff)

text \<open>
  C9. When every domain is disabled, the service still hands out accounts: whatever domain a visitor
  asks for, it creates the mailbox at the configured bootstrap domain, even if the admin disabled
  that domain, and the mail server then refuses every message to the new address.
\<close>
theorem account_at_disabled_domain:
  assumes "db_wf d" "db_faults d = []" "list_all (\<lambda>r. dr_enabled r = 0) (db_domains d)"
    and "plain (opt_DefaultDomain o1)" "opt_DefaultDomain o1 \<noteq> []" "CHR ''@'' \<notin> set (opt_DefaultDomain o1)" "CHR ''@'' \<notin> set local_part"
    and "\<not> address_taken (local_part @ ''@'' @ opt_DefaultDomain o1) d" "\<not> token_taken (dr_uuid dr) d"
    and "parse_address to = Some (local_part @ ''@'' @ opt_DefaultDomain o1)"
  shows "case create_account ul o1 dr requested local_part hash d of (res, d') \<Rightarrow>
     (\<exists>inbox. res = Inr inbox \<and> Inbox_Address inbox = local_part @ ''@'' @ opt_DefaultDomain o1)
     \<and> fst (Rcpt ul parse_address now to s (NewBackend cfg limiter) d') = Some (SMTPError 550 (5, 7, 1) ''relay not permitted'')"
proof -
  let ?seed = "opt_DefaultDomain o1"
  let ?new = "new_account local_part ?seed (dr_uuid dr) hash"
  let ?d' = "d\<lparr>db_inboxes := db_inboxes d @ [inbox_row_of (db_inboxes_seq d + 1) (dr_now dr) ?new],
       db_inboxes_seq := db_inboxes_seq d + 1\<rparr>"
  have none: "filter (\<lambda>r. dr_enabled r = 1) (db_domains d) = []" using assms(3) by (auto simp: filter_empty_conv list_all_iff)
  have "fst (IsDomainEnabled name d) = Inr False \<and> snd (IsDomainEnabled name d) = d" for name
    using domain_view_is_enabled [OF assms(1,2), of name] no_domain_enabled [OF assms(3)] by simp
  then have "IsDomainEnabled name d = (Inr False, d)" for name by (metis prod.collapse)
  moreover have "defaultDomain o1 d = (Inr ?seed, d)" using none assms(2) by (simp add: defaultDomain_def ListDomains_ok)
  ultimately have "resolveCreateDomain ul o1 requested d = (Inr ?seed, d)" by (simp add: resolveCreateDomain_def Let_def)
  moreover have create: "CreateInbox ul (dr_now dr) ?new d = (Inr (created_inbox (db_inboxes_seq d + 1) (dr_now dr) ?new), ?d')"
    using assms(8,9) by (intro CreateInbox_ok [OF assms(1,2)]) (simp_all add: new_account_def)
  ultimately have acc: "create_account ul o1 dr requested local_part hash d
      = (Inr (created_inbox (db_inboxes_seq d + 1) (dr_now dr) ?new), ?d')"
    using assms(5) by (simp add: create_account_def)
  have "db_wf ?d'" using wf.CreateInbox [OF assms(1), of ul "dr_now dr" ?new] create by simp
  moreover have "domain_view ?d' k = domain_view d k" for k by (simp add: domain_view_def)
  ultimately have "fst (Rcpt ul parse_address now to s (NewBackend cfg limiter) ?d') = Some (SMTPError 550 (5, 7, 1) ''relay not permitted'')"
    using Rcpt_uncached [where parse_address = parse_address and to = to and local_part = local_part and host = ?seed and d = ?d'
        and b = "NewBackend cfg limiter" and ul = ul and now = now and s = s]
      no_domain_enabled [OF assms(3)] assms(2,4-7,10)
    by (simp add: plain_def NewBackend_def)
  then show ?thesis by (simp add: acc created_inbox_def new_account_def)
qed

lemma account_at_disabled_domain_witness:
  "\<exists>inbox d'. create_account (\<lambda>n. n) (sample_options\<lparr>opt_DefaultDomain := ''old.test''\<rparr>) sample_draws ''new.test'' ''cat'' ''h''
       (sample_db\<lparr>db_domains := [\<lparr>dr_id = 2, dr_name = ''old.test'', dr_enabled = 0, dr_created_at = 60\<rparr>]\<rparr>) = (Inr inbox, d')
     \<and> Inbox_Address inbox = ''cat@old.test''
     \<and> fst (Rcpt (\<lambda>n. n) Some 0 ''cat@old.test'' fresh_session (NewBackend default_config None) d')
         = Some (SMTPError 550 (5, 7, 1) ''relay not permitted'')"
proof -
  let ?d = "sample_db\<lparr>db_domains := [\<lparr>dr_id = 2, dr_name = ''old.test'', dr_enabled = 0, dr_created_at = 60\<rparr>]\<rparr>"
  have wf: "db_wf ?d" using sample_db_wf by (simp add: db_wf_def ids_wf_def unique_wf_def links_wf_def flags_wf_def keys_ok_def)
  have n: "nocase ''cat@old.test'' = ''cat@old.test''" by code_simp
  obtain res d' where "create_account (\<lambda>n. n) (sample_options\<lparr>opt_DefaultDomain := ''old.test''\<rparr>) sample_draws ''new.test'' ''cat'' ''h'' ?d = (res, d')"
    by fastforce
  then show ?thesis
    using account_at_disabled_domain [OF wf, of "sample_options\<lparr>opt_DefaultDomain := ''old.test''\<rparr>" "''cat''" sample_draws Some
        "''cat@old.test''" "\<lambda>n. n" 0 fresh_session default_config None "''new.test''" "''h''"] n
    by (auto simp: plain_def byte_def is_space_def address_taken_def token_taken_def sample_names)
qed

section \<open>A session lifetime that is too long\<close>

text \<open>
  C40. The session lifetime that the environment gives in days is multiplied in 64 bits, so a
  login lasts the wrapped product: up to 106751 days that is the lifetime to the nanosecond, and
  the login opens its mailbox to every request within it and to none after. From 106752 to 213503
  days the product is negative: the configuration loads, the login succeeds and redirects to the
  mailbox, but its session has expired when it is born and no later request is logged in. Beyond,
  it wraps again, and 213504 days last 25 minutes.
\<close>
theorem session_lifetime_of_days:
  assumes "0 < n" "n \<le> max_int64"
    and "db_wf d" "db_faults d = []" "session_of (dr_uuid dr) d = None" "dr_uuid dr \<noteq> []" "rw_sent w = None"
    and "ParseForm (x_parse_form x) r = Inr form" "i \<in> set (db_inboxes d)" "x_cmp x (ir_password_hash i) (PostFormValue ''password'' form)"
    and "nocase (ir_address i) = nocase (ToLower (x_ul x) (TrimSpace (PostFormValue ''address'' form)))"
  shows "\<exists>c d' w'. Load ul [''SESSION_TTL_DAYS'' \<mapsto> Itoa n] = Inr c
    \<and> HandleLogin x (web_options c) dr r d w = (d', w') \<and> resp_status w' = 303
    \<and> rh_headers (resp_head w') ''Location'' = Some ''/app''
    \<and> (\<forall>r' t. Cookie (sessionCookieName (opt_CookieSecure (web_options c))) r' = Some (dr_uuid dr) \<longrightarrow>
         logged_in (web_options c) t r' d'
           = (if toUnix t < toUnix (dr_now dr + wrap64 (n * 24 * time_Hour)) then Some (scanInbox i) else None)
         \<and> (106751 < n \<and> n < 213504 \<and> dr_now dr \<le> t \<longrightarrow> logged_in (web_options c) t r' d' = None))
    \<and> (n \<le> 106751 \<longrightarrow> wrap64 (n * 24 * time_Hour) = n * 24 * time_Hour)
    \<and> (n = 213504 \<longrightarrow> wrap64 (n * 24 * time_Hour) = 1526290448384)"
proof -
  let ?c = "default_config\<lparr>cfg_SessionTTL := days n\<rparr>"
  obtain d' w' where h: "HandleLogin x (web_options ?c) dr r d w = (d', w')" by fastforce
  have load: "Load ul [''SESSION_TTL_DAYS'' \<mapsto> Itoa n] = Inr ?c" using assms(1,2) by (rule Load_days)
  have "logged_into (web_options ?c) dr i (d', w')"
    using HandleLogin_ok [of d x r form dr w i "web_options ?c"] assms h by simp
  then have ok: "resp_status w' = 303" "rh_headers (resp_head w') ''Location'' = Some ''/app''"
    and live: "\<And>r' t. Cookie (sessionCookieName (opt_CookieSecure (web_options ?c))) r' = Some (dr_uuid dr) \<Longrightarrow>
      logged_in (web_options ?c) t r' d' = (if toUnix t < toUnix (dr_now dr + wrap64 (n * 24 * time_Hour)) then Some (scanInbox i) else None)"
    by (simp_all add: logged_into_def web_options_def days_wrap64)
  have born_expired: "\<not> toUnix t < toUnix (dr_now dr + wrap64 (n * 24 * time_Hour))" if "106751 < n" "n < 213504" "dr_now dr \<le> t" for t
  proof -
    have "days n < 0" using that(1,2) by (intro days_wrapped) simp_all
    then have "dr_now dr + wrap64 (n * 24 * time_Hour) \<le> t" using that(3) unfolding days_wrap64 by linarith
    then show ?thesis using toUnix_mono by (simp add: not_less)
  qed
  have "n \<le> 106751 \<Longrightarrow> wrap64 (n * 24 * time_Hour) = n * 24 * time_Hour"
    using days_exact [OF assms(1)] unfolding days_wrap64 by simp
  moreover have "n = 213504 \<Longrightarrow> wrap64 (n * 24 * time_Hour) = 1526290448384" by (simp add: wrap64_def)
  ultimately show ?thesis using load h ok live born_expired
    by (intro exI [of _ ?c] exI [of _ d'] exI [of _ w'] conjI allI impI) simp_all
qed

lemma session_lifetime_of_days_witness:
  "\<exists>c d' w'. Load (\<lambda>n. n) [''SESSION_TTL_DAYS'' \<mapsto> Itoa 106752] = Inr c
    \<and> HandleLogin form_ext (web_options c) sample_draws (sample_request ''POST'' ''/login'' []) sample_account_db new_writer = (d', w')
    \<and> resp_status w' = 303
    \<and> logged_in (web_options c) (dr_now sample_draws) (sample_request ''GET'' ''/app'' [(sessionCookieName False, dr_uuid sample_draws)]) d' = None"
proof -
  let ?r = "sample_inbox 2 ''cat'' ''t2'' (CHR ''$'' # replicate 32 (CHR ''a''))"
  have "\<exists>c d' w'. Load (\<lambda>n. n) [''SESSION_TTL_DAYS'' \<mapsto> Itoa 106752] = Inr c
    \<and> HandleLogin form_ext (web_options c) sample_draws (sample_request ''POST'' ''/login'' []) sample_account_db new_writer = (d', w')
    \<and> resp_status w' = 303
    \<and> rh_headers (resp_head w') ''Location'' = Some ''/app''
    \<and> (\<forall>r' t. Cookie (sessionCookieName (opt_CookieSecure (web_options c))) r' = Some (dr_uuid sample_draws) \<longrightarrow>
         logged_in (web_options c) t r' d'
           = (if toUnix t < toUnix (dr_now sample_draws + wrap64 (106752 * 24 * time_Hour)) then Some (scanInbox ?r) else None)
         \<and> (106751 < (106752::int) \<and> (106752::int) < 213504 \<and> dr_now sample_draws \<le> t \<longrightarrow> logged_in (web_options c) t r' d' = None))
    \<and> ((106752::int) \<le> 106751 \<longrightarrow> wrap64 (106752 * 24 * time_Hour) = 106752 * 24 * time_Hour)
    \<and> ((106752::int) = 213504 \<longrightarrow> wrap64 (106752 * 24 * time_Hour) = 1526290448384)"
    by (rule session_lifetime_of_days [where form = "[(''local_part'', ''cat''), (''domain'', ''x.test''),
        (''address'', ''cat@x.test''), (''password'', replicate 32 (CHR ''a''))]"])
       (simp_all add: sample_account_wf, simp_all add: sample_account_db_def session_of_def new_writer_def ParseForm_def PostFormValue_def
        first_value_def toy_cmp_def sample_words)
  then obtain c d' w' where c: "Load (\<lambda>n. n) [''SESSION_TTL_DAYS'' \<mapsto> Itoa 106752] = Inr c"
    and h: "HandleLogin form_ext (web_options c) sample_draws (sample_request ''POST'' ''/login'' []) sample_account_db new_writer = (d', w')"
    "resp_status w' = 303"
    and all: "\<forall>r' t. Cookie (sessionCookieName (opt_CookieSecure (web_options c))) r' = Some (dr_uuid sample_draws) \<longrightarrow>
         logged_in (web_options c) t r' d'
           = (if toUnix t < toUnix (dr_now sample_draws + wrap64 (106752 * 24 * time_Hour)) then Some (scanInbox ?r) else None)
         \<and> (106751 < (106752::int) \<and> (106752::int) < 213504 \<and> dr_now sample_draws \<le> t \<longrightarrow> logged_in (web_options c) t r' d' = None)"
    by (elim exE conjE) (rule that; assumption)
  have "opt_CookieSecure (web_options c) = False"
    using c by (simp add: Load_days web_options_def default_config_def) auto
  then have "Cookie (sessionCookieName (opt_CookieSecure (web_options c))) (sample_request ''GET'' ''/app'' [(sessionCookieName False, dr_uuid sample_draws)])
      = Some (dr_uuid sample_draws)" by (simp add: Cookie_def sample_request_def plain_request_def)
  from conjunct2 [OF all [rule_format, OF this, of "dr_now sample_draws"]] c h show ?thesis by auto
qed

section \<open>A delivery on the sample service\<close>

lemma same_origin_word: "TrimSpace ''same-origin'' = ''same-origin''"
  by (rule TrimSpace_no_space_ascii) (simp_all add: byte_def is_space_def)

lemma sample_connected_fields:
  "sys_db (sample_connected d) = d" "sys_options (sample_connected d) = web_options default_config"
  "sys_sessions (sample_connected d) 1 = Some fresh_session" "be_config (sys_backend (sample_connected d)) = default_config"
  "cache_get t name (be_domains (sys_backend (sample_connected d))) = (False, False)"
  by (auto simp: sample_connected_def sample_system_def NewServer_def NewBackend_def NewSession_def Let_def split: prod.split)

lemma sample_run: "sys_run_to out (sample_system d) [SmtpConnect 1 0 None None] (sample_connected d)"
  by (rule sys_run_to.intros sample_session)+

lemma sample_raw: "readRawMessage (''raw'', None) (cfg_MaxEmailSize default_config) = Inr ''raw''"
proof -
  have "wrap64 (10485760 + 1) = 10485761" by (rule wrap64_id [THEN trans]) simp_all
  then show ?thesis by (simp add: readRawMessage_def ReadAll_def LimitReader_def default_config_def)
qed

lemma sample_address:
  "''ann@x.test'' = ''ann'' @ CHR ''@'' # ''x.test''" "CHR ''@'' \<notin> set ''ann''" "CHR ''@'' \<notin> set ''x.test''" "''x.test'' \<noteq> []"
  "plain ''x.test''" "domain_view sample_db (nocase ''x.test'') = Some True"
  "sample_inbox 1 ''ann'' ''t1'' ''h1'' \<in> set (db_inboxes sample_db)"
  "nocase (ir_address (sample_inbox 1 ''ann'' ''t1'' ''h1'')) = nocase (''ann'' @ CHR ''@'' # ''x.test'')"
  by (simp_all add: plain_def byte_def is_space_def domain_view_def sample_names)

lemma mail_reaches_its_reader_witness:
  "\<exists>s2 e unread. sys_run_to (sample_outside sample_ext) (sample_connected sample_db)
       [SmtpRcpt 1 0 ''ann@x.test'' None, SmtpData 1 (400 * time_Second) (''raw'', None) None] s2
     \<and> Page (indexData \<lparr>Title = ''Inbox'', cd_Inbox = Some (scanInbox (sample_inbox 1 ''ann'' ''t1'' ''h1''))\<rparr> unread
          [e, scanEmailRow sample_email_row])
       \<in> set (rw_body (snd (serve sample_ext (sys_options s2) sample_draws (sample_request ''GET'' ''/app'' [(''session'', ''s1'')]) (sys_site s2))))"
proof -
  let ?s = "sample_connected sample_db" and ?q = "sample_request ''GET'' ''/app'' [(''session'', ''s1'')]"
  obtain email atts where p: "parseMessage (\<lambda>n. n) (\<lambda>raw. (None, sample_reader)) 400000000000 default_config (ses_from fresh_session) ''raw''
      (scanInbox (sample_inbox 1 ''ann'' ''t1'' ''h1'')) = Inr (email, atts)"
    using sample_parse unfolding fresh_session_def by fastforce
  have log: "logged_in (web_options default_config) 400000000000 ?q sample_db = Some (scanInbox (sample_inbox 1 ''ann'' ''t1'' ''h1''))"
    using sample_logged_in(1) by (simp add: logged_in_def web_options_def default_config_def)
  have box: "take 49 (mailbox 1 sample_db) = [scanEmailRow sample_email_row]" by (simp add: mailbox_def mailbox_rows_def)
  have "\<exists>s2 e rest unread. sys_run_to (sample_outside sample_ext) ?s [SmtpRcpt 1 0 ''ann@x.test'' None, SmtpData 1 (400 * time_Second) (''raw'', None) None] s2
      \<and> Page (indexData \<lparr>Title = ''Inbox'', cd_Inbox = Some (scanInbox (sample_inbox 1 ''ann'' ''t1'' ''h1''))\<rparr> unread (e # rest))
        \<in> set (rw_body (snd (serve (o_ext (sample_outside sample_ext)) (sys_options s2) sample_draws ?q (sys_site s2))))
      \<and> rest = take 49 (mailbox (ir_id (sample_inbox 1 ''ann'' ''t1'' ''h1'')) (sys_db ?s)) \<and> Email_Sender e = Email_Sender email
      \<and> Email_Subject e = Email_Subject email \<and> Email_BodyText e = Email_BodyText email \<and> Email_BodyHTML e = Email_BodyHTML email
      \<and> (\<exists>as. fst (GetAttachmentsByEmailID (Email_ID e) (sys_db s2)) = Inr as \<and> map Attachment_Content as = map Attachment_Content atts)"
    by (rule mail_reaches_its_reader [where local_part = "''ann''" and host = "''x.test''" and ses = fresh_session and raw = "''raw''",
        OF sample_booted sample_run])
      (simp_all add: sample_connected_fields sample_db_wf sample_address [simplified] sample_raw p log
        sample_routes MethodPost_def toUnix_def del: One_nat_def)
  then show ?thesis by (auto simp: box sample_connected_fields)
qed

lemma sample_delivery:
  "\<exists>s1 d. sys_run_to (sample_outside sample_ext) (sample_system sample_db) [SmtpConnect 1 0 None None, SmtpRcpt 1 0 ''ann@x.test'' None] s1
     \<and> sys_step (sample_outside sample_ext) (SmtpData 1 (400 * time_Second) (''raw'', None) None) s1 (with_db d s1)"
proof -
  let ?out = "sample_outside sample_ext"
  obtain email atts where p: "parseMessage (\<lambda>n. n) (\<lambda>raw. (None, sample_reader)) 400000000000 default_config (ses_from fresh_session) ''raw''
      (scanInbox (sample_inbox 1 ''ann'' ''t1'' ''h1'')) = Inr (email, atts)"
    using sample_parse unfolding fresh_session_def by fastforce
  obtain s1 d where steps: "sys_step ?out (SmtpRcpt 1 0 ''ann@x.test'' None) (sample_connected sample_db) s1"
      "sys_step ?out (SmtpData 1 (400 * time_Second) (''raw'', None) None) s1 (with_db d s1)"
    using delivery_steps [where out = ?out and s = "sample_connected sample_db" and to = "''ann@x.test''" and local_part = "''ann''"
        and host = "''x.test''" and r = "sample_inbox 1 ''ann'' ''t1'' ''h1''" and n = 1 and ses = fresh_session and now = 0
        and stream = "(''raw'', None)" and raw = "''raw''" and t = "400 * time_Second" and email = email and atts = atts] p
    by (simp add: sample_connected_fields sample_db_wf sample_address [simplified] sample_raw del: One_nat_def) blast
  have "sys_run_to ?out (sample_system sample_db) [SmtpConnect 1 0 None None, SmtpRcpt 1 0 ''ann@x.test'' None] s1"
    by (rule sys_run_to.intros sample_session steps)+
  with steps(2) show ?thesis by blast
qed

lemma messages_arrive_by_accepted_data_witness:
  "\<exists>s1 s2 ses row. sys_run_to (sample_outside sample_ext) (sample_system sample_db)
       [SmtpConnect 1 0 None None, SmtpRcpt 1 0 ''ann@x.test'' None] s1
     \<and> sys_step (sample_outside sample_ext) (SmtpData 1 (400 * time_Second) (''raw'', None) None) s1 s2
     \<and> sys_sessions s1 1 = Some ses \<and> ses_rcpts ses \<noteq> [] \<and> db_emails (sys_db s2) = db_emails (sys_db s1) @ [row]
     \<and> nocase (er_recipient row) = nocase (last (ses_rcpts ses))"
proof -
  let ?out = "sample_outside sample_ext"
  obtain s1 d where run: "sys_run_to ?out (sample_system sample_db) [SmtpConnect 1 0 None None, SmtpRcpt 1 0 ''ann@x.test'' None] s1"
    and step: "sys_step ?out (SmtpData 1 (400 * time_Second) (''raw'', None) None) s1 (with_db d s1)"
    using sample_delivery by blast
  from messages_arrive_by_accepted_data [OF sample_booted run step] obtain ses row where
    "sys_sessions s1 1 = Some ses" "ses_rcpts ses \<noteq> []" "db_emails (sys_db (with_db d s1)) = db_emails (sys_db s1) @ [row]"
    "nocase (er_recipient row) = nocase (last (ses_rcpts ses))"
    by (auto simp: sample_db_wf simp del: One_nat_def)
  with run step show ?thesis by blast
qed

lemma sample_deletion:
  "er_id sample_email_row \<notin> er_id ` set (db_emails (site_db (fst (root_handler sample_ext (web_options default_config) sample_draws
     (sys_site (sample_system sample_db)) (sample_request ''POST'' ''/app/email/1/delete'' [(''session'', ''s1'')]\<lparr>rq_headers := h, rq_body_limit := l\<rparr>) w))))"
proof -
  let ?q = "sample_request ''POST'' ''/app/email/1/delete'' [(''session'', ''s1'')]\<lparr>rq_headers := h, rq_body_limit := l\<rparr>"
  have "find_route ?q = AppArea (AppDelete ''1'')"
    by (simp add: find_route_def cleanPath_def join_segments_def root_table_def app_table_def get_only_def post_only_def
        is_get_def MethodGet_def MethodHead_def MethodPost_def Let_def)
  moreover have "logged_in (web_options default_config) (400 * time_Second) ?q sample_db = Some (scanInbox (sample_inbox 1 ''ann'' ''t1'' ''h1''))"
    using sample_logged_in(1) by (simp add: logged_in_def web_options_def default_config_def Cookie_def)
  from gate_open [OF this, of "app_handler sample_ext (AppDelete ''1'')" w] obtain d3 w1 where
    "MailboxAuthMiddleware (web_options default_config) (400 * time_Second) (app_handler sample_ext (AppDelete ''1'')) ?q sample_db w
      = app_handler sample_ext (AppDelete ''1'') (withInbox ?q (scanInbox (sample_inbox 1 ''ann'' ''t1'' ''h1''))) d3 w1"
    "db_emails d3 = [sample_email_row]" "db_faults d3 = []" by auto
  moreover have "ParseInt ''1'' = Some 1" by code_simp
  ultimately show ?thesis
    by (simp add: root_handler_def on_db_def case_prod_beta app_handler_def HandleDeleteEmail_def GetInboxFromContext_def withInbox_def
        pathID_def PathValue_def first_value_def DeleteEmail_def exec_count_ok delete_emails_def Let_def scanInbox_def sample_system_def
        split: sum.split)
qed

lemma messages_leave_by_owner_or_expiry_witness:
  "\<exists>inbox. logged_in (web_options default_config) (400 * time_Second)
     (sample_request ''POST'' ''/app/email/1/delete'' [(''session'', ''s1'')]\<lparr>rq_headers := [(''Sec-Fetch-Site'', ''same-origin'')]\<rparr>) sample_db = Some inbox
     \<and> Inbox_ID inbox = 1"
proof -
  let ?q = "sample_request ''POST'' ''/app/email/1/delete'' [(''session'', ''s1'')]\<lparr>rq_headers := [(''Sec-Fetch-Site'', ''same-origin'')]\<rparr>"
  let ?out = "sample_outside sample_ext" and ?s = "sample_system sample_db"
  obtain st w where v: "serve sample_ext (sys_options ?s) sample_draws ?q (sys_site ?s) = (st, w)" by fastforce
  then have step: "sys_step ?out (HttpRequest sample_draws ?q w) ?s (with_site st ?s)" by (intro sys_step.http) simp
  have "isSameOriginRequest uf up (?q\<lparr>rq_body_limit := n\<rparr>)" for uf up n
    by (simp add: isSameOriginRequest_def header_Get_def first_value_def same_origin_word)
  moreover have "rq_method ?q = MethodPost" "rq_content_length ?q = 0"
    by (simp_all add: MethodPost_def sample_request_def plain_request_def)
  ultimately obtain w' where "st = fst (root_handler sample_ext (sys_options ?s) sample_draws (sys_site ?s) (?q\<lparr>rq_body_limit := Some 65536\<rparr>) w')"
    using serve_fst [of sample_ext "sys_options ?s" sample_draws ?q "sys_site ?s"] v by (auto simp: maxPostBodyBytes_def)
  then have "er_id sample_email_row \<notin> er_id ` set (db_emails (site_db st))"
    using sample_deletion [where h = "[(''Sec-Fetch-Site'', ''same-origin'')]" and l = "Some 65536" and w = w'] by simp
  with messages_leave_by_owner_or_expiry [OF sample_booted sys_run_to.none step, of sample_email_row]
  show ?thesis by (auto simp: sample_db_wf)
qed

end
