(* ===== verification/Mail_Service.thy ===== *)
theory Mail_Service
  imports End_To_End
begin

text \<open>
  The service as its users see it: accounts that hold messages, and five deeds that change
  them. The running service refines it: \<open>view\<close> maps the tables to accounts and messages, and
  every event of the service is a deed of its kind or changes nothing a user sees.
\<close>

section \<open>The abstract service\<close>

record account =
  ac_address :: string
  ac_hash :: string
  ac_expires :: int

record mail =
  ml_message :: Email
  ml_files :: "Attachment list"

record mail_service =
  ms_accounts :: "int \<Rightarrow> account option"
  ms_mail :: "int \<Rightarrow> mail option"

abbreviation ml_owner :: "mail \<Rightarrow> int" where "ml_owner ml \<equiv> Email_InboxID (ml_message ml)"

datatype deed = Registers | Delivers | Reads | Deletes | Expires int

definition holds_address :: "string \<Rightarrow> account \<Rightarrow> bool" where
  "holds_address s a \<longleftrightarrow> nocase (ac_address a) = nocase s"

definition gone_at :: "int \<Rightarrow> mail_service \<Rightarrow> int \<Rightarrow> bool" where
  "gone_at now m i = pred_option (\<lambda>a. ac_expires a \<le> toUnix now) (ms_accounts m i)"

inductive mail_step :: "deed \<Rightarrow> mail_service \<Rightarrow> mail_service \<Rightarrow> bool" where
  registers: "ms_accounts m i = None \<Longrightarrow> (\<And>b. b \<in> ran (ms_accounts m) \<Longrightarrow> \<not> holds_address (ac_address a) b) \<Longrightarrow>
    (\<And>ml. ml \<in> ran (ms_mail m) \<Longrightarrow> ml_owner ml \<noteq> i) \<Longrightarrow>
    mail_step Registers m (m\<lparr>ms_accounts := (ms_accounts m)(i \<mapsto> a)\<rparr>)"
| delivers: "ms_accounts m (ml_owner ml) = Some a \<Longrightarrow> holds_address (Email_Recipient (ml_message ml)) a \<Longrightarrow>
    Email_ID (ml_message ml) = k \<Longrightarrow> \<not> Email_IsRead (ml_message ml) \<Longrightarrow> ms_mail m k = None \<Longrightarrow>
    mail_step Delivers m (m\<lparr>ms_mail := (ms_mail m)(k \<mapsto> ml)\<rparr>)"
| reads: "ms_mail m k = Some ml \<Longrightarrow>
    mail_step Reads m (m\<lparr>ms_mail := (ms_mail m)(k \<mapsto> ml\<lparr>ml_message := (ml_message ml)\<lparr>Email_IsRead := True\<rparr>\<rparr>)\<rparr>)"
| deletes: "ms_mail m k = Some ml \<Longrightarrow> mail_step Deletes m (m\<lparr>ms_mail := (ms_mail m)(k := None)\<rparr>)"
| expires: "mail_step (Expires now) m
    \<lparr>ms_accounts = ms_accounts m |` {i. \<not> gone_at now m i},
     ms_mail = ms_mail m |` {k. pred_option (\<lambda>ml. \<not> gone_at now m (ml_owner ml)) (ms_mail m k)}\<rparr>"

text \<open>Every message lies with the account it is addressed to.\<close>

definition mail_with_addressee :: "mail_service \<Rightarrow> bool" where
  "mail_with_addressee m \<longleftrightarrow>
     (\<forall>ml \<in> ran (ms_mail m). \<exists>a. ms_accounts m (ml_owner ml) = Some a \<and> holds_address (Email_Recipient (ml_message ml)) a)"

lemma mail_with_addressee_step: "mail_step L m m' \<Longrightarrow> mail_with_addressee m \<Longrightarrow> mail_with_addressee m'"
  by (induction rule: mail_step.induct)
     (auto simp: mail_with_addressee_def ran_def restrict_map_def gone_at_def split: if_splits option.splits | metis)+

section \<open>The view of the tables\<close>

definition table :: "('r \<Rightarrow> int) \<Rightarrow> ('r \<Rightarrow> 'v) \<Rightarrow> 'r list \<Rightarrow> int \<Rightarrow> 'v option" where
  "table key f rows = map_of (map (\<lambda>r. (key r, f r)) rows)"

lemma option_eqI: "(\<And>v. x = Some v \<longleftrightarrow> y = Some v) \<Longrightarrow> x = y"
  by (cases x; cases y) auto

lemma table_None: "table key f rows k = None \<longleftrightarrow> k \<notin> key ` set rows"
  by (force simp: table_def map_of_eq_None_iff)

lemma table_Some: "distinct (map key rows) \<Longrightarrow> table key f rows k = Some v \<longleftrightarrow> (\<exists>r \<in> set rows. key r = k \<and> f r = v)"
  unfolding table_def by (subst map_of_eq_Some_iff) (auto simp: comp_def)

lemma table_row: "distinct (map key rows) \<Longrightarrow> r \<in> set rows \<Longrightarrow> table key f rows (key r) = Some (f r)"
  by (auto simp: table_Some)

lemma ran_table: "distinct (map key rows) \<Longrightarrow> ran (table key f rows) = f ` set rows"
  by (auto simp: ran_def table_Some)

lemma table_snoc: "key r \<notin> key ` set rows \<Longrightarrow> table key f (rows @ [r]) = (table key f rows)(key r \<mapsto> f r)"
  using table_None [of key f rows "key r"]
  by (auto simp: table_def map_add_def fun_eq_iff split: option.split)

lemma table_cong: "(\<And>r. r \<in> set rows \<Longrightarrow> f r = g r) \<Longrightarrow> table key f rows = table key g rows"
  unfolding table_def by (intro arg_cong [where f = map_of] map_cong) simp_all

lemma table_updated:
  "(\<And>r. key (h r) = key r) \<Longrightarrow> table key f (update_rows P h rows) = table key (\<lambda>r. f (if P r then h r else r)) rows"
  unfolding table_def update_rows_def by (intro arg_cong [where f = map_of]) simp

lemma table_update_same:
  "(\<And>r. key (h r) = key r) \<Longrightarrow> (\<And>r. f (h r) = f r) \<Longrightarrow> table key f (update_rows P h rows) = table key f rows"
  by (simp add: table_updated if_distrib cong: if_cong)

lemma table_update:
  assumes "\<And>r. key (h r) = key r" "distinct (map key rows)" "r \<in> set rows"
  shows "table key f (update_rows (\<lambda>x. key x = key r) h rows) = (table key f rows)(key r \<mapsto> f (h r))"
proof
  fix k
  show "table key f (update_rows (\<lambda>x. key x = key r) h rows) k = ((table key f rows)(key r \<mapsto> f (h r))) k"
  proof (cases "k = key r")
    case True
    then show ?thesis by (simp add: table_updated assms(1) table_row [OF assms(2,3)])
  next
    case False
    then have "table key f (update_rows (\<lambda>x. key x = key r) h rows) k = table key f rows k"
      using assms(1,2) by (intro option_eqI) (auto simp: table_updated table_Some)
    with False show ?thesis by simp
  qed
qed

lemma table_filter:
  assumes "distinct (map key rows)" "\<And>r. r \<in> set rows \<Longrightarrow> P r \<longleftrightarrow> key r \<in> K"
  shows "table key f (filter P rows) = table key f rows |` K"
  using assms by (intro ext option_eqI) (auto simp: table_Some distinct_map_filter restrict_map_def)

definition account_of :: "inbox_row \<Rightarrow> account" where
  "account_of r = \<lparr>ac_address = ir_address r, ac_hash = ir_password_hash r, ac_expires = ir_expires_at r\<rparr>"

definition mail_of :: "attachment_row list \<Rightarrow> email_row \<Rightarrow> mail" where
  "mail_of files e = \<lparr>ml_message = scanEmailRow e,
     ml_files = map scanAttachmentRow (filter (\<lambda>a. ar_email_id a = er_id e) files)\<rparr>"

definition view :: "db \<Rightarrow> mail_service" where
  "view d = \<lparr>ms_accounts = table ir_id account_of (db_inboxes d),
     ms_mail = table er_id (mail_of (db_attachments d)) (db_emails d)\<rparr>"

lemma view_cong:
  "db_inboxes d' = db_inboxes d \<Longrightarrow> db_emails d' = db_emails d \<Longrightarrow> db_attachments d' = db_attachments d \<Longrightarrow> view d' = view d"
  by (simp add: view_def)

lemma distinct_ids:
  assumes "db_wf d"
  shows "distinct (map ir_id (db_inboxes d))" "distinct (map er_id (db_emails d))"
  using assms by (simp_all add: db_wf_def ids_wf_def keys_ok_def)

lemma view_account: "db_wf d \<Longrightarrow> r \<in> set (db_inboxes d) \<Longrightarrow> ms_accounts (view d) (ir_id r) = Some (account_of r)"
  by (simp add: view_def table_row distinct_ids)

lemma view_mail: "db_wf d \<Longrightarrow> e \<in> set (db_emails d) \<Longrightarrow> ms_mail (view d) (er_id e) = Some (mail_of (db_attachments d) e)"
  by (simp add: view_def table_row distinct_ids)

lemma owner_mail_of [simp]: "ml_owner (mail_of files e) = er_inbox_id e"
  by (simp add: mail_of_def scanEmailRow_def)

section \<open>What the statements do to the view\<close>

lemma view_touch: "view (d\<lparr>db_inboxes := update_rows P (\<lambda>r. r\<lparr>ir_last_accessed_at := t\<rparr>) (db_inboxes d)\<rparr>) = view d"
  by (simp add: view_def table_update_same account_of_def)

lemma view_other_tables [simp]:
  "view (d\<lparr>db_faults := fs\<rparr>) = view d" "view (d\<lparr>db_sessions := ss\<rparr>) = view d" "view (d\<lparr>db_domains := ds\<rparr>) = view d"
  "view (d\<lparr>db_settings := ts\<rparr>) = view d"
  "view (snd (insert_session now session d)) = view d" "view (snd (insert_domain now name d)) = view d"
  by (auto simp: insert_session_def insert_domain_def Let_def intro: view_cong)

lemma view_insert_inbox:
  assumes "db_wf d"
  shows "view (snd (insert_inbox now inbox d)) = view d \<or> mail_step Registers (view d) (view (snd (insert_inbox now inbox d)))"
proof (cases "snd (insert_inbox now inbox d) = d")
  case False
  let ?i = "db_inboxes_seq d + 1"
  let ?r = "\<lparr>ir_id = ?i, ir_address = Inbox_Address inbox, ir_local_part = Inbox_LocalPart inbox,
    ir_token = Inbox_Token inbox, ir_password_hash = Inbox_PasswordHash inbox, ir_created_at = toUnix now,
    ir_last_accessed_at = toUnix now, ir_expires_at = toUnix (Inbox_ExpiresAt inbox)\<rparr>"
  have new: "\<forall>r \<in> set (db_inboxes d). nocase (ir_address r) \<noteq> nocase (Inbox_Address inbox)"
    and d': "snd (insert_inbox now inbox d) = d\<lparr>db_inboxes := db_inboxes d @ [?r], db_inboxes_seq := ?i\<rparr>"
    using False by (auto simp: insert_inbox_def Let_def split: if_splits)
  have fresh: "?i \<notin> ir_id ` set (db_inboxes d)" using assms by (auto simp: db_wf_def ids_wf_def keys_ok_def)
  have "\<forall>e \<in> set (db_emails d). er_inbox_id e \<in> ir_id ` set (db_inboxes d)" using assms by (simp add: db_wf_def links_wf_def)
  with fresh have owners: "er_inbox_id e \<noteq> ?i" if "e \<in> set (db_emails d)" for e using that by metis
  have "view (snd (insert_inbox now inbox d)) = (view d)\<lparr>ms_accounts := (ms_accounts (view d))(?i \<mapsto> account_of ?r)\<rparr>"
    using table_snoc [of ir_id ?r "db_inboxes d" account_of] fresh by (simp add: d' view_def)
  moreover have "mail_step Registers (view d) ((view d)\<lparr>ms_accounts := (ms_accounts (view d))(?i \<mapsto> account_of ?r)\<rparr>)"
    using new fresh owners distinct_ids [OF assms]
    by (intro mail_step.registers)
       (auto simp: view_def table_None ran_table holds_address_def account_of_def mail_of_def scanEmailRow_def)
  ultimately show ?thesis by simp
qed simp

lemma view_mark:
  assumes "db_wf d"
  shows "view (d\<lparr>db_emails := update_rows (\<lambda>r. er_id r = k) (\<lambda>r. r\<lparr>er_is_read := 1\<rparr>) (db_emails d)\<rparr>) = view d
    \<or> mail_step Reads (view d) (view (d\<lparr>db_emails := update_rows (\<lambda>r. er_id r = k) (\<lambda>r. r\<lparr>er_is_read := 1\<rparr>) (db_emails d)\<rparr>))"
proof (cases "k \<in> er_id ` set (db_emails d)")
  case True
  then obtain e where e: "e \<in> set (db_emails d)" "k = er_id e" by auto
  let ?f = "mail_of (db_attachments d)"
  have "ms_mail (view d) k = Some (?f e)" using e by (simp add: view_mail [OF assms])
  from mail_step.reads [OF this] show ?thesis
    using table_update [of er_id "\<lambda>r. r\<lparr>er_is_read := 1\<rparr>" "db_emails d" e ?f] distinct_ids(2) [OF assms] e
    by (simp add: view_def mail_of_def scanEmailRow_def)
next
  case False
  then have "update_rows (\<lambda>r. er_id r = k) (\<lambda>r. r\<lparr>er_is_read := 1\<rparr>) (db_emails d) = db_emails d"
    by (auto simp: update_rows_def intro!: map_idI)
  then show ?thesis by simp
qed

text \<open>Deleting rows of a table deletes the entries of their keys, and no files of others.\<close>

lemma view_delete_emails:
  assumes "db_wf d" "\<And>e. e \<in> set (db_emails d) \<Longrightarrow> \<not> P e \<longleftrightarrow> er_id e \<in> K"
  shows "view (delete_emails P d) = (view d)\<lparr>ms_mail := ms_mail (view d) |` K\<rparr>"
proof -
  let ?files = "filter (\<lambda>r. ar_email_id r \<notin> er_id ` set (filter P (db_emails d))) (db_attachments d)"
  have "mail_of ?files e = mail_of (db_attachments d) e" if e: "e \<in> set (filter (\<lambda>r. \<not> P r) (db_emails d))" for e
  proof -
    have "\<forall>x \<in> set (db_emails d). P x \<longrightarrow> er_id x \<noteq> er_id e" using assms(2) e by auto (metis assms(2))
    then show ?thesis by (auto simp: mail_of_def intro!: arg_cong [where f = "map scanAttachmentRow"] filter_cong)
  qed
  then show ?thesis
    using table_filter [OF distinct_ids(2) [OF assms(1)], of "\<lambda>r. \<not> P r" K "mail_of (db_attachments d)"] assms(2)
      table_cong [of "filter (\<lambda>r. \<not> P r) (db_emails d)" "mail_of ?files" "mail_of (db_attachments d)" er_id]
    by (simp add: view_def delete_emails_def Let_def)
qed

lemma view_drop:
  assumes "db_wf d"
  shows "view (delete_emails (\<lambda>r. er_inbox_id r = i \<and> er_id r = k) d) = view d
    \<or> mail_step Deletes (view d) (view (delete_emails (\<lambda>r. er_inbox_id r = i \<and> er_id r = k) d))"
proof (cases "\<exists>e \<in> set (db_emails d). er_inbox_id e = i \<and> er_id e = k")
  case True
  then obtain e where e: "e \<in> set (db_emails d)" "er_inbox_id e = i" "er_id e = k" by blast
  have "er_inbox_id x = i" if "x \<in> set (db_emails d)" "er_id x = k" for x
    using distinct_ids(2) [OF assms] e that inj_onD [of er_id "set (db_emails d)" x e] by (simp add: distinct_map)
  then have "view (delete_emails (\<lambda>r. er_inbox_id r = i \<and> er_id r = k) d) = (view d)\<lparr>ms_mail := ms_mail (view d) |` (- {k})\<rparr>"
    by (intro view_delete_emails assms) auto
  moreover have "ms_mail (view d) k = Some (mail_of (db_attachments d) e)"
    using view_mail [OF assms e(1)] e(3) by simp
  ultimately show ?thesis
    using mail_step.deletes [of "view d" k "mail_of (db_attachments d) e"] by (simp add: restrict_complement_singleton_eq)
next
  case False
  then have "view (delete_emails (\<lambda>r. er_inbox_id r = i \<and> er_id r = k) d) = (view d)\<lparr>ms_mail := ms_mail (view d) |` UNIV\<rparr>"
    by (intro view_delete_emails assms) auto
  then show ?thesis by (simp add: restrict_map_def)
qed

lemma expired_account: "db_wf d \<Longrightarrow> r \<in> set (db_inboxes d) \<Longrightarrow> gone_at now (view d) (ir_id r) \<longleftrightarrow> expired now r"
  by (simp add: gone_at_def view_account account_of_def expired_def)

lemma view_expire:
  assumes "db_wf d"
  shows "mail_step (Expires now) (view d) (view (delete_inboxes (expired now) d))"
proof -
  let ?gone = "\<lambda>e. er_inbox_id e \<in> ir_id ` set (filter (expired now) (db_inboxes d))"
  let ?K = "{k. pred_option (\<lambda>ml. \<not> gone_at now (view d) (ml_owner ml)) (ms_mail (view d) k)}"
  have keep: "\<not> ?gone e \<longleftrightarrow> er_id e \<in> ?K" if e: "e \<in> set (db_emails d)" for e
  proof -
    obtain r where r: "r \<in> set (db_inboxes d)" "er_inbox_id e = ir_id r" using assms e by (auto simp: db_wf_def links_wf_def)
    then have "?gone e \<longleftrightarrow> gone_at now (view d) (er_inbox_id e)"
      using expired_account [OF assms, where now = now] by auto metis
    then show ?thesis by (simp add: view_mail [OF assms e])
  qed
  have "table ir_id account_of (filter (\<lambda>r. \<not> expired now r) (db_inboxes d))
      = table ir_id account_of (db_inboxes d) |` {i. \<not> gone_at now (view d) i}"
    using expired_account [OF assms, where now = now] by (intro table_filter distinct_ids assms) simp
  moreover have "view (delete_emails ?gone d) = (view d)\<lparr>ms_mail := ms_mail (view d) |` ?K\<rparr>"
    by (rule view_delete_emails [OF assms keep])
  ultimately have "view (delete_inboxes (expired now) d)
      = \<lparr>ms_accounts = ms_accounts (view d) |` {i. \<not> gone_at now (view d) i}, ms_mail = ms_mail (view d) |` ?K\<rparr>"
    by (simp add: view_def delete_inboxes_def delete_emails_def Let_def)
  then show ?thesis by (simp only: mail_step.expires)
qed

section \<open>What the events do to the view\<close>

text \<open>A session delivers to an inbox by its id. That id keeps its address for good.\<close>

definition inbox_known :: "Inbox \<Rightarrow> db \<Rightarrow> bool" where
  "inbox_known inbox d \<longleftrightarrow> Inbox_ID inbox \<le> db_inboxes_seq d
     \<and> (\<forall>r \<in> set (db_inboxes d). ir_id r = Inbox_ID inbox \<longrightarrow> ir_address r = Inbox_Address inbox)"

interpretation known: site_store "inbox_known i" for i
  by unfold_locales
     (auto simp: inbox_known_def insert_inbox_def insert_session_def insert_domain_def delete_emails_def Let_def ball_update_rows)

interpretation known: delivery_store "inbox_known i" for i
  by unfold_locales (auto simp: inbox_known_def insert_email_row_def insert_attachment_row_def Let_def)

interpretation known: expiry_store "inbox_known i" for i
  by unfold_locales (auto simp: inbox_known_def delete_inboxes_def delete_emails_def Let_def)

interpretation known: service "inbox_known i" out "\<lambda>_. True" for i out
proof unfold_locales
  fix s dr r w
  assume "inbox_known i (sys_db s)"
  then show "inbox_known i (site_db (fst (serve (o_ext out) (sys_options s) dr r (sys_site s))))"
    by (intro serve_state [where Q = "\<lambda>st. inbox_known i (site_db st)"] known.root_handler)
qed (auto intro: known.setup_commit known.Data_keeps known.runCleanup)

lemma Rcpt_knows:
  assumes "Rcpt ul pa now to ses b d = (err, ses', b', d')" "db_wf d" "ses_inbox ses' = Some inbox"
  shows "ses_inbox ses = Some inbox \<or> inbox_known inbox d"
proof (cases err)
  case None
  from Rcpt_accepted [OF assms(1)[unfolded None]] obtain l m r where r: "r \<in> set (db_inboxes d)"
    and s': "ses' = ses\<lparr>ses_inbox := Some (scanInbox r), ses_rcpts := ses_rcpts ses @ [l @ CHR ''@'' # m]\<rparr>" by blast
  then have one: "ir_address x = ir_address r" if "x \<in> set (db_inboxes d)" "ir_id x = ir_id r" for x
    using inj_onD [of ir_id "set (db_inboxes d)" x r] distinct_ids(1) [OF assms(2)] that by (simp add: distinct_map)
  have "ir_id r \<le> db_inboxes_seq d" using r assms(2) by (simp add: db_wf_def ids_wf_def keys_ok_def)
  then have "inbox_known (scanInbox r) d" using one by (simp add: inbox_known_def scanInbox_def)
  then show ?thesis using s' assms(3) by simp
next
  case (Some e)
  then show ?thesis using Rcpt_refused [OF assms(1)[unfolded Some]] assms(3) by simp
qed

definition sessions_known :: "system \<Rightarrow> bool" where
  "sessions_known s \<longleftrightarrow> (\<forall>n ses inbox. sys_sessions s n = Some ses \<longrightarrow> ses_inbox ses = Some inbox \<longrightarrow> inbox_known inbox (sys_db s))"

lemma sessions_known_step:
  assumes "sys_step out ev s s'" "db_wf (sys_db s)" "sessions_known s"
  shows "sessions_known s'"
proof -
  have keeps: "inbox_known i (sys_db s')" if "inbox_known i (sys_db s)" for i
    using known.step_keeps [OF assms(1) _ that] by simp
  from assms keeps show ?thesis
  proof (induction rule: sys_step.cases)
    case (connect s n now conn ses b)
    then show ?case using NewSession_Inr by (fastforce simp: sessions_known_def fresh_session_def)
  next
    case (rcpt s n ses now to err ses' b d)
    then show ?case using Rcpt_knows by (fastforce simp: sessions_known_def)
  qed (auto simp: sessions_known_def Mail_def Reset_def)
qed

lemma system_known_run:
  assumes "booted out s0" "sys_run_to out s0 evs s"
  shows "system_ok out s \<and> sessions_known s"
  using assms(2)
proof (rule sys_run_induct)
  show "system_ok out s0 \<and> sessions_known s0"
    using system_ok_run [OF assms(1) sys_run_to.none] assms(1) by (auto simp: booted_def sessions_known_def)
qed (metis system_ok_def system_ok_step sessions_known_step)

text \<open>An accepted \<open>DATA\<close> delivers; a refused one does nothing.\<close>

lemma Data_delivers:
  assumes "Data ul create now r ses b d = (None, d')" "db_wf d" "\<And>inbox. ses_inbox ses = Some inbox \<Longrightarrow> inbox_known inbox d"
  shows "mail_step Delivers (view d) (view d')"
proof -
  from Data_None [OF assms(1)] obtain raw inbox email atts e' atts' where ses: "ses_inbox ses = Some inbox"
    and parse: "parseMessage ul create now (be_config b) (ses_from ses) raw inbox = Inr (email, atts)"
    and save: "SaveInboundMessage ul now email atts d = (Inr (e', atts'), d')" by blast
  note p = parseMessage_Inr [OF parse] and st = SaveInboundMessage_Inr [OF save]
  let ?row = "email_row_of (Email_ID e') (Email_ReceivedAt e') email"
  have k: "er_id ?row = db_emails_seq d + 1" using st(2) by (simp add: email_row_of_def)
  then have fresh: "er_id ?row \<notin> er_id ` set (db_emails d)" using assms(2) by (auto simp: db_wf_def ids_wf_def keys_ok_def)
  have new: "db_inboxes d' = db_inboxes d" "db_emails d' = db_emails d @ [?row]"
    and files: "\<exists>fs. db_attachments d' = db_attachments d @ fs \<and> (\<forall>a \<in> set fs. ar_email_id a = er_id ?row)"
    using st(4) attachment_rows_keys by (auto simp: same_tables_iff email_row_of_def)
  have "Inbox_ID inbox \<in> ir_id ` set (db_inboxes d)" using st(1) p by simp
  then obtain acc where acc: "acc \<in> set (db_inboxes d)" "ir_id acc = Inbox_ID inbox" by force
  have "mail_of (db_attachments d') e = mail_of (db_attachments d) e" if "e \<in> set (db_emails d)" for e
    using files fresh that by (fastforce simp: mail_of_def filter_empty_conv)
  then have "table er_id (mail_of (db_attachments d')) (db_emails d) = table er_id (mail_of (db_attachments d)) (db_emails d)"
    by (rule table_cong)
  then have "view d' = (view d)\<lparr>ms_mail := (ms_mail (view d))(er_id ?row \<mapsto> mail_of (db_attachments d') ?row)\<rparr>"
    using table_snoc [OF fresh, of "mail_of (db_attachments d')"] new by (simp add: view_def)
  moreover have "mail_step Delivers (view d) ((view d)\<lparr>ms_mail := (ms_mail (view d))(er_id ?row \<mapsto> mail_of (db_attachments d') ?row)\<rparr>)"
  proof (rule mail_step.delivers [where a = "account_of acc"])
    show "ms_accounts (view d) (ml_owner (mail_of (db_attachments d') ?row)) = Some (account_of acc)"
      using view_account [OF assms(2) acc(1)] acc(2) p by (simp add: email_row_of_def)
    show "holds_address (Email_Recipient (ml_message (mail_of (db_attachments d') ?row))) (account_of acc)"
      using assms(3) [OF ses] acc p by (simp add: holds_address_def account_of_def mail_of_def scanEmailRow_def email_row_of_def inbox_known_def)
    show "Email_ID (ml_message (mail_of (db_attachments d') ?row)) = er_id ?row" by (simp add: mail_of_def scanEmailRow_def)
    show "\<not> Email_IsRead (ml_message (mail_of (db_attachments d') ?row))" using p by (simp add: mail_of_def scanEmailRow_def email_row_of_def)
    show "ms_mail (view d) (er_id ?row) = None" using fresh by (simp add: view_def table_None)
  qed
  ultimately show ?thesis by simp
qed

text \<open>A cleanup expires accounts, unless its first statement fails; a request is a sequence of deeds.\<close>

lemma runCleanup_expires:
  assumes "runCleanup now d = (res, d')" "db_wf d"
  shows "case res of CleanupFailed e \<Rightarrow> view d' = view d | _ \<Rightarrow> mail_step (Expires now) (view d) (view d')"
proof -
  obtain r1 d1 where del: "DeleteExpiredInboxes now d = (r1, d1)" by fastforce
  have one: "case r1 of Inl e \<Rightarrow> view d1 = view d | Inr n \<Rightarrow> mail_step (Expires now) (view d) (view d1)"
    using del unfolding DeleteExpiredInboxes_def exec_count_def
    by (rule_tac run_stmt_cases [of "\<lambda>d. (Inr (count_rows (\<lambda>r. ir_expires_at r \<le> toUnix now) (db_inboxes d)),
          delete_inboxes (\<lambda>r. ir_expires_at r \<le> toUnix now) d)" d])
       (use assms(2) view_expire [of "d\<lparr>db_faults := _\<rparr>" now] in \<open>auto simp: delete_count_def faults_wf expired_def [abs_def]\<close>)
  have "view (snd (DeleteExpiredSessions now d1)) = view d1"
    using DeleteExpiredSessions_cases [of now d1] by (auto intro: trans [OF view_cong])
  then show ?thesis
    using assms(1) del one by (auto simp: runCleanup_def split: prod.splits sum.splits if_splits)
qed

definition web_deed :: "mail_service \<Rightarrow> mail_service \<Rightarrow> bool" where
  "web_deed m m' \<longleftrightarrow> mail_step Registers m m' \<or> mail_step Reads m m' \<or> mail_step Deletes m m'"

lemma web_deed_again: "web_deed\<^sup>*\<^sup>* m m' \<Longrightarrow> m'' = m' \<or> mail_step L m' m'' \<Longrightarrow> L \<in> {Registers, Reads, Deletes} \<Longrightarrow> web_deed\<^sup>*\<^sup>* m m''"
  by (auto simp: web_deed_def intro: rtranclp.rtrancl_into_rtrancl)

interpretation deeds: site_store "\<lambda>d. db_wf d \<and> web_deed\<^sup>*\<^sup>* m (view d)" for m
proof unfold_locales
  fix d now inbox
  assume "db_wf d \<and> web_deed\<^sup>*\<^sup>* m (view d)"
  then show "db_wf (snd (insert_inbox now inbox d)) \<and> web_deed\<^sup>*\<^sup>* m (view (snd (insert_inbox now inbox d)))"
    by (auto intro: wf.insert_inbox web_deed_again [OF _ view_insert_inbox])
next
  fix d k
  assume "db_wf d \<and> web_deed\<^sup>*\<^sup>* m (view d)"
  then show "db_wf (d\<lparr>db_emails := update_rows (\<lambda>r. er_id r = k) (\<lambda>r. r\<lparr>er_is_read := 1\<rparr>) (db_emails d)\<rparr>)
      \<and> web_deed\<^sup>*\<^sup>* m (view (d\<lparr>db_emails := update_rows (\<lambda>r. er_id r = k) (\<lambda>r. r\<lparr>er_is_read := 1\<rparr>) (db_emails d)\<rparr>))"
    by (auto intro: wf.mark_read web_deed_again [OF _ view_mark])
next
  fix d i k
  assume "db_wf d \<and> web_deed\<^sup>*\<^sup>* m (view d)"
  then show "db_wf (delete_emails (\<lambda>r. er_inbox_id r = i \<and> er_id r = k) d)
      \<and> web_deed\<^sup>*\<^sup>* m (view (delete_emails (\<lambda>r. er_inbox_id r = i \<and> er_id r = k) d))"
    by (auto intro: wf.drop_email web_deed_again [OF _ view_drop])
qed (simp_all add: wf.faults view_touch wf.insert_session wf.touch_session wf.drop_session wf.touch_inbox wf.insert_domain
      wf.set_domain wf.upsert)

lemma serve_deeds:
  assumes "db_wf (site_db st)"
  shows "web_deed\<^sup>*\<^sup>* (view (site_db st)) (view (site_db (fst (serve x o1 dr r st))))"
proof -
  have "db_wf (site_db (fst (serve x o1 dr r st))) \<and> web_deed\<^sup>*\<^sup>* (view (site_db st)) (view (site_db (fst (serve x o1 dr r st))))"
    by (rule serve_state [where Q = "\<lambda>s. db_wf (site_db s) \<and> web_deed\<^sup>*\<^sup>* (view (site_db st)) (view (site_db s))"])
       (use assms in \<open>auto intro!: deeds.root_handler [of st "view (site_db st)", simplified]\<close>)
  then show ?thesis by simp
qed

section \<open>The refinement\<close>

text \<open>The deed an event may be.\<close>

definition deed_of :: "event \<Rightarrow> mail_service \<Rightarrow> mail_service \<Rightarrow> bool" where
  "deed_of ev m m' = (case ev of
     HttpRequest dr r w \<Rightarrow> web_deed\<^sup>*\<^sup>* m m'
   | SmtpData n now r err \<Rightarrow> if err = None then mail_step Delivers m m' else m' = m
   | CleanupRun now res \<Rightarrow> (case res of CleanupFailed e \<Rightarrow> m' = m | _ \<Rightarrow> mail_step (Expires now) m m')
   | _ \<Rightarrow> m' = m)"

interpretation unseen: domain_store "\<lambda>d. view d = m" for m
  by unfold_locales simp_all

interpretation unseen: settings_store "\<lambda>d. view d = m" for m
  by unfold_locales simp_all

lemma step_refines:
  assumes "sys_step out ev s s'" "db_wf (sys_db s)" "sessions_known s"
  shows "deed_of ev (view (sys_db s)) (view (sys_db s'))"
  using assms
proof (induction rule: sys_step.cases)
  case (http s dr r st w)
  then show ?case using serve_deeds [of "sys_site s" "o_ext out" "sys_options s" dr r] by (simp add: deed_of_def)
next
  case (rcpt s n ses now to err ses' b d)
  then show ?case using unseen.Rcpt_keeps [OF rcpt(5)] by (simp add: deed_of_def)
next
  case (checked s n r r' w password d)
  then show ?case using unseen.setup_check_same [OF checked(7)] by (simp add: deed_of_def)
next
  case (stored s n r' w password dr adm d w')
  then have "view d = view (sys_db s)"
    using unseen.setup_commit [of "sys_db s" "view (sys_db s)" "o_ext out" "sys_options s" dr r' password "site_admin (sys_site s)" w] by simp
  then show ?case using stored by (simp add: deed_of_def)
next
  case (data s n ses now r err d)
  show ?case
  proof (cases err)
    case None
    with data show ?thesis using Data_delivers [of "x_ul (o_ext out)" "o_create out" now r ses "sys_backend s" "sys_db s" d]
      by (simp add: deed_of_def sessions_known_def)
  next
    case (Some e)
    with data show ?thesis using unseen.same [OF Data_Some] by (simp add: deed_of_def)
  qed
next
  case (cleanup now s res d)
  then show ?case using runCleanup_expires [OF cleanup(4)] by (simp add: deed_of_def)
next
  case (restart s d now env R)
  then have "view (site_db (run_site R)) = view (sys_db s)"
    using unseen.start_keeps [OF restart(5)] unseen.same [OF restart(4)] by simp
  then show ?case using restart by (simp add: deed_of_def)
qed (simp_all add: deed_of_def)

text \<open>
  C4. The running service refines the abstract one: whatever the order of its events, a request
  registers accounts at addresses nobody holds, reads and deletes messages and does nothing else
  a user could see; an accepted \<open>DATA\<close> delivers one new unread message to the account that holds
  the address it is sent to, a refused one does nothing; a cleanup removes the accounts that have
  expired, with their messages and files, or, when its first statement fails, nothing; and no
  other event, restarts and failing statements included, changes what users see.
\<close>
theorem service_refines_mail_service:
  assumes "booted out s0" "sys_run_to out s0 evs s" "sys_step out ev s s'"
  shows "deed_of ev (view (sys_db s)) (view (sys_db s'))"
  using step_refines [OF assms(3)] system_known_run [OF assms(1,2)] by (simp add: system_ok_def)

lemma service_refines_mail_service_witness:
  "\<exists>s1 s2. sys_step (sample_outside sample_ext) (SmtpData 1 (400 * time_Second) (''raw'', None) None) s1 s2
     \<and> mail_step Delivers (view (sys_db s1)) (view (sys_db s2))"
proof -
  obtain s1 d where run: "sys_run_to (sample_outside sample_ext) (sample_system sample_db)
      [SmtpConnect 1 0 None None, SmtpRcpt 1 0 ''ann@x.test'' None] s1"
    and step: "sys_step (sample_outside sample_ext) (SmtpData 1 (400 * time_Second) (''raw'', None) None) s1 (with_db d s1)"
    using sample_delivery by blast
  from service_refines_mail_service [OF sample_booted run step] step show ?thesis
    by (auto simp: deed_of_def sample_db_wf simp del: One_nat_def with_simps)
qed

text \<open>What an abstract invariant gives for the tables.\<close>

lemma deed_of_keeps:
  assumes "\<And>L m m'. mail_step L m m' \<Longrightarrow> J m \<Longrightarrow> J m'" "deed_of ev m m'" "J m"
  shows "J m'"
proof -
  have "web_deed\<^sup>*\<^sup>* m m' \<Longrightarrow> J m \<Longrightarrow> J m'"
    by (induction rule: rtranclp_induct) (auto simp: web_deed_def intro: assms(1))
  then show ?thesis
    using assms by (auto simp: deed_of_def split: event.splits cleanup_outcome.splits if_splits)
qed

lemma run_keeps_view:
  assumes "\<And>L m m'. mail_step L m m' \<Longrightarrow> J m \<Longrightarrow> J m'" "booted out s0" "sys_run_to out s0 evs s" "J (view (sys_db s0))"
  shows "J (view (sys_db s))"
proof -
  have "system_ok out s \<and> sessions_known s \<and> J (view (sys_db s))"
    using assms(3)
  proof (rule sys_run_induct)
    show "system_ok out s0 \<and> sessions_known s0 \<and> J (view (sys_db s0))"
      using system_known_run [OF assms(2) sys_run_to.none] assms(4) by simp
  next
    fix ev t t'
    assume step: "sys_step out ev t t'" and t: "system_ok out t \<and> sessions_known t \<and> J (view (sys_db t))"
    then have wf: "db_wf (sys_db t)" by (simp add: system_ok_def)
    have "J (view (sys_db t'))"
      by (rule deed_of_keeps [where J = J and ev = ev and m = "view (sys_db t)"])
         (use assms(1) step_refines [OF step wf] t in auto)
    then show "system_ok out t' \<and> sessions_known t' \<and> J (view (sys_db t'))"
      using system_ok_step [OF step] sessions_known_step [OF step wf] t by simp
  qed
  then show ?thesis by simp
qed

definition sent_to_owner :: "email_row \<Rightarrow> db \<Rightarrow> bool" where
  "sent_to_owner e d \<longleftrightarrow> (\<exists>r \<in> set (db_inboxes d). ir_id r = er_inbox_id e \<and> nocase (er_recipient e) = nocase (ir_address r))"

lemma view_addressee:
  assumes "db_wf d"
  shows "mail_with_addressee (view d) \<longleftrightarrow> list_all (\<lambda>e. sent_to_owner e d) (db_emails d)"
proof -
  have "ran (ms_mail (view d)) = mail_of (db_attachments d) ` set (db_emails d)"
    by (simp add: view_def ran_table distinct_ids assms)
  moreover have "(\<exists>a. ms_accounts (view d) (er_inbox_id e) = Some a \<and> holds_address (er_recipient e) a) \<longleftrightarrow> sent_to_owner e d" for e
    using distinct_ids(1) [OF assms] by (auto simp: view_def table_Some sent_to_owner_def holds_address_def account_of_def)
  moreover have "Email_Recipient (ml_message (mail_of fs e)) = er_recipient e" for fs e by (simp add: mail_of_def scanEmailRow_def)
  ultimately show ?thesis by (simp add: mail_with_addressee_def list_all_iff)
qed

text \<open>
  C5. Nobody ever holds a message that was sent to someone else: in a database where every
  message lies in the mailbox of its recipient address - an empty one, say - that stays so
  through all events, though mailboxes come and go and an address may be registered again.
\<close>
theorem mail_stays_with_its_addressee:
  assumes "booted out s0" "list_all (\<lambda>e. sent_to_owner e (sys_db s0)) (db_emails (sys_db s0))" "sys_run_to out s0 evs s"
    and "e \<in> set (db_emails (sys_db s))"
  shows "sent_to_owner e (sys_db s)"
proof -
  have wf: "db_wf (sys_db s0)" "db_wf (sys_db s)"
    using system_ok_run [OF assms(1)] sys_run_to.none assms(3) by (auto simp: system_ok_def)
  have "mail_with_addressee (view (sys_db s))"
    by (rule run_keeps_view [where J = mail_with_addressee, OF mail_with_addressee_step assms(1,3)])
       (use view_addressee [OF wf(1)] assms(2) in simp_all)
  then show ?thesis using view_addressee [OF wf(2)] assms(4) by (simp add: list_all_iff)
qed

lemma with_db_inject [simp]: "with_db d s = with_db d' s \<longleftrightarrow> d = d'"
  by (auto dest: arg_cong [where f = sys_db])

lemma mail_stays_with_its_addressee_witness:
  "\<exists>s e. sys_run_to (sample_outside sample_ext) (sample_system sample_db)
       [SmtpConnect 1 0 None None, SmtpRcpt 1 0 ''ann@x.test'' None, SmtpData 1 (400 * time_Second) (''raw'', None) None] s
     \<and> e \<in> set (db_emails (sys_db s)) \<and> sent_to_owner e (sys_db s)"
proof -
  obtain s1 d where run: "sys_run_to (sample_outside sample_ext) (sample_system sample_db)
      [SmtpConnect 1 0 None None, SmtpRcpt 1 0 ''ann@x.test'' None] s1"
    and step: "sys_step (sample_outside sample_ext) (SmtpData 1 (400 * time_Second) (''raw'', None) None) s1 (with_db d s1)"
    using sample_delivery by blast
  then have all: "sys_run_to (sample_outside sample_ext) (sample_system sample_db)
      [SmtpConnect 1 0 None None, SmtpRcpt 1 0 ''ann@x.test'' None, SmtpData 1 (400 * time_Second) (''raw'', None) None] (with_db d s1)"
    by (auto simp: sys_run_to_simps simp del: One_nat_def)
  have "db_emails d \<noteq> []"
    using step by (auto elim!: sys_step_data dest!: Data_None SaveInboundMessage_Inr(4) simp: same_tables_iff)
  then obtain e where e: "e \<in> set (db_emails d)" by (meson last_in_set)
  have "list_all (\<lambda>e. sent_to_owner e (sys_db (sample_system sample_db))) (db_emails (sys_db (sample_system sample_db)))"
    by (simp add: sent_to_owner_def sample_email_row_def)
  from mail_stays_with_its_addressee [OF sample_booted this all, of e] e have "sent_to_owner e d" by (simp add: sample_db_wf)
  with all e show ?thesis by (intro exI [of _ "with_db d s1"] exI [of _ e]) simp
qed

end
