(* ===== verification/Spec2Isabelle.thy ===== *)
theory Spec2Isabelle
  imports Config Client_Ip Repository_Open Mail_Service
begin

text \<open>
  A model of the anonymous e-mail service (Go) and the theorems that make it correct. The
  service is one process: a web server where visitors register an address, log in and read mail,
  an SMTP server that takes mail for registered addresses, a cleanup goroutine, and a SQLite
  database under all three. \<open>cmd/server/main.go\<close> loads the configuration, opens the database,
  seeds the first domain, builds the two servers and waits for a signal or a server error.

  \<^bold>\<open>Foundations.\<close>
  \<open>Prelude\<close>: Go's error values with \<open>errors.Is\<close>, 64-bit wrap-around, instants in nanoseconds and whole
  seconds, generic lemmas. \<open>Go_Strings\<close>: what the code uses of \<open>strings\<close>, \<open>strconv\<close>, \<open>unicode\<close> and
  \<open>net\<close> on byte strings (a \<open>string\<close> is a list of bytes; runes are decoded as Go decodes them, and
  the part of Unicode above ASCII that the model needs - lower case and simple folding - is a function
  parameter). \<open>Interfaces\<close>: the locales that several components share, stores with deadlines and
  key-value stores; each is interpreted on the components that provide it.

  \<^bold>\<open>Small components.\<close>
  \<open>Config\<close> (\<open>internal/config\<close>): \<open>Load\<close> with every loader; a loaded configuration is valid, and where a
  product overflows. \<open>Domain_Util\<close> (\<open>internal/domainutil\<close>): \<open>Validate\<close>. \<open>Client_Ip\<close>
  (\<open>internal/clientip\<close>): the key of a client. \<open>Rate_Limit\<close> (\<open>internal/ratelimit\<close>): the fixed-window
  limiter, its two-window bound and its exact \<open>RetryAfter\<close>. \<open>Auth\<close> (\<open>internal/auth\<close>): passwords and
  tokens. \<open>Domain_Cache\<close> (\<open>internal/smtp/domaincache.go\<close>). \<open>Models\<close> (\<open>internal/models\<close>).

  \<^bold>\<open>The database\<close> (\<open>internal/repository\<close>). \<open>Sqlite_Db\<close>: the tables of the migrations as lists of rows,
  with their id counters, unique columns, foreign keys and cascades, and a schedule that says which of the next statements
  fail. \<open>Repository\<close>: every operation of the interface, statement by statement,
  \<open>SaveInboundMessage\<close> in its transaction. \<open>Repository_Inv\<close>: the well-formedness \<open>db_wf\<close> and the contract of the
  repository with its clients: a hierarchy of locales, one per group of tables, in which an
  invariant that the statements of a group keep is lifted to its operations and, in the later theories, to the
  handlers and to the whole service. \<open>db_wf\<close> interprets all of them; frame conditions (the settings, the
  domains, an account, a message) interpret those of the other tables. \<open>Repository_Spec\<close>,
  \<open>Repository_Mailbox\<close> and \<open>Repository_Accounts\<close> show what the operations promise: atomic delivery, round trips, paging,
  unique addresses, session deadlines, domains as a map, expiry. \<open>Repository_Open\<close>: opening the file
  and running the migrations in order, with the text of \<open>migrations/*.sql\<close> and the tables it creates. \<open>Samples\<close>: a small database for the concrete instances.

  \<^bold>\<open>The SMTP side\<close> (\<open>internal/smtp\<close>). \<open>Smtp_Backend\<close>: the domain check through the cache, new sessions through
  the limiter. \<open>Smtp_Session\<close>: \<open>Mail\<close>, \<open>Rcpt\<close>, \<open>Data\<close>, \<open>Reset\<close> and \<open>Logout\<close>, the parsing of a message. \<open>Smtp_Spec\<close>: no relaying,
  exact replies, whole messages or nothing, the selection of bodies and attachments.

  \<^bold>\<open>The web side\<close> (\<open>internal/web\<close>). \<open>Http\<close>: requests, response writers, cookies and forms as the handlers use them.
  \<open>Web_Security\<close>, \<open>Web_Session\<close> (\<open>middleware.go\<close>), \<open>Web_Auth\<close> (\<open>auth_handlers.go\<close>), \<open>Web_Mail\<close> (\<open>handlers.go\<close>),
  \<open>Web_Admin\<close> (\<open>admin.go\<close>) and \<open>Web_Routes\<close> (\<open>routes.go\<close>, with \<open>http.ServeMux\<close> for its patterns): one definition per handler
  with all its early returns; \<open>serve\<close> is one request through the composed handler. \<open>Web_Site\<close>: what every request
  keeps. \<open>Web_Isolation\<close>: the mailbox area is closed without a session and shows one mailbox only with
  one. \<open>Web_Accounts\<close>: registration, login, logout. \<open>Admin_Spec\<close>: the admin area. \<open>Web_Samples\<close>: a sample site.

  \<^bold>\<open>The process.\<close> \<open>Worker\<close> (\<open>internal/worker\<close>): the cleanup goroutine with its ticker, its
  channel \<open>done\<close> and the callers of \<open>Stop\<close>, as events in any order. \<open>Server_Main\<close> (\<open>cmd/server\<close>):
  start, seeding and shutdown. \<open>System\<close>: the running service as a step relation over its events - requests, SMTP commands,
  cleanups, failing statements, restarts - with runs and an interface \<open>service\<close> for invariants of all
  steps. \<open>System_Spec\<close>: what holds along every run: consistency, accounts and the admin password stay, messages come by an accepted \<open>DATA\<close> only and
  go by their owner or with an expired mailbox only. \<open>End_To_End\<close>: from a sender to the reader's page, and
  an account that nobody can write to, and a session lifetime that locks everybody out. \<open>Mail_Service\<close>: the service as its users see it - accounts, messages, five deeds - as an
  abstract step relation that the running service refines through \<open>view\<close>, and what an abstract invariant
  gives: mail lies with its addressee.

  \<^bold>\<open>Parameters and bounds.\<close> Code that is not in the repository is an argument: bcrypt (with its documented contract
  \<open>bcrypt_contract\<close> where a theorem needs it), UUIDs and random bytes (\<open>draws\<close>), \<open>net/mail\<close> and go-message (\<open>create_reader\<close>),
  form and URL parsing, the HTML policy, template rendering, the file server (\<open>ext\<close>), the SQLite driver and the
  file system when opening. Loops are structural recursions, so there is no fuel; a receive from a
  channel that delivers nothing more is \<open>None\<close>. A failing statement of the database is an
  entry of the fault schedule, so a theorem without a condition on \<open>db_faults\<close> holds under every
  failure. In \<open>System\<close> one request or command is one step, but for a first setup of the admin
  password, which may also check and store in two steps with anything in between. Times and sizes that the
  configuration multiplies are wrapped to 64 bits as Go does.

  \<^bold>\<open>Not modelled.\<close> Log output beyond the outcomes above; \<open>newEmailHTMLPolicy\<close>, which only configures a library; templates, static files
  and the text of the statements of \<open>sqlite.go\<close> (they are operations on tables); the protocol engines of net/http and go-smtp, with their time-outs, their limits on lines and
  recipients and their order of commands (the model accepts any order); contexts and their cancellation, but for the
  worker's (elsewhere a cancelled statement is a failing one); a \<open>COMMIT\<close> that fails and leaves its transaction open;
  requests that overlap between their statements, other than setups; tests and deployment files.
\<close>

end
